theory Spec2Isabelle
  imports Main
begin

section \<open>Strings and paths\<close>

text \<open>
  The two scripts work on Python \<open>str\<close> paths with the functions of \<open>posixpath\<close>.
  A path is a \<^typ>\<open>string\<close>; the functions below follow the library's own code
  (\<open>posixpath.join\<close>, \<open>posixpath.split\<close>, \<open>genericpath._splitext\<close>,
  \<open>posixpath.relpath\<close>) on POSIX, where the separator is \<open>/\<close>.
\<close>

definition sep :: char where
  "sep = CHR ''/''"

definition extsep :: char where
  "extsep = CHR ''.''"

text \<open>\<open>str.lower\<close>: the letters \<open>A\<close> to \<open>Z\<close> are lowered. Every other character is left as
  it is; the suffixes tested by the scripts are ASCII.\<close>

definition lower_char :: "char \<Rightarrow> char" where
  "lower_char c =
     (case map_of (zip ''ABCDEFGHIJKLMNOPQRSTUVWXYZ'' ''abcdefghijklmnopqrstuvwxyz'') c of
        Some l \<Rightarrow> l
      | None \<Rightarrow> c)"

definition lower :: "string \<Rightarrow> string" where
  "lower s = map lower_char s"

text \<open>\<open>s.endswith(suffix)\<close>, and \<open>s.endswith((suffix, ...))\<close> with a tuple.\<close>

definition endswith :: "string \<Rightarrow> string \<Rightarrow> bool" where
  "endswith s suffix =
     (length suffix \<le> length s \<and> drop (length s - length suffix) s = suffix)"

definition endswith_any :: "string \<Rightarrow> string list \<Rightarrow> bool" where
  "endswith_any s suffixes = list_ex (endswith s) suffixes"

text \<open>\<open>s.rfind(c)\<close>: the index of the last occurrence of \<open>c\<close>, or \<open>-1\<close>.\<close>

definition rfind :: "string \<Rightarrow> char \<Rightarrow> int" where
  "rfind s c =
     (if c \<in> set s
      then int (length s) - 1 - int (length (takeWhile (\<lambda>x. x \<noteq> c) (rev s)))
      else - 1)"

text \<open>\<open>s.rstrip(c)\<close>.\<close>

definition rstrip :: "char \<Rightarrow> string \<Rightarrow> string" where
  "rstrip c s = rev (dropWhile (\<lambda>x. x = c) (rev s))"

text \<open>\<open>s.split('/')\<close>: never empty; \<open>''''.split('/')\<close> is \<open>['''']\<close>.\<close>

fun split_sep :: "string \<Rightarrow> string list" where
  "split_sep [] = [[]]"
| "split_sep (c # cs) =
     (if c = sep then [] # split_sep cs
      else (case split_sep cs of [] \<Rightarrow> [[c]] | x # xs \<Rightarrow> (c # x) # xs))"

text \<open>\<open>'/'.join(parts)\<close>.\<close>

fun join_sep :: "string list \<Rightarrow> string" where
  "join_sep [] = []"
| "join_sep [x] = x"
| "join_sep (x # y # ys) = x @ sep # join_sep (y # ys)"

text \<open>
  \<open>os.path.join(a, b)\<close>:
  \<^verbatim>\<open>
    if b.startswith(sep): path = b
    elif not path or path.endswith(sep): path += b
    else: path += sep + b
  \<close>
\<close>

definition path_join :: "string \<Rightarrow> string \<Rightarrow> string" where
  "path_join a b =
     (if b \<noteq> [] \<and> hd b = sep then b
      else if a = [] \<or> last a = sep then a @ b
      else a @ sep # b)"

text \<open>
  \<open>os.path.split(p)\<close>:
  \<^verbatim>\<open>
    i = p.rfind(sep) + 1
    head, tail = p[:i], p[i:]
    if head and head != sep*len(head): head = head.rstrip(sep)
    return head, tail
  \<close>
\<close>

definition path_split :: "string \<Rightarrow> string \<times> string" where
  "path_split p =
     (let i = nat (rfind p sep + 1);
          head = take i p;
          tail = drop i p
      in (if head \<noteq> [] \<and> head \<noteq> replicate (length head) sep then rstrip sep head else head,
          tail))"

text \<open>
  \<open>os.path.splitext(p)\<close>:
  \<^verbatim>\<open>
    sepIndex = p.rfind(sep)
    dotIndex = p.rfind(extsep)
    if dotIndex > sepIndex:
        filenameIndex = sepIndex + 1
        while filenameIndex < dotIndex:
            if p[filenameIndex:filenameIndex+1] != extsep:
                return p[:dotIndex], p[dotIndex:]
            filenameIndex += 1
    return p, p[:0]
  \<close>
  The loop returns the split as soon as a character of the file name before the last dot
  is not a dot.
\<close>

definition splitext :: "string \<Rightarrow> string \<times> string" where
  "splitext p =
     (let sepIndex = rfind p sep;
          dotIndex = rfind p extsep
      in if dotIndex > sepIndex \<and>
            list_ex (\<lambda>c. c \<noteq> extsep)
              (take (nat (dotIndex - (sepIndex + 1))) (drop (nat (sepIndex + 1)) p))
         then (take (nat dotIndex) p, drop (nat dotIndex) p)
         else (p, []))"

text \<open>
  \<open>os.path.abspath(p)\<close> as the list of its components: \<open>normpath(join(getcwd(), p))\<close>.
  The working directory is given by its components. For an absolute path \<open>normpath\<close>
  skips empty and \<open>.\<close> components and lets \<open>..\<close> remove the component before it, if any.
\<close>

fun normpath_from :: "string list \<Rightarrow> string list \<Rightarrow> string list" where
  "normpath_from new_comps [] = new_comps"
| "normpath_from new_comps (c # comps) =
     (if c = [] \<or> c = ''.'' then normpath_from new_comps comps
      else if c = ''..'' then normpath_from (butlast new_comps) comps
      else normpath_from (new_comps @ [c]) comps)"

definition start_dir :: "string list \<Rightarrow> string \<Rightarrow> string list" where
  "start_dir cwd p = (if p \<noteq> [] \<and> hd p = sep then [] else cwd)"

definition abspath :: "string list \<Rightarrow> string \<Rightarrow> string list" where
  "abspath cwd p = normpath_from (start_dir cwd p) (split_sep p)"

fun commonprefix :: "string list \<Rightarrow> string list \<Rightarrow> string list" where
  "commonprefix (x # xs) (y # ys) = (if x = y then x # commonprefix xs ys else [])"
| "commonprefix _ _ = []"


text \<open>
  Which strings a text stream can take. A character of the model below 128 is the ASCII
  character; a character from 128 on stands for the lone surrogate \<open>U+DC80\<close> to \<open>U+DCFF\<close>
  that \<open>os.walk\<close> (through \<open>os.fsdecode\<close>, with the error handler \<open>surrogateescape\<close>) puts
  into a file name for a byte that is not valid UTF-8. Standard output and the files opened
  with \<open>open(name, 'w')\<close> are text streams with the error handler \<open>strict\<close>, Python's
  default: they cannot encode a lone surrogate, and writing one raises
  \<open>UnicodeEncodeError\<close>. So a string can be written exactly when the top bit of each of its
  characters is clear.
\<close>

definition encodable :: "string \<Rightarrow> bool" where
  "encodable s = list_all (\<lambda>c. \<not> digit7 c) s"


section \<open>Exceptions, the file system and the world\<close>

text \<open>
  Every exception the scripts can meet is an instance of Python's \<open>Exception\<close>, which is
  what their \<open>except Exception\<close> clauses catch. \<open>FileNotFoundError m\<close> is the exception the
  split script raises itself, with its message \<open>m\<close>. The next four are the errors of the
  operating system for a path (\<open>OSFileNotFoundError\<close> is Python's \<open>FileNotFoundError\<close> with
  \<open>errno\<close> 2), and they carry that path. \<open>UnicodeEncodeError\<close> carries the text that could
  not be encoded. \<open>OtherException\<close> stands for whatever else a collaborator raises (a
  failed model download, a decoding error), with its message.
\<close>

datatype exn =
    FileNotFoundError string
  | OSFileNotFoundError string
  | FileExistsError string
  | NotADirectoryError string
  | IsADirectoryError string
  | ValueError string
  | UnicodeEncodeError string
  | CalledProcessError int "string list"
  | OtherException string

text \<open>
  \<open>exn_text e\<close> is the part of \<open>str(e)\<close> that is written as it is: the message of an
  exception made from a message. In the text of an error of the operating system the path
  is shown by \<open>repr\<close>, in the text of \<open>CalledProcessError\<close> the command line is, and in
  the text of \<open>UnicodeEncodeError\<close> the offending character is: \<open>repr\<close> escapes what
  cannot be encoded, so these texts are ASCII.
\<close>

fun exn_text :: "exn \<Rightarrow> string" where
  "exn_text (FileNotFoundError m) = m"
| "exn_text (ValueError m) = m"
| "exn_text (OtherException m) = m"
| "exn_text (OSFileNotFoundError p) = []"
| "exn_text (FileExistsError p) = []"
| "exn_text (NotADirectoryError p) = []"
| "exn_text (IsADirectoryError p) = []"
| "exn_text (UnicodeEncodeError s) = []"
| "exn_text (CalledProcessError returncode cmd) = []"

text \<open>
  What a file holds: the text written by \<open>f.write\<close>, the object serialised by
  \<open>json.dump\<close> (its keys in insertion order), or media data the scripts never look into.
\<close>

datatype content =
    Text string
  | Json "(string \<times> string) list"
  | Media

datatype node = Dir | File content

text \<open>
  The file system maps the components of an absolute path to the node there; the root
  \<open>[]\<close> is always a directory. There are no symbolic links and no permissions.
\<close>

type_synonym files = "string list \<rightharpoonup> node"

definition is_dir :: "files \<Rightarrow> string list \<Rightarrow> bool" where
  "is_dir t d = (d = [] \<or> t d = Some Dir)"

text \<open>
  Path resolution, one component at a time, as the kernel does it: to step through a
  name the current node must be a directory.
\<close>

datatype resolved = Found "string list" | ENOENT | ENOTDIR

fun resolve_from :: "files \<Rightarrow> string list \<Rightarrow> string list \<Rightarrow> resolved" where
  "resolve_from t cur [] = Found cur"
| "resolve_from t cur (c # cs) =
     (if \<not> is_dir t cur then ENOTDIR
      else if c = [] \<or> c = ''.'' then resolve_from t cur cs
      else if c = ''..'' then resolve_from t (butlast cur) cs
      else if t (cur @ [c]) = None then ENOENT
      else resolve_from t (cur @ [c]) cs)"

text \<open>The lines printed to standard output, one constructor for each \<open>print\<close> of the scripts.\<close>

datatype msg =
    Processing string
  | AudioNotFound string
  | LoadingModel
  | Transcribing string
  | TranscriptionSuccessful string
  | UnexpectedError exn
  | FoundAudioFiles nat
  | Skipping string
  | ErrorProcessing string exn
  | ExtractingVideo string
  | ExtractingAudio string
  | ExtractionComplete
  | Processed string

text \<open>
  \<open>msg_text m\<close>: what the f-string of the line puts into it as it is, a path, the first
  characters of a transcription, the text of an exception. The rest of each line is ASCII.
\<close>

fun msg_text :: "msg \<Rightarrow> string" where
  "msg_text (Processing audio_file) = audio_file"
| "msg_text (AudioNotFound audio_file) = audio_file"
| "msg_text LoadingModel = []"
| "msg_text (Transcribing audio_file) = audio_file"
| "msg_text (TranscriptionSuccessful t) = t"
| "msg_text (UnexpectedError e) = exn_text e"
| "msg_text (FoundAudioFiles n) = []"
| "msg_text (Skipping input_file) = input_file"
| "msg_text (ErrorProcessing input_file e) = input_file @ exn_text e"
| "msg_text (ExtractingVideo video_output) = video_output"
| "msg_text (ExtractingAudio audio_output) = audio_output"
| "msg_text ExtractionComplete = []"
| "msg_text (Processed input_file) = input_file"

definition printable :: "msg \<Rightarrow> bool" where
  "printable m = encodable (msg_text m)"

text \<open>The invocations of the external collaborators, in the order they were made.\<close>

datatype call =
    LoadModel string
  | Transcribe string string
  | Run "string list"

record world =
  cwd :: "string list"
  fs :: files
  stdout :: "msg list"
  calls :: "call list"

text \<open>
  The collaborators are parameters:
  \<^item> \<open>load_model name\<close> is \<open>whisper.load_model(name)\<close>: \<open>None\<close> when the model loads,
    the exception otherwise;
  \<^item> \<open>transcribe audio_file language\<close> is \<open>model.transcribe(audio_file,
    language=language)["text"]\<close>, or the exception raised;
  \<^item> \<open>run_process cmd cwd files\<close> runs a command line: the exception when the process
    cannot be started, its return code otherwise, and the file system it leaves.
\<close>

record collaborators =
  load_model :: "string \<Rightarrow> exn option"
  transcribe :: "string \<Rightarrow> string \<Rightarrow> exn + string"
  run_process :: "string list \<Rightarrow> string list \<Rightarrow> files \<Rightarrow> (exn + int) \<times> files"

text \<open>
  \<open>print(line)\<close>: the line is appended to standard output, or, when it cannot be
  encoded, \<open>UnicodeEncodeError\<close> is raised and nothing is written. \<open>emit m w\<close> is the world
  \<open>w\<close> with the line \<open>m\<close> written.
\<close>

definition emit :: "msg \<Rightarrow> world \<Rightarrow> world" where
  "emit m w = w\<lparr>stdout := stdout w @ [m]\<rparr>"

definition print :: "msg \<Rightarrow> world \<Rightarrow> (exn + unit) \<times> world" where
  "print m w =
     (if printable m then (Inr (), emit m w) else (Inl (UnicodeEncodeError (msg_text m)), w))"

definition whisper_load_model :: "collaborators \<Rightarrow> string \<Rightarrow> world \<Rightarrow> (exn + unit) \<times> world" where
  "whisper_load_model env name w =
     (case load_model env name of Some e \<Rightarrow> Inl e | None \<Rightarrow> Inr (),
      w\<lparr>calls := calls w @ [LoadModel name]\<rparr>)"

definition model_transcribe ::
  "collaborators \<Rightarrow> string \<Rightarrow> string \<Rightarrow> world \<Rightarrow> (exn + string) \<times> world" where
  "model_transcribe env audio_file language w =
     (transcribe env audio_file language,
      w\<lparr>calls := calls w @ [Transcribe audio_file language]\<rparr>)"

text \<open>\<open>subprocess.run(cmd, check=True)\<close>: a return code other than 0 raises
  \<open>CalledProcessError\<close>.\<close>

definition subprocess_run_check ::
  "collaborators \<Rightarrow> string list \<Rightarrow> world \<Rightarrow> (exn + unit) \<times> world" where
  "subprocess_run_check env cmd w =
     (let w' = w\<lparr>fs := snd (run_process env cmd (cwd w) (fs w)), calls := calls w @ [Run cmd]\<rparr>
      in case fst (run_process env cmd (cwd w) (fs w)) of
           Inl e \<Rightarrow> (Inl e, w')
         | Inr returncode \<Rightarrow>
             if returncode \<noteq> 0 then (Inl (CalledProcessError returncode cmd), w')
             else (Inr (), w'))"

text \<open>\<open>os.path.exists(p)\<close>: \<open>os.stat(p)\<close> does not fail. The empty path never exists.\<close>

definition resolve :: "world \<Rightarrow> string \<Rightarrow> resolved" where
  "resolve w p =
     (if p = [] then ENOENT else resolve_from (fs w) (start_dir (cwd w) p) (split_sep p))"

definition os_path_exists :: "world \<Rightarrow> string \<Rightarrow> bool" where
  "os_path_exists w p = (case resolve w p of Found d \<Rightarrow> True | _ \<Rightarrow> False)"

text \<open>
  \<open>os.makedirs(name)\<close> with \<open>exist_ok=False\<close>: every missing directory on the way is
  created, the leaf last. A regular file on the way raises; the directories created before
  stay. A path that exists already raises \<open>FileExistsError\<close>, and so does, after the
  creation of the directories before it, a path whose last name is \<open>..\<close>. The exception
  carries the name given to \<open>os.makedirs\<close>. The library works its way up the name with
  \<open>os.path.split\<close> and calls \<open>os.mkdir\<close> on the way back; for a name with no \<open>..\<close> in it
  that creates the same directories and fails in the same cases as here.
\<close>

fun makedirs_from :: "string \<Rightarrow> files \<Rightarrow> string list \<Rightarrow> string list \<Rightarrow> exn option \<times> files" where
  "makedirs_from name t cur [] = (None, t)"
| "makedirs_from name t cur (c # cs) =
     (if \<not> is_dir t cur then (Some (NotADirectoryError name), t)
      else if c = [] \<or> c = ''.'' then makedirs_from name t cur cs
      else if c = ''..'' then makedirs_from name t (butlast cur) cs
      else (case t (cur @ [c]) of
              None \<Rightarrow> makedirs_from name (t(cur @ [c] \<mapsto> Dir)) (cur @ [c]) cs
            | Some Dir \<Rightarrow> makedirs_from name t (cur @ [c]) cs
            | Some (File x) \<Rightarrow> (Some (NotADirectoryError name), t)))"

definition last_name :: "string \<Rightarrow> string" where
  "last_name p = (case filter (\<lambda>c. c \<noteq> []) (split_sep p) of [] \<Rightarrow> [] | c # cs \<Rightarrow> last (c # cs))"

definition os_makedirs :: "string \<Rightarrow> world \<Rightarrow> (exn + unit) \<times> world" where
  "os_makedirs name w =
     (if name = [] then (Inl (OSFileNotFoundError name), w)
      else if os_path_exists w name then (Inl (FileExistsError name), w)
      else case makedirs_from name (fs w) (start_dir (cwd w) name) (split_sep name) of
             (Some e, t) \<Rightarrow> (Inl e, w\<lparr>fs := t\<rparr>)
           | (None, t) \<Rightarrow>
               if last_name name = ''..'' then (Inl (FileExistsError name), w\<lparr>fs := t\<rparr>)
               else (Inr (), w\<lparr>fs := t\<rparr>))"

text \<open>
  \<open>with open(name, 'w') as f: ...\<close> and the write in its body. \<open>open\<close> needs the directory
  of the file to exist and cannot open a directory; it creates the file, or empties the one
  that is there. Then the body writes: \<open>f.write(text)\<close> raises \<open>UnicodeEncodeError\<close> for a
  text that cannot be encoded, and the file stays empty; \<open>json.dump\<close>, which is called with
  its default \<open>ensure_ascii=True\<close>, writes ASCII only and does not raise.
\<close>

fun writable :: "content \<Rightarrow> bool" where
  "writable (Text t) = encodable t"
| "writable (Json obj) = True"
| "writable Media = True"

fun content_text :: "content \<Rightarrow> string" where
  "content_text (Text t) = t"
| "content_text (Json obj) = []"
| "content_text Media = []"

definition open_write :: "string \<Rightarrow> content \<Rightarrow> world \<Rightarrow> (exn + unit) \<times> world" where
  "open_write name data w =
     (if name = [] then (Inl (OSFileNotFoundError name), w)
      else case resolve_from (fs w) (start_dir (cwd w) name) (butlast (split_sep name)) of
             ENOENT \<Rightarrow> (Inl (OSFileNotFoundError name), w)
           | ENOTDIR \<Rightarrow> (Inl (NotADirectoryError name), w)
           | Found d \<Rightarrow>
               if \<not> is_dir (fs w) d then (Inl (NotADirectoryError name), w)
               else if last (split_sep name) \<in> {[], ''.'', ''..''}
                 then (Inl (IsADirectoryError name), w)
               else if (fs w) (d @ [last (split_sep name)]) = Some Dir
                 then (Inl (IsADirectoryError name), w)
               else if \<not> writable data
                 then (Inl (UnicodeEncodeError (content_text data)),
                       w\<lparr>fs := (fs w)(d @ [last (split_sep name)] \<mapsto> File (Text []))\<rparr>)
               else (Inr (), w\<lparr>fs := (fs w)(d @ [last (split_sep name)] \<mapsto> File data)\<rparr>))"

text \<open>Reading a file back, for the statements about what was persisted.\<close>

definition read_file :: "world \<Rightarrow> string \<Rightarrow> content option" where
  "read_file w p =
     (case resolve w p of
        Found d \<Rightarrow> (case fs w d of Some (File data) \<Rightarrow> Some data | _ \<Rightarrow> None)
      | _ \<Rightarrow> None)"

text \<open>
  \<open>os.path.relpath(path, start)\<close>:
  \<^verbatim>\<open>
    if not path: raise ValueError("no path specified")
    start_list = [x for x in abspath(start).split(sep) if x]
    path_list = [x for x in abspath(path).split(sep) if x]
    i = len(commonprefix([start_list, path_list]))
    rel_list = [pardir] * (len(start_list)-i) + path_list[i:]
    if not rel_list: return curdir
    return join(*rel_list)
  \<close>
\<close>

definition relpath :: "string list \<Rightarrow> string \<Rightarrow> string \<Rightarrow> exn + string" where
  "relpath wd path start =
     (if path = [] then Inl (ValueError ''no path specified'')
      else let start_list = abspath wd start;
               path_list = abspath wd path;
               i = length (commonprefix start_list path_list);
               rel_list = replicate (length start_list - i) ''..'' @ drop i path_list
           in if rel_list = [] then Inr ''.'' else Inr (join_sep rel_list))"


text \<open>The idiom \<open>if not os.path.exists(d): os.makedirs(d)\<close>, which the scripts use
  three times.\<close>

definition makedirs_if_missing :: "string \<Rightarrow> world \<Rightarrow> (exn + unit) \<times> world" where
  "makedirs_if_missing d w = (if \<not> os_path_exists w d then os_makedirs d w else (Inr (), w))"

section \<open>\<open>split_video_audio.py\<close>\<close>

text \<open>
  \<open>split_video_audio(input_file, output_dir=None)\<close>. The optional argument is a
  \<^typ>\<open>string option\<close>; \<open>if not output_dir\<close> is true of \<open>None\<close> and of the empty string.
  The result is the pair of output paths, or the exception that left the function.
\<close>

definition output_dir_or_default :: "string \<Rightarrow> string option \<Rightarrow> string" where
  "output_dir_or_default input_file output_dir =
     (case output_dir of
        None \<Rightarrow> fst (path_split input_file)
      | Some d \<Rightarrow> if d = [] then fst (path_split input_file) else d)"

definition video_cmd :: "string \<Rightarrow> string \<Rightarrow> string list" where
  "video_cmd input_file video_output =
     [''ffmpeg'', ''-i'', input_file, ''-c:v'', ''copy'', ''-an'', video_output]"

definition audio_cmd :: "string \<Rightarrow> string \<Rightarrow> string list" where
  "audio_cmd input_file audio_output =
     [''ffmpeg'', ''-i'', input_file, ''-vn'', ''-acodec'', ''pcm_s16le'', audio_output]"

text \<open>The lines 48 to 55, once the two output paths are known: print, run, print, run,
  print, return.\<close>

definition run_extraction ::
  "collaborators \<Rightarrow> string \<Rightarrow> string \<Rightarrow> string \<Rightarrow> world \<Rightarrow> (exn + string \<times> string) \<times> world" where
  "run_extraction env input_file video_output audio_output w =
     (case print (ExtractingVideo video_output) w of
        (Inl e, w1) \<Rightarrow> (Inl e, w1)
      | (Inr u, w1) \<Rightarrow>
          (case subprocess_run_check env (video_cmd input_file video_output) w1 of
             (Inl e, w2) \<Rightarrow> (Inl e, w2)
           | (Inr u, w2) \<Rightarrow>
               (case print (ExtractingAudio audio_output) w2 of
                  (Inl e, w3) \<Rightarrow> (Inl e, w3)
                | (Inr u, w3) \<Rightarrow>
                    (case subprocess_run_check env (audio_cmd input_file audio_output) w3 of
                       (Inl e, w4) \<Rightarrow> (Inl e, w4)
                     | (Inr u, w4) \<Rightarrow>
                         (case print ExtractionComplete w4 of
                            (Inl e, w5) \<Rightarrow> (Inl e, w5)
                          | (Inr u, w5) \<Rightarrow> (Inr (video_output, audio_output), w5))))))"

definition split_video_audio ::
  "collaborators \<Rightarrow> string \<Rightarrow> string option \<Rightarrow> world \<Rightarrow> (exn + string \<times> string) \<times> world" where
  "split_video_audio env input_file output_dir_arg w =
     (if \<not> os_path_exists w input_file
      then (Inl (FileNotFoundError (''Input file not found: '' @ input_file)), w)
      else
        let input_filename = snd (path_split input_file);
            filename_without_ext = fst (splitext input_filename);
            output_dir = output_dir_or_default input_file output_dir_arg
        in case makedirs_if_missing output_dir w of
             (Inl e, w1) \<Rightarrow> (Inl e, w1)
           | (Inr u, w1) \<Rightarrow>
               run_extraction env input_file
                 (path_join output_dir (filename_without_ext @ ''_video.mp4''))
                 (path_join output_dir (filename_without_ext @ ''_audio.wav'')) w1)"

text \<open>
  \<open>process_directory_recursively(input_dir, output_base_dir)\<close>. What \<open>os.walk(input_dir)\<close>
  yields is a parameter: the list of its \<open>(root, dirs, files)\<close> triples, in the order
  of the walk. \<open>split_try\<close> is the body of the \<open>try\<close>, which gives the new value of
  \<open>processed_count\<close>; \<open>split_files\<close> is the inner loop over \<open>files\<close>, with the handler of
  the \<open>try\<close>, whose own \<open>print\<close> is not guarded; \<open>split_walk\<close> is the outer loop.
  \<open>os.path.relpath\<close> is outside the \<open>try\<close>.
\<close>

type_synonym walk = "(string \<times> string list \<times> string list) list"

definition mirror_dir :: "string \<Rightarrow> string \<Rightarrow> string" where
  "mirror_dir output_dir rel_path =
     (if rel_path = ''.'' then output_dir else path_join output_dir rel_path)"

definition split_try ::
  "collaborators \<Rightarrow> string \<Rightarrow> string \<Rightarrow> nat \<Rightarrow> world \<Rightarrow> (exn + nat) \<times> world" where
  "split_try env input_file current_output_dir processed_count w =
     (case split_video_audio env input_file (Some current_output_dir) w of
        (Inl e, w1) \<Rightarrow> (Inl e, w1)
      | (Inr outputs, w1) \<Rightarrow>
          (case print (Processed input_file) w1 of
             (Inl e, w2) \<Rightarrow> (Inl e, w2)
           | (Inr u, w2) \<Rightarrow> (Inr (processed_count + 1), w2)))"

fun split_files ::
  "collaborators \<Rightarrow> string \<Rightarrow> string \<Rightarrow> string list \<Rightarrow> nat \<Rightarrow> world \<Rightarrow> (exn + nat) \<times> world" where
  "split_files env root current_output_dir [] processed_count w = (Inr processed_count, w)"
| "split_files env root current_output_dir (file # files) processed_count w =
     (if endswith (lower file) ''.mp4'' then
        (case split_try env (path_join root file) current_output_dir processed_count w of
           (Inr n, w1) \<Rightarrow> split_files env root current_output_dir files n w1
         | (Inl e, w1) \<Rightarrow>
             (case print (ErrorProcessing (path_join root file) e) w1 of
                (Inl e', w2) \<Rightarrow> (Inl e', w2)
              | (Inr u, w2) \<Rightarrow>
                  split_files env root current_output_dir files processed_count w2))
      else split_files env root current_output_dir files processed_count w)"

fun split_walk ::
  "collaborators \<Rightarrow> string \<Rightarrow> string \<Rightarrow> walk \<Rightarrow> nat \<Rightarrow> world \<Rightarrow> (exn + nat) \<times> world" where
  "split_walk env input_dir output_base_dir [] processed_count w = (Inr processed_count, w)"
| "split_walk env input_dir output_base_dir ((root, dirs, files) # rest) processed_count w =
     (case relpath (cwd w) root input_dir of
        Inl e \<Rightarrow> (Inl e, w)
      | Inr rel_path \<Rightarrow>
          (case split_files env root (mirror_dir output_base_dir rel_path) files
                  processed_count w of
             (Inl e, w1) \<Rightarrow> (Inl e, w1)
           | (Inr n, w1) \<Rightarrow> split_walk env input_dir output_base_dir rest n w1))"

definition process_directory_recursively ::
  "collaborators \<Rightarrow> walk \<Rightarrow> string \<Rightarrow> string \<Rightarrow> world \<Rightarrow> (exn + nat) \<times> world" where
  "process_directory_recursively env os_walk input_dir output_base_dir w =
     split_walk env input_dir output_base_dir os_walk 0 w"

section \<open>\<open>audio_transcription.py\<close>\<close>

text \<open>
  \<open>transcribe_audio_with_whisper(audio_file, language="en")\<close>. The first \<open>print\<close> is
  before the \<open>try\<close>; \<open>transcribe_try\<close> is the body of the \<open>try\<close>, and the function turns
  an exception of that body into the message and the empty string. The \<open>print\<close> of the
  handler is not guarded either.
\<close>

definition transcribe_try ::
  "collaborators \<Rightarrow> string \<Rightarrow> string \<Rightarrow> world \<Rightarrow> (exn + string) \<times> world" where
  "transcribe_try env audio_file language w =
     (if \<not> os_path_exists w audio_file then
        (case print (AudioNotFound audio_file) w of
           (Inl e, w1) \<Rightarrow> (Inl e, w1)
         | (Inr u, w1) \<Rightarrow> (Inr [], w1))
      else
        (case print LoadingModel w of
           (Inl e, w1) \<Rightarrow> (Inl e, w1)
         | (Inr u, w1) \<Rightarrow>
             (case whisper_load_model env ''tiny'' w1 of
                (Inl e, w2) \<Rightarrow> (Inl e, w2)
              | (Inr model, w2) \<Rightarrow>
                  (case print (Transcribing audio_file) w2 of
                     (Inl e, w3) \<Rightarrow> (Inl e, w3)
                   | (Inr u, w3) \<Rightarrow>
                       (case model_transcribe env audio_file language w3 of
                          (Inl e, w4) \<Rightarrow> (Inl e, w4)
                        | (Inr transcription, w4) \<Rightarrow>
                            (case print (TranscriptionSuccessful (take 50 transcription)) w4 of
                               (Inl e, w5) \<Rightarrow> (Inl e, w5)
                             | (Inr u, w5) \<Rightarrow> (Inr transcription, w5)))))))"

definition transcribe_audio_with_whisper ::
  "collaborators \<Rightarrow> string \<Rightarrow> string \<Rightarrow> world \<Rightarrow> (exn + string) \<times> world" where
  "transcribe_audio_with_whisper env audio_file language w =
     (case print (Processing audio_file) w of
        (Inl e, w0) \<Rightarrow> (Inl e, w0)
      | (Inr u, w0) \<Rightarrow>
          (case transcribe_try env audio_file language w0 of
             (Inl e, w1) \<Rightarrow>
               (case print (UnexpectedError e) w1 of
                  (Inl e', w2) \<Rightarrow> (Inl e', w2)
                | (Inr u, w2) \<Rightarrow> (Inr [], w2))
           | (Inr transcription, w1) \<Rightarrow> (Inr transcription, w1)))"

text \<open>The first loop of \<open>process_audio_directory\<close>: the files the walk lists whose lowered
  name ends with one of the four suffixes, each with its \<open>root\<close>.\<close>

definition audio_suffixes :: "string list" where
  "audio_suffixes = [''_audio.wav'', ''.mp3'', ''.aac'', ''.flac'']"

definition find_audio_files :: "walk \<Rightarrow> (string \<times> string) list" where
  "find_audio_files os_walk =
     concat (map (\<lambda>(root, dirs, files).
                    map (\<lambda>file. (root, file))
                      (filter (\<lambda>file. endswith_any (lower file) audio_suffixes) files))
                 os_walk)"

text \<open>
  The body of the second loop, for one \<open>(root, file)\<close>: the new value of
  \<open>processed_count\<close>, or the exception that leaves the loop (from \<open>os.path.relpath\<close> or
  \<open>os.makedirs\<close>, which are outside the \<open>try\<close>, or from the \<open>print\<close> of the handler).
  \<open>transcribe_persist\<close> is the body of the \<open>try\<close>; the call passes no language, so the
  default \<open>"en"\<close> is used.
\<close>

definition transcribe_persist ::
  "collaborators \<Rightarrow> string \<Rightarrow> string \<Rightarrow> string \<Rightarrow> string \<Rightarrow> nat \<Rightarrow> world
     \<Rightarrow> (exn + nat) \<times> world" where
  "transcribe_persist env input_file current_output_dir filename_without_ext output_file
       processed_count w =
     (if os_path_exists w output_file
      then (case print (Skipping input_file) w of
              (Inl e, w1) \<Rightarrow> (Inl e, w1)
            | (Inr u, w1) \<Rightarrow> (Inr (processed_count + 1), w1))
      else case transcribe_audio_with_whisper env input_file ''en'' w of
             (Inl e, w1) \<Rightarrow> (Inl e, w1)
           | (Inr transcription, w1) \<Rightarrow>
               if transcription \<noteq> [] then
                 (case open_write output_file (Text transcription) w1 of
                    (Inl e, w2) \<Rightarrow> (Inl e, w2)
                  | (Inr u, w2) \<Rightarrow>
                      (case open_write
                              (path_join current_output_dir (filename_without_ext @ ''.json''))
                              (Json [(''audio_file'', input_file),
                                     (''transcription'', transcription),
                                     (''language'', ''en'')]) w2 of
                         (Inl e, w3) \<Rightarrow> (Inl e, w3)
                       | (Inr u, w3) \<Rightarrow> (Inr (processed_count + 1), w3)))
               else (Inr processed_count, w1))"

definition transcribe_body ::
  "collaborators \<Rightarrow> string \<Rightarrow> string \<Rightarrow> string \<times> string \<Rightarrow> nat \<Rightarrow> world
     \<Rightarrow> (exn + nat) \<times> world" where
  "transcribe_body env input_dir output_dir root_file processed_count w =
     (case relpath (cwd w) (fst root_file) input_dir of
        Inl e \<Rightarrow> (Inl e, w)
      | Inr rel_path \<Rightarrow>
          (let current_output_dir = mirror_dir output_dir rel_path
           in (case makedirs_if_missing current_output_dir w of
                 (Inl e, w1) \<Rightarrow> (Inl e, w1)
               | (Inr u, w1) \<Rightarrow>
                   (let input_file = path_join (fst root_file) (snd root_file);
                        filename_without_ext = fst (splitext (snd root_file));
                        output_file =
                          path_join current_output_dir (filename_without_ext @ ''.txt'')
                    in (case transcribe_persist env input_file current_output_dir
                              filename_without_ext output_file processed_count w1 of
                          (Inl e, w2) \<Rightarrow>
                            (case print (ErrorProcessing input_file e) w2 of
                               (Inl e', w3) \<Rightarrow> (Inl e', w3)
                             | (Inr u, w3) \<Rightarrow> (Inr processed_count, w3))
                        | (Inr n, w2) \<Rightarrow> (Inr n, w2))))))"

fun transcribe_loop ::
  "collaborators \<Rightarrow> string \<Rightarrow> string \<Rightarrow> (string \<times> string) list \<Rightarrow> nat \<Rightarrow> world
     \<Rightarrow> (exn + nat) \<times> world" where
  "transcribe_loop env input_dir output_dir [] processed_count w = (Inr processed_count, w)"
| "transcribe_loop env input_dir output_dir (root_file # rest) processed_count w =
     (case transcribe_body env input_dir output_dir root_file processed_count w of
        (Inl e, w1) \<Rightarrow> (Inl e, w1)
      | (Inr n, w1) \<Rightarrow> transcribe_loop env input_dir output_dir rest n w1)"

text \<open>\<open>process_audio_directory(input_dir, output_dir)\<close>, again with what
  \<open>os.walk(input_dir)\<close> yields as a parameter. The progress bar of \<open>tqdm\<close> only iterates.\<close>

definition process_audio_directory ::
  "collaborators \<Rightarrow> walk \<Rightarrow> string \<Rightarrow> string \<Rightarrow> world \<Rightarrow> (exn + nat) \<times> world" where
  "process_audio_directory env os_walk input_dir output_dir w =
     (case makedirs_if_missing output_dir w of
        (Inl e, w1) \<Rightarrow> (Inl e, w1)
      | (Inr u, w1) \<Rightarrow>
          (case print (FoundAudioFiles (length (find_audio_files os_walk))) w1 of
             (Inl e, w2) \<Rightarrow> (Inl e, w2)
           | (Inr u, w2) \<Rightarrow>
               transcribe_loop env input_dir output_dir (find_audio_files os_walk) 0 w2))"

section \<open>Selection and reports\<close>

text \<open>
  The selection of files in the words of the specification: a file is selected by the
  split job when its lowered name ends with \<open>.mp4\<close>, by the transcribe job when it ends
  with one of \<open>_audio.wav\<close>, \<open>.mp3\<close>, \<open>.aac\<close>, \<open>.flac\<close>; the selected paths of a walk, in
  its order.
\<close>

definition is_video_name :: "string \<Rightarrow> bool" where
  "is_video_name file = endswith (lower file) ''.mp4''"

definition is_audio_name :: "string \<Rightarrow> bool" where
  "is_audio_name file =
     (endswith (lower file) ''_audio.wav'' \<or> endswith (lower file) ''.mp3'' \<or>
      endswith (lower file) ''.aac'' \<or> endswith (lower file) ''.flac'')"

definition selected_videos :: "walk \<Rightarrow> string list" where
  "selected_videos os_walk =
     concat (map (\<lambda>(root, dirs, files). map (path_join root) (filter is_video_name files))
                 os_walk)"

definition selected_audio :: "walk \<Rightarrow> string list" where
  "selected_audio os_walk =
     concat (map (\<lambda>(root, dirs, files). map (path_join root) (filter is_audio_name files))
                 os_walk)"

text \<open>
  What a run has done is read from what it printed. The split job prints \<open>Processed\<close> or
  \<open>Error processing\<close> for each file it attends to; the transcribe job prints \<open>Skipping\<close>
  or, through the transcribe operation, \<open>Processing\<close>. A file that is not counted leaves
  one of the messages of \<open>is_failure\<close>: an error of the loop, a missing file, an exception
  of the collaborator, or an empty transcription.
\<close>

fun split_report :: "msg \<Rightarrow> string list" where
  "split_report (Processed f) = [f]"
| "split_report (ErrorProcessing f e) = [f]"
| "split_report m = []"

definition attempted :: "msg list \<Rightarrow> string list" where
  "attempted msgs = concat (map split_report msgs)"

fun visit_report :: "msg \<Rightarrow> string list" where
  "visit_report (Processing f) = [f]"
| "visit_report (Skipping f) = [f]"
| "visit_report m = []"

definition visited :: "msg list \<Rightarrow> string list" where
  "visited msgs = concat (map visit_report msgs)"

fun is_success :: "msg \<Rightarrow> bool" where
  "is_success (Processed f) = True"
| "is_success m = False"

fun is_failure :: "msg \<Rightarrow> bool" where
  "is_failure (ErrorProcessing f e) = True"
| "is_failure (AudioNotFound f) = True"
| "is_failure (UnexpectedError e) = True"
| "is_failure (TranscriptionSuccessful t) = (t = [])"
| "is_failure m = False"

definition successes :: "msg list \<Rightarrow> nat" where
  "successes msgs = length (filter is_success msgs)"

definition failures :: "msg list \<Rightarrow> nat" where
  "failures msgs = length (filter is_failure msgs)"

text \<open>
  \<open>has_mirror input_dir output_dir w root\<close>: the output directory that the jobs compute
  for the input directory \<open>root\<close> exists in the world \<open>w\<close>.
\<close>

definition has_mirror :: "string \<Rightarrow> string \<Rightarrow> world \<Rightarrow> string \<Rightarrow> bool" where
  "has_mirror input_dir output_dir w root =
     (case relpath (cwd w) root input_dir of
        Inl e \<Rightarrow> False
      | Inr rel_path \<Rightarrow> os_path_exists w (mirror_dir output_dir rel_path))"

section \<open>Growth of the file system\<close>

text \<open>
  \<open>extends t t'\<close>: every node of \<open>t\<close> is still there in \<open>t'\<close>, a directory is still a
  directory and a file is still a file (its content may have changed). The scripts never
  delete anything, so each of their steps extends the file system; it is also what is
  asked of a well-behaved demux tool.
\<close>

definition extends :: "files \<Rightarrow> files \<Rightarrow> bool" where
  "extends t t' =
     (\<forall>k. (t k = Some Dir \<longrightarrow> t' k = Some Dir) \<and>
          (\<forall>x. t k = Some (File x) \<longrightarrow> (\<exists>y. t' k = Some (File y))))"

definition demux_keeps_files :: "collaborators \<Rightarrow> bool" where
  "demux_keeps_files env = (\<forall>cmd wd t. extends t (snd (run_process env cmd wd t)))"

text \<open>
  \<open>demux_errors_printable env\<close>: the text of every exception that starting the demux tool
  raises can be encoded, as it is for the errors of the operating system that
  \<open>subprocess.run\<close> raises.
\<close>

definition demux_errors_printable :: "collaborators \<Rightarrow> bool" where
  "demux_errors_printable env =
     (\<forall>cmd wd t e. fst (run_process env cmd wd t) = Inl e \<longrightarrow> encodable (exn_text e))"

text \<open>\<open>no_report ms\<close>: none of the lines \<open>ms\<close> reports a file as processed or failed.\<close>

definition no_report :: "msg list \<Rightarrow> bool" where
  "no_report ms = (attempted ms = [] \<and> filter is_success ms = [] \<and> failures ms = 0)"


section \<open>The text of a sidecar\<close>

text \<open>
  \<open>json.dump(obj, f, indent=2)\<close> for a dictionary of strings. The encoder is called with
  its default \<open>ensure_ascii=True\<close>. In a string it writes a backslash before the double
  quote and before the backslash; a backslash and one of the letters \<open>n\<close>, \<open>r\<close>, \<open>t\<close>,
  \<open>b\<close>, \<open>f\<close> for the line feed, the carriage return, the tab, the backspace and the form
  feed; a backslash and \<open>u00XX\<close> for any other character that is not between the space and
  \<open>~\<close>; a backslash and \<open>udcXX\<close> for the lone surrogate that a character from 128 on
  stands for.
\<close>

definition hex_digit :: "nat \<Rightarrow> char" where
  "hex_digit n = ''0123456789abcdef'' ! n"

definition hex2 :: "char \<Rightarrow> string" where
  "hex2 c = [hex_digit (of_char c div 16), hex_digit (of_char c mod 16)]"

definition json_escape :: "char \<Rightarrow> string" where
  "json_escape c =
     (if c = CHR 0x22 then [CHR 0x5C, CHR 0x22]
      else if c = CHR 0x5C then [CHR 0x5C, CHR 0x5C]
      else if c = CHR 0x0A then [CHR 0x5C, CHR ''n'']
      else if c = CHR 0x0D then [CHR 0x5C, CHR ''r'']
      else if c = CHR 0x09 then [CHR 0x5C, CHR ''t'']
      else if c = CHR 0x08 then [CHR 0x5C, CHR ''b'']
      else if c = CHR 0x0C then [CHR 0x5C, CHR ''f'']
      else if digit7 c then CHR 0x5C # ''udc'' @ hex2 c
      else if of_char c < (32::nat) \<or> c = CHR 0x7F then CHR 0x5C # ''u00'' @ hex2 c
      else [c])"

definition json_string :: "string \<Rightarrow> string" where
  "json_string s = CHR 0x22 # concat (map json_escape s) @ [CHR 0x22]"

text \<open>
  With \<open>indent=2\<close> each item is on a line of its own, two spaces in, the items are
  separated by a comma at the end of the line, a key and its value by \<open>: \<close>, and the
  closing brace is on the last line. The empty dictionary is \<open>{}\<close>.
\<close>

fun json_items :: "(string \<times> string) list \<Rightarrow> string" where
  "json_items [] = []"
| "json_items [(k, v)] = json_string k @ '': '' @ json_string v"
| "json_items ((k, v) # kv # kvs) =
     json_string k @ '': '' @ json_string v @ '','' @ [CHR 0x0A] @ ''  '' @ json_items (kv # kvs)"

definition json_dumps :: "(string \<times> string) list \<Rightarrow> string" where
  "json_dumps obj =
     (if obj = [] then ''{}''
      else ''{'' @ [CHR 0x0A] @ ''  '' @ json_items obj @ [CHR 0x0A] @ ''}'')"

text \<open>
  The text a file holds, when it holds text: what \<open>f.write\<close> was given, or what
  \<open>json.dump\<close> wrote.
\<close>

fun file_text :: "content \<Rightarrow> string option" where
  "file_text (Text t) = Some t"
| "file_text (Json obj) = Some (json_dumps obj)"
| "file_text Media = None"

text \<open>
  Reading it back: the part of \<open>json.loads\<close> that reads a dictionary of strings. In a
  string, a backslash and \<open>uXXXX\<close> give the character with that code (of the characters
  of the model: below 128, or a lone surrogate from \<open>U+DC80\<close> to \<open>U+DCFF\<close>), a
  backslash and a double quote, a backslash, a slash or one of the letters \<open>b\<close>, \<open>f\<close>,
  \<open>n\<close>, \<open>r\<close>, \<open>t\<close> give the character that stands for; a control character is refused.
  \<open>json_chars s\<close> reads a string after its opening quote, and gives the string and what
  follows its closing quote. \<open>None\<close> is the error \<open>JSONDecodeError\<close>, or a value
  that is not a dictionary of strings.
\<close>

definition hex_value :: "char \<Rightarrow> nat option" where
  "hex_value c = map_of (zip ''0123456789abcdefABCDEF'' ([0 ..< 16] @ [10 ..< 16])) c"

definition json_code_point :: "char \<Rightarrow> char \<Rightarrow> char \<Rightarrow> char \<Rightarrow> char option" where
  "json_code_point h1 h2 h3 h4 =
     (case (hex_value h1, hex_value h2, hex_value h3, hex_value h4) of
        (Some a, Some b, Some c, Some d) \<Rightarrow>
          (let n = ((a * 16 + b) * 16 + c) * 16 + d
           in if n < 128 then Some (char_of n)
              else if 56448 \<le> n \<and> n \<le> 56575 then Some (char_of (n - 56320))
              else None)
      | _ \<Rightarrow> None)"

definition json_simple_escape :: "char \<Rightarrow> char option" where
  "json_simple_escape e =
     map_of [(CHR 0x22, CHR 0x22), (CHR 0x5C, CHR 0x5C), (CHR ''/'', CHR ''/''),
             (CHR ''b'', CHR 0x08), (CHR ''f'', CHR 0x0C), (CHR ''n'', CHR 0x0A),
             (CHR ''r'', CHR 0x0D), (CHR ''t'', CHR 0x09)] e"

fun json_chars :: "string \<Rightarrow> (string \<times> string) option" where
  "json_chars [] = None"
| "json_chars (c # cs) =
     (if c = CHR 0x22 then Some ([], cs)
      else if c = CHR 0x5C then
        (case cs of
           [] \<Rightarrow> None
         | e # r \<Rightarrow>
             if e = CHR ''u'' then
               (case r of
                  h1 # h2 # h3 # h4 # r' \<Rightarrow>
                    (case json_code_point h1 h2 h3 h4 of
                       None \<Rightarrow> None
                     | Some ch \<Rightarrow>
                         (case json_chars r' of
                            None \<Rightarrow> None
                          | Some (s, rest) \<Rightarrow> Some (ch # s, rest)))
                | _ \<Rightarrow> None)
             else
               (case json_simple_escape e of
                  None \<Rightarrow> None
                | Some ch \<Rightarrow>
                    (case json_chars r of
                       None \<Rightarrow> None
                     | Some (s, rest) \<Rightarrow> Some (ch # s, rest))))
      else if of_char c < (32::nat) then None
      else (case json_chars cs of
              None \<Rightarrow> None
            | Some (s, rest) \<Rightarrow> Some (c # s, rest)))"

text \<open>
  White space may stand around every token. \<open>set_item k v d\<close> is \<open>d[k] = v\<close>: a key that
  comes twice keeps its place and takes the later value. \<open>json_members n d s\<close> reads the
  items of a dictionary up to its closing brace; \<open>n\<close> bounds their number, and the length
  of the text is such a bound.
\<close>

definition json_space :: "char \<Rightarrow> bool" where
  "json_space c = (c \<in> set [CHR '' '', CHR 0x09, CHR 0x0A, CHR 0x0D])"

definition json_ws :: "string \<Rightarrow> string" where
  "json_ws s = dropWhile json_space s"

fun set_item :: "string \<Rightarrow> string \<Rightarrow> (string \<times> string) list \<Rightarrow> (string \<times> string) list" where
  "set_item k v [] = [(k, v)]"
| "set_item k v ((k', v') # kvs) =
     (if k' = k then (k, v) # kvs else (k', v') # set_item k v kvs)"

fun json_members ::
  "nat \<Rightarrow> (string \<times> string) list \<Rightarrow> string \<Rightarrow> ((string \<times> string) list \<times> string) option" where
  "json_members 0 acc s = None"
| "json_members (Suc n) acc s =
     (case s of
        [] \<Rightarrow> None
      | c # s1 \<Rightarrow>
          if c \<noteq> CHR 0x22 then None
          else
            (case json_chars s1 of
               None \<Rightarrow> None
             | Some (k, s2) \<Rightarrow>
                 (case json_ws s2 of
                    [] \<Rightarrow> None
                  | c2 # s3 \<Rightarrow>
                      if c2 \<noteq> CHR '':'' then None
                      else
                        (case json_ws s3 of
                           [] \<Rightarrow> None
                         | c3 # s4 \<Rightarrow>
                             if c3 \<noteq> CHR 0x22 then None
                             else
                               (case json_chars s4 of
                                  None \<Rightarrow> None
                                | Some (v, s5) \<Rightarrow>
                                    (case json_ws s5 of
                                       [] \<Rightarrow> None
                                     | c5 # s6 \<Rightarrow>
                                         if c5 = CHR ''}'' then Some (set_item k v acc, s6)
                                         else if c5 = CHR '',''
                                           then json_members n (set_item k v acc) (json_ws s6)
                                         else None))))))"

definition json_loads :: "string \<Rightarrow> (string \<times> string) list option" where
  "json_loads s =
     (case json_ws s of
        [] \<Rightarrow> None
      | c # s1 \<Rightarrow>
          if c \<noteq> CHR ''{'' then None
          else
            (case json_ws s1 of
               [] \<Rightarrow> None
             | c1 # s2 \<Rightarrow>
                 if c1 = CHR ''}'' then (if json_ws s2 = [] then Some [] else None)
                 else
                   (case json_members (length s) [] (c1 # s2) of
                      None \<Rightarrow> None
                    | Some (obj, rest) \<Rightarrow> if json_ws rest = [] then Some obj else None)))"

text \<open>\<open>with open(p) as f: json.load(f)\<close>, \<open>None\<close> when it raises.\<close>

definition json_load :: "world \<Rightarrow> string \<Rightarrow> (string \<times> string) list option" where
  "json_load w p =
     (case read_file w p of
        None \<Rightarrow> None
      | Some data \<Rightarrow> (case file_text data of None \<Rightarrow> None | Some s \<Rightarrow> json_loads s))"

section \<open>Example inputs\<close>

text \<open>
  A small input tree used to run the model on concrete inputs: the process runs in the
  root directory; \<open>in\<close> holds two audio files, one video, a file that is selected by
  neither job, and an empty subdirectory \<open>in/d\<close>; \<open>in/sub\<close> holds one more audio file
  and one more video.
\<close>

definition ex_fs :: files where
  "ex_fs =
     [[''in''] \<mapsto> Dir,
      [''in'', ''a.mp3''] \<mapsto> File Media,
      [''in'', ''b.mp3''] \<mapsto> File Media,
      [''in'', ''VIDEO.MP4''] \<mapsto> File Media,
      [''in'', ''notes.doc''] \<mapsto> File Media,
      [''in'', ''d''] \<mapsto> Dir,
      [''in'', ''sub''] \<mapsto> Dir,
      [''in'', ''sub'', ''clip_audio.wav''] \<mapsto> File Media,
      [''in'', ''sub'', ''talk.mp4''] \<mapsto> File Media]"

definition ex_world :: world where
  "ex_world = \<lparr>cwd = [], fs = ex_fs, stdout = [], calls = []\<rparr>"

definition ex_walk :: walk where
  "ex_walk =
     [(''in'', [''d'', ''sub''], [''a.mp3'', ''b.mp3'', ''VIDEO.MP4'', ''notes.doc'']),
      (''in/d'', [], []),
      (''in/sub'', [], [''clip_audio.wav'', ''talk.mp4''])]"

text \<open>Collaborators that succeed: every audio file says \<open>hello world\<close>, and the demux
  tool writes the file named last on its command line (it exits with code 1 when that
  name is a directory).\<close>

definition ex_ffmpeg :: "string list \<Rightarrow> string list \<Rightarrow> files \<Rightarrow> (exn + int) \<times> files" where
  "ex_ffmpeg cmd wd t =
     (if t (abspath wd (last cmd)) = Some Dir then (Inr 1, t)
      else (Inr 0, t(abspath wd (last cmd) \<mapsto> File Media)))"

definition ex_env :: collaborators where
  "ex_env =
     \<lparr>load_model = (\<lambda>name. None),
      transcribe = (\<lambda>audio_file language. Inr ''hello world''),
      run_process = ex_ffmpeg\<rparr>"

text \<open>Collaborators that fail on one file: inference raises on \<open>in/b.mp3\<close>, and the demux
  tool exits with code 1 on every command that reads \<open>in/VIDEO.MP4\<close>.\<close>

definition ex_env_bad :: collaborators where
  "ex_env_bad =
     \<lparr>load_model = (\<lambda>name. None),
      transcribe = (\<lambda>audio_file language.
         if audio_file = ''in/b.mp3'' then Inl (OtherException ''cannot decode'')
         else Inr ''hello world''),
      run_process = (\<lambda>cmd wd t. if ''in/VIDEO.MP4'' \<in> set cmd then (Inr 1, t) else ex_ffmpeg cmd wd t)\<rparr>"

text \<open>A model that cannot be loaded.\<close>

definition ex_env_noload :: collaborators where
  "ex_env_noload =
     \<lparr>load_model = (\<lambda>name. Some (OtherException ''download failed'')),
      transcribe = (\<lambda>audio_file language. Inr ''hello world''),
      run_process = ex_ffmpeg\<rparr>"

text \<open>The example world once the output root \<open>out\<close> exists, and the same with a directory
  in the place of the sidecar of \<open>in/a.mp3\<close>.\<close>

definition ex_world_out :: world where
  "ex_world_out = ex_world\<lparr>fs := ex_fs([''out''] \<mapsto> Dir)\<rparr>"

definition ex_world_blocked :: world where
  "ex_world_blocked =
     ex_world\<lparr>fs := ex_fs([''out''] \<mapsto> Dir, [''out'', ''a.json''] \<mapsto> Dir)\<rparr>"

text \<open>The world after the transcribe job has run from \<open>ex_world\<close> with the collaborators
  that fail on \<open>in/b.mp3\<close>, the output root being \<open>out\<close>.\<close>

definition ex_bad_final :: world where
  "ex_bad_final =
     \<lparr>cwd = [],
      fs = ex_fs([''out''] \<mapsto> Dir,
                 [''out'', ''a.txt''] \<mapsto> File (Text ''hello world''),
                 [''out'', ''a.json''] \<mapsto>
                   File (Json [(''audio_file'', ''in/a.mp3''), (''transcription'', ''hello world''),
                               (''language'', ''en'')]),
                 [''out'', ''sub''] \<mapsto> Dir,
                 [''out'', ''sub'', ''clip_audio.txt''] \<mapsto> File (Text ''hello world''),
                 [''out'', ''sub'', ''clip_audio.json''] \<mapsto>
                   File (Json [(''audio_file'', ''in/sub/clip_audio.wav''),
                               (''transcription'', ''hello world''), (''language'', ''en'')])),
      stdout =
        [FoundAudioFiles 3,
         Processing ''in/a.mp3'', LoadingModel, Transcribing ''in/a.mp3'',
         TranscriptionSuccessful ''hello world'',
         Processing ''in/b.mp3'', LoadingModel, Transcribing ''in/b.mp3'',
         UnexpectedError (OtherException ''cannot decode''),
         Processing ''in/sub/clip_audio.wav'', LoadingModel,
         Transcribing ''in/sub/clip_audio.wav'', TranscriptionSuccessful ''hello world''],
      calls =
        [LoadModel ''tiny'', Transcribe ''in/a.mp3'' ''en'',
         LoadModel ''tiny'', Transcribe ''in/b.mp3'' ''en'',
         LoadModel ''tiny'', Transcribe ''in/sub/clip_audio.wav'' ''en'']\<rparr>"


text \<open>The world after the split job has run from \<open>ex_world\<close> with the demux tool that
  fails on \<open>in/VIDEO.MP4\<close>, the output root being \<open>out\<close>.\<close>

definition ex_bad_split_final :: world where
  "ex_bad_split_final =
     \<lparr>cwd = [],
      fs = ex_fs([''out''] \<mapsto> Dir,
                 [''out'', ''sub''] \<mapsto> Dir,
                 [''out'', ''sub'', ''talk_video.mp4''] \<mapsto> File Media,
                 [''out'', ''sub'', ''talk_audio.wav''] \<mapsto> File Media),
      stdout =
        [ExtractingVideo ''out/VIDEO_video.mp4'',
         ErrorProcessing ''in/VIDEO.MP4''
           (CalledProcessError 1
              [''ffmpeg'', ''-i'', ''in/VIDEO.MP4'', ''-c:v'', ''copy'', ''-an'',
               ''out/VIDEO_video.mp4'']),
         ExtractingVideo ''out/sub/talk_video.mp4'',
         ExtractingAudio ''out/sub/talk_audio.wav'',
         ExtractionComplete,
         Processed ''in/sub/talk.mp4''],
      calls =
        [Run [''ffmpeg'', ''-i'', ''in/VIDEO.MP4'', ''-c:v'', ''copy'', ''-an'',
              ''out/VIDEO_video.mp4''],
         Run [''ffmpeg'', ''-i'', ''in/sub/talk.mp4'', ''-c:v'', ''copy'', ''-an'',
              ''out/sub/talk_video.mp4''],
         Run [''ffmpeg'', ''-i'', ''in/sub/talk.mp4'', ''-vn'', ''-acodec'', ''pcm_s16le'',
              ''out/sub/talk_audio.wav'']]\<rparr>"


text \<open>A transcription that succeeds with no text: the collaborator returns the empty
  string for every file.\<close>

definition ex_env_silent :: collaborators where
  "ex_env_silent =
     \<lparr>load_model = (\<lambda>name. None),
      transcribe = (\<lambda>audio_file language. Inr []),
      run_process = ex_ffmpeg\<rparr>"

text \<open>A demux tool that exits with code 1 on every command.\<close>

definition ex_env_down :: collaborators where
  "ex_env_down =
     \<lparr>load_model = (\<lambda>name. None),
      transcribe = (\<lambda>audio_file language. Inr ''hello world''),
      run_process = (\<lambda>cmd wd t. (Inr 1, t))\<rparr>"

text \<open>
  Names that cannot be encoded: an audio file whose name is the byte \<open>0xFF\<close> followed by
  \<open>.mp3\<close>, and an input directory \<open>raw\<close> followed by the byte \<open>0xFF\<close>, which holds the
  videos \<open>v.mp4\<close> and \<open>w.mp4\<close>; \<open>os.walk\<close> hands such a name over with the lone surrogate
  \<open>U+DCFF\<close> in the place of the byte.
\<close>

definition ex_raw_audio :: string where
  "ex_raw_audio = ''in/'' @ [CHR 0xFF] @ ''.mp3''"

definition ex_raw_dir :: string where
  "ex_raw_dir = ''raw'' @ [CHR 0xFF]"

definition ex_world_raw :: world where
  "ex_world_raw =
     \<lparr>cwd = [],
      fs = [[ex_raw_dir] \<mapsto> Dir,
            [ex_raw_dir, ''v.mp4''] \<mapsto> File Media,
            [ex_raw_dir, ''w.mp4''] \<mapsto> File Media],
      stdout = [], calls = []\<rparr>"





section \<open>Basic facts\<close>

lemma pair_fst: "fst x = a \<Longrightarrow> x = (a, snd x)"
  by (cases x) simp

subsection \<open>Printing\<close>

lemma encodable_simps [simp]:
  "encodable []"
  "encodable (c # s) \<longleftrightarrow> \<not> digit7 c \<and> encodable s"
  "encodable (s @ s') \<longleftrightarrow> encodable s \<and> encodable s'"
  by (simp_all add: encodable_def)

lemma encodable_take: "encodable s \<Longrightarrow> encodable (take n s)"
  by (auto simp: encodable_def list_all_iff dest: in_set_takeD)

lemma emit_simps [simp]:
  "fs (emit m w) = fs w"
  "cwd (emit m w) = cwd w"
  "calls (emit m w) = calls w"
  "stdout (emit m w) = stdout w @ [m]"
  by (simp_all add: emit_def)

lemma print_ok: "printable m \<Longrightarrow> print m w = (Inr (), emit m w)"
  by (simp add: print_def)

lemma print_fails: "\<not> printable m \<Longrightarrow> print m w = (Inl (UnicodeEncodeError (msg_text m)), w)"
  by (simp add: print_def)

lemma print_result:
  obtains (printed) "printable m" "print m w = (Inr (), emit m w)"
  | (refused) "\<not> printable m" "print m w = (Inl (UnicodeEncodeError (msg_text m)), w)"
  by (cases "printable m") (simp_all add: print_def)

lemma print_Inr: "print m w = (Inr u, w') \<Longrightarrow> printable m \<and> w' = emit m w"
  by (auto simp: print_def split: if_splits)

lemma print_Inl: "print m w = (Inl e, w') \<Longrightarrow> \<not> printable m \<and> w' = w \<and> exn_text e = []"
  by (auto simp: print_def split: if_splits)

lemma print_frame [simp]:
  "fs (snd (print m w)) = fs w"
  "cwd (snd (print m w)) = cwd w"
  "calls (snd (print m w)) = calls w"
  by (simp_all add: print_def)

lemma printable_simps [simp]:
  "printable (Processing f) = encodable f"
  "printable (AudioNotFound f) = encodable f"
  "printable LoadingModel"
  "printable (Transcribing f) = encodable f"
  "printable (TranscriptionSuccessful t) = encodable t"
  "printable (UnexpectedError e) = encodable (exn_text e)"
  "printable (FoundAudioFiles n)"
  "printable (Skipping f) = encodable f"
  "printable (ErrorProcessing f e) = (encodable f \<and> encodable (exn_text e))"
  "printable (ExtractingVideo f) = encodable f"
  "printable (ExtractingAudio f) = encodable f"
  "printable ExtractionComplete"
  "printable (Processed f) = encodable f"
  by (simp_all add: printable_def)

lemma resolve_emit [simp]: "resolve (emit m w) p = resolve w p"
  by (simp add: resolve_def)

lemma os_path_exists_emit [simp]: "os_path_exists (emit m w) p = os_path_exists w p"
  by (simp add: os_path_exists_def)

lemmas fs_eval =
  os_path_exists_def resolve_def start_dir_def sep_def is_dir_def ex_world_def ex_fs_def

lemma os_makedirs_frame [simp]:
  "calls (snd (os_makedirs d w)) = calls w"
  "stdout (snd (os_makedirs d w)) = stdout w"
  "cwd (snd (os_makedirs d w)) = cwd w"
  by (simp_all add: os_makedirs_def split: prod.splits option.splits)

lemma makedirs_if_missing_frame [simp]:
  "calls (snd (makedirs_if_missing d w)) = calls w"
  "stdout (snd (makedirs_if_missing d w)) = stdout w"
  "cwd (snd (makedirs_if_missing d w)) = cwd w"
  by (simp_all add: makedirs_if_missing_def)

lemma makedirs_if_missing_empty:
  "fst (makedirs_if_missing [] w) = Inl (OSFileNotFoundError [])"
  by (simp add: makedirs_if_missing_def os_path_exists_def resolve_def os_makedirs_def)

lemma os_makedirs_error: "fst (os_makedirs d w) = Inl e \<Longrightarrow> exn_text e = []"
proof -
  have "\<And>t cur r t'. makedirs_from d t cur cs = (Some e', t') \<Longrightarrow> exn_text e' = []" for cs e'
  proof (induction cs)
    case Nil
    then show ?case by simp
  next
    case (Cons c cs)
    from Cons.prems Cons.IH show ?case
      by (auto split: if_splits option.splits node.splits)
  qed
  then show "fst (os_makedirs d w) = Inl e \<Longrightarrow> exn_text e = []"
    by (auto simp: os_makedirs_def split: if_splits prod.splits option.splits)
qed

lemma makedirs_if_missing_error: "fst (makedirs_if_missing d w) = Inl e \<Longrightarrow> exn_text e = []"
  by (auto simp: makedirs_if_missing_def split: if_splits dest: os_makedirs_error)

lemma subprocess_run_check_frame [simp]:
  "calls (snd (subprocess_run_check env cmd w)) = calls w @ [Run cmd]"
  "stdout (snd (subprocess_run_check env cmd w)) = stdout w"
  "cwd (snd (subprocess_run_check env cmd w)) = cwd w"
  by (simp_all add: subprocess_run_check_def Let_def split: sum.splits)

lemma os_path_exists_cong:
  "fs w' = fs w \<Longrightarrow> cwd w' = cwd w \<Longrightarrow> os_path_exists w' p = os_path_exists w p"
  by (simp add: os_path_exists_def resolve_def)

lemma makedirs_if_missing_present:
  "os_path_exists w d \<Longrightarrow> makedirs_if_missing d w = (Inr (), w)"
  by (simp add: makedirs_if_missing_def)

subsection \<open>File names\<close>

lemma take_length_takeWhile: "take (length (takeWhile P xs)) xs = takeWhile P xs"
  by (induction xs) auto

lemma length_takeWhile_stop:
  "x \<in> set xs \<Longrightarrow> \<not> P x \<Longrightarrow> length (takeWhile P xs) < length xs"
  by (induction xs) auto

lemma drop_after_last:
  "drop (length p - length (takeWhile P (rev p))) p = rev (takeWhile P (rev p))"
proof -
  have "length (takeWhile P (rev p)) \<le> length p"
    using length_takeWhile_le [of P "rev p"] by simp
  then have "drop (length p - length (takeWhile P (rev p))) p =
      rev (take (length (takeWhile P (rev p))) (rev p))"
    by (simp add: rev_take)
  then show ?thesis
    by (simp add: take_length_takeWhile)
qed

text \<open>The file name \<open>os.path.split\<close> returns is what follows the last separator.\<close>

lemma path_split_snd: "snd (path_split p) = rev (takeWhile (\<lambda>x. x \<noteq> sep) (rev p))"
proof (cases "sep \<in> set p")
  case True
  then have "length (takeWhile (\<lambda>x. x \<noteq> sep) (rev p)) < length p"
    using length_takeWhile_stop [of sep "rev p" "\<lambda>x. x \<noteq> sep"] by simp
  then have "nat (rfind p sep + 1) = length p - length (takeWhile (\<lambda>x. x \<noteq> sep) (rev p))"
    using True by (simp add: rfind_def)
  then show ?thesis
    by (simp add: path_split_def Let_def drop_after_last)
next
  case False
  then have tw: "takeWhile (\<lambda>x. x \<noteq> sep) (rev p) = rev p"
    by auto
  from False have sp: "snd (path_split p) = p"
    by (simp add: path_split_def Let_def rfind_def)
  show ?thesis
    unfolding sp tw by simp
qed

lemma sep_notin_filename: "sep \<notin> set (snd (path_split p))"
  by (auto simp: path_split_snd dest: set_takeWhileD)

lemma splitext_fst_subset: "set (fst (splitext p)) \<subseteq> set p"
  by (auto simp: splitext_def Let_def dest: in_set_takeD)

lemma path_join_plain:
  "sep \<notin> set b \<Longrightarrow> a \<noteq> [] \<Longrightarrow>
   path_join a b = (if last a = sep then a @ b else a @ sep # b)"
  by (cases b) (auto simp: path_join_def)

subsection \<open>The file system only grows\<close>

lemma extends_refl [simp]: "extends t t"
  by (simp add: extends_def)

lemma extends_trans: "extends t t' \<Longrightarrow> extends t' t'' \<Longrightarrow> extends t t''"
  unfolding extends_def by (metis (no_types, opaque_lifting))

lemma extends_is_dir: "extends t t' \<Longrightarrow> is_dir t d \<Longrightarrow> is_dir t' d"
  by (auto simp: extends_def is_dir_def)

lemma extends_some: "extends t t' \<Longrightarrow> t k \<noteq> None \<Longrightarrow> t' k \<noteq> None"
proof -
  assume e: "extends t t'" and "t k \<noteq> None"
  then obtain n where n: "t k = Some n" by auto
  show ?thesis
  proof (cases n)
    case Dir
    with e n show ?thesis by (simp add: extends_def)
  next
    case (File x)
    with e n obtain y where "t' k = Some (File y)"
      unfolding extends_def by blast
    then show ?thesis by simp
  qed
qed

lemma extends_file:
  "extends t t' \<Longrightarrow> t k = Some (File x) \<Longrightarrow> \<exists>y. t' k = Some (File y)"
  unfolding extends_def by blast

lemma extends_new_dir: "t k = None \<Longrightarrow> extends t (t(k \<mapsto> n))"
  by (simp add: extends_def)

lemma extends_write: "t k \<noteq> Some Dir \<Longrightarrow> extends t (t(k \<mapsto> File data))"
  by (simp add: extends_def)

lemma resolve_from_mono:
  "extends t t' \<Longrightarrow> resolve_from t cur cs = Found k \<Longrightarrow> resolve_from t' cur cs = Found k"
proof (induction cs arbitrary: cur)
  case Nil
  then show ?case by simp
next
  case (Cons c cs)
  from Cons.prems have d: "is_dir t cur"
    by (auto split: if_splits)
  with Cons.prems(1) have d': "is_dir t' cur"
    by (rule extends_is_dir)
  show ?case
  proof (cases "c = [] \<or> c = ''.''")
    case True
    with Cons d d' show ?thesis by auto
  next
    case False
    show ?thesis
    proof (cases "c = ''..''")
      case True
      with Cons d d' False show ?thesis by auto
    next
      case ndd: False
      with Cons.prems d False have "t (cur @ [c]) \<noteq> None"
        and "resolve_from t (cur @ [c]) cs = Found k"
        by (auto split: if_splits)
      moreover from this Cons.prems(1) have "t' (cur @ [c]) \<noteq> None"
        by (simp add: extends_some)
      ultimately show ?thesis
        using Cons.IH [OF Cons.prems(1)] d' False ndd by auto
    qed
  qed
qed

lemma os_path_exists_mono:
  "extends (fs w) (fs w') \<Longrightarrow> cwd w' = cwd w \<Longrightarrow> os_path_exists w p \<Longrightarrow> os_path_exists w' p"
  by (auto simp: os_path_exists_def resolve_def split: resolved.splits if_splits
      dest: resolve_from_mono)

lemma makedirs_from_extends:
  "makedirs_from name t cur cs = (r, t') \<Longrightarrow> extends t t'"
proof (induction cs arbitrary: t cur)
  case Nil
  then show ?case by simp
next
  case (Cons c cs)
  show ?case
  proof (cases "\<not> is_dir t cur")
    case True
    with Cons.prems show ?thesis by simp
  next
    case d: False
    show ?thesis
    proof (cases "c = [] \<or> c = ''.''")
      case True
      with Cons.prems d have "makedirs_from name t cur cs = (r, t')" by auto
      then show ?thesis by (rule Cons.IH)
    next
      case n1: False
      show ?thesis
      proof (cases "c = ''..''")
        case True
        with Cons.prems d n1 have "makedirs_from name t (butlast cur) cs = (r, t')" by auto
        then show ?thesis by (rule Cons.IH)
      next
        case n2: False
        show ?thesis
        proof (cases "t (cur @ [c])")
          case None
          with Cons.prems d n1 n2
          have "makedirs_from name (t(cur @ [c] \<mapsto> Dir)) (cur @ [c]) cs = (r, t')"
            by auto
          then have "extends (t(cur @ [c] \<mapsto> Dir)) t'" by (rule Cons.IH)
          moreover from None have "extends t (t(cur @ [c] \<mapsto> Dir))"
            by (rule extends_new_dir)
          ultimately show ?thesis
            using extends_trans by blast
        next
          case (Some n)
          show ?thesis
          proof (cases n)
            case Dir
            with Cons.prems d n1 n2 Some
            have "makedirs_from name t (cur @ [c]) cs = (r, t')" by auto
            then show ?thesis by (rule Cons.IH)
          next
            case (File x)
            with Cons.prems d n1 n2 Some show ?thesis by auto
          qed
        qed
      qed
    qed
  qed
qed

lemma makedirs_from_found:
  "makedirs_from name t cur cs = (None, t') \<Longrightarrow> \<exists>k. resolve_from t' cur cs = Found k"
proof (induction cs arbitrary: t cur)
  case Nil
  then show ?case by simp
next
  case (Cons c cs)
  from Cons.prems have d: "is_dir t cur"
    by (auto split: if_splits)
  have ext: "extends t t'"
    using Cons.prems by (rule makedirs_from_extends)
  from ext d have d': "is_dir t' cur"
    by (rule extends_is_dir)
  show ?case
  proof (cases "c = [] \<or> c = ''.'' \<or> c = ''..''")
    case True
    with Cons.prems d d' Cons.IH [of t cur] Cons.IH [of t "butlast cur"] show ?thesis
      by (auto split: if_splits)
  next
    case False
    show ?thesis
    proof (cases "t (cur @ [c])")
      case None
      with Cons.prems d False have m: "makedirs_from name (t(cur @ [c] \<mapsto> Dir)) (cur @ [c]) cs = (None, t')"
        by auto
      from makedirs_from_extends [OF m] have "t' (cur @ [c]) \<noteq> None"
        by (rule extends_some) simp
      with Cons.IH [OF m] d' False show ?thesis by auto
    next
      case (Some n)
      with Cons.prems d False have m: "makedirs_from name t (cur @ [c]) cs = (None, t')"
        by (cases n) auto
      from ext Some have "t' (cur @ [c]) \<noteq> None"
        by (auto dest: extends_some)
      with Cons.IH [OF m] d' False show ?thesis by auto
    qed
  qed
qed

lemma os_makedirs_extends: "extends (fs w) (fs (snd (os_makedirs d w)))"
  by (auto simp: os_makedirs_def split: prod.splits option.splits dest: makedirs_from_extends)

lemma os_makedirs_exists:
  "os_makedirs d w = (Inr u, w') \<Longrightarrow> os_path_exists w' d"
  by (auto simp: os_makedirs_def os_path_exists_def resolve_def
      split: prod.splits option.splits if_splits dest: makedirs_from_found)

lemma makedirs_if_missing_extends: "extends (fs w) (fs (snd (makedirs_if_missing d w)))"
  by (simp add: makedirs_if_missing_def os_makedirs_extends)

lemma makedirs_if_missing_exists:
  "makedirs_if_missing d w = (Inr u, w') \<Longrightarrow> os_path_exists w' d"
  by (auto simp: makedirs_if_missing_def split: if_splits dest: os_makedirs_exists)


lemma split_sep_nonempty [simp]: "split_sep p \<noteq> []"
  by (induction p) (auto split: list.splits)

lemma resolve_from_append:
  "resolve_from t cur (xs @ ys) =
     (case resolve_from t cur xs of Found d \<Rightarrow> resolve_from t d ys | ENOENT \<Rightarrow> ENOENT
      | ENOTDIR \<Rightarrow> ENOTDIR)"
  by (induction xs arbitrary: cur) auto


lemma open_write_failed:
  "writable data \<Longrightarrow> fst (open_write p data w) = Inl e \<Longrightarrow> snd (open_write p data w) = w"
  by (auto simp: open_write_def split: resolved.splits if_splits)

lemma open_write_error: "fst (open_write p data w) = Inl e \<Longrightarrow> exn_text e = []"
  by (auto simp: open_write_def split: resolved.splits if_splits)

lemma open_write_frame [simp]:
  "calls (snd (open_write p data w)) = calls w"
  "stdout (snd (open_write p data w)) = stdout w"
  "cwd (snd (open_write p data w)) = cwd w"
  by (simp_all add: open_write_def split: resolved.splits)

lemma open_write_extends: "extends (fs w) (fs (snd (open_write p data w)))"
  by (auto simp: open_write_def split: resolved.splits intro: extends_write)

lemma open_write_read:
  assumes "open_write p data w = (Inr u, w')"
  shows "read_file w' p = Some data"
proof -
  let ?cs = "split_sep p"
  let ?start = "start_dir (cwd w) p"
  from assms have ne: "p \<noteq> []"
    by (auto simp: open_write_def)
  from assms ne obtain d where
    r: "resolve_from (fs w) ?start (butlast ?cs) = Found d"
    by (auto simp: open_write_def split: resolved.splits)
  from assms ne r have d: "is_dir (fs w) d"
    and n: "last ?cs \<noteq> []" "last ?cs \<noteq> ''.''" "last ?cs \<noteq> ''..''"
    and nd: "fs w (d @ [last ?cs]) \<noteq> Some Dir"
    and w': "w' = w\<lparr>fs := (fs w)(d @ [last ?cs] \<mapsto> File data)\<rparr>"
    by (auto simp: open_write_def split: if_splits)
  from nd have ext: "extends (fs w) (fs w')"
    unfolding w' by (simp add: extends_write)
  from ext r have r': "resolve_from (fs w') ?start (butlast ?cs) = Found d"
    by (rule resolve_from_mono)
  from ext d have d': "is_dir (fs w') d"
    by (rule extends_is_dir)
  have "resolve_from (fs w') ?start ?cs =
      resolve_from (fs w') ?start (butlast ?cs @ [last ?cs])"
    by simp
  also have "\<dots> = resolve_from (fs w') d [last ?cs]"
    by (simp only: resolve_from_append r' resolved.case)
  also have "\<dots> = Found (d @ [last ?cs])"
    using d' n by (simp add: w')
  finally have "resolve_from (fs w') ?start ?cs = Found (d @ [last ?cs])" .
  moreover have "cwd w' = cwd w"
    by (simp add: w')
  ultimately have "resolve w' p = Found (d @ [last ?cs])"
    using ne by (simp add: resolve_def)
  then show ?thesis
    by (simp add: read_file_def w')
qed

lemma read_file_exists: "read_file w p = Some data \<Longrightarrow> os_path_exists w p"
  by (auto simp: read_file_def os_path_exists_def split: resolved.splits)

lemma open_write_exists: "open_write p data w = (Inr u, w') \<Longrightarrow> os_path_exists w' p"
  by (blast dest: open_write_read read_file_exists)

lemma open_write_result:
  obtains (failed) e w' where "open_write p data w = (Inl e, w')" "exn_text e = []"
      "cwd w' = cwd w" "stdout w' = stdout w" "calls w' = calls w" "extends (fs w) (fs w')"
      "writable data \<longrightarrow> w' = w"
  | (written) w' where "open_write p data w = (Inr (), w')" "cwd w' = cwd w"
      "stdout w' = stdout w" "calls w' = calls w" "extends (fs w) (fs w')"
proof (cases "fst (open_write p data w)")
  case (Inl e)
  then have "open_write p data w = (Inl e, snd (open_write p data w))"
    by (rule pair_fst)
  then show ?thesis
  proof (rule failed)
    show "exn_text e = []"
      using Inl by (rule open_write_error)
    show "writable data \<longrightarrow> snd (open_write p data w) = w"
      using Inl by (auto dest: open_write_failed)
  qed (simp_all add: open_write_extends)
next
  case (Inr u)
  then have "open_write p data w = (Inr (), snd (open_write p data w))"
    by (simp add: pair_fst)
  then show ?thesis
    by (rule written) (simp_all add: open_write_extends)
qed

subsection \<open>What the split job reports\<close>

lemma report_append [simp]:
  "attempted (xs @ ys) = attempted xs @ attempted ys"
  "visited (xs @ ys) = visited xs @ visited ys"
  "successes (xs @ ys) = successes xs + successes ys"
  "failures (xs @ ys) = failures xs + failures ys"
  by (simp_all add: attempted_def visited_def successes_def failures_def)

lemma report_nil [simp]:
  "attempted [] = []" "visited [] = []" "successes [] = 0" "failures [] = 0"
  by (simp_all add: attempted_def visited_def successes_def failures_def)

lemma report_Cons [simp]:
  "attempted (m # ms) = split_report m @ attempted ms"
  "visited (m # ms) = visit_report m @ visited ms"
  "successes (m # ms) = (if is_success m then 1 else 0) + successes ms"
  "failures (m # ms) = (if is_failure m then 1 else 0) + failures ms"
  by (simp_all add: attempted_def visited_def successes_def failures_def)

lemma no_report_simps [simp]:
  "no_report []"
  "no_report [ExtractingVideo v]"
  "no_report [ExtractingVideo v, ExtractingAudio a]"
  "no_report [ExtractingVideo v, ExtractingAudio a, ExtractionComplete]"
  by (simp_all add: no_report_def)

lemma no_report_D:
  "no_report ms \<Longrightarrow> attempted ms = [] \<and> successes ms = 0 \<and> failures ms = 0 \<and>
     filter is_success ms = [] \<and> (\<forall>g. Processed g \<notin> set ms)"
proof -
  assume n: "no_report ms"
  then have f: "filter is_success ms = []"
    by (simp add: no_report_def)
  have "Processed g \<notin> set ms" for g
  proof
    assume "Processed g \<in> set ms"
    then have "Processed g \<in> set (filter is_success ms)"
      by simp
    with f show False
      by simp
  qed
  with n f show ?thesis
    by (simp add: no_report_def successes_def)
qed

lemma subprocess_run_check_error:
  "fst (subprocess_run_check env cmd w) = Inl e \<Longrightarrow>
   exn_text e = [] \<or> fst (run_process env cmd (cwd w) (fs w)) = Inl e"
  by (auto simp: subprocess_run_check_def Let_def split: sum.splits if_splits)

lemma run_extraction_summary:
  "\<exists>r w' ms. run_extraction env f v a w = (r, w') \<and> cwd w' = cwd w \<and>
     stdout w' = stdout w @ ms \<and> no_report ms \<and>
     (demux_keeps_files env \<longrightarrow> extends (fs w) (fs w')) \<and>
     (case r of
        Inl e \<Rightarrow> exn_text e = [] \<or> (\<exists>cmd wd t. fst (run_process env cmd wd t) = Inl e)
      | Inr outputs \<Rightarrow> outputs = (v, a) \<and> encodable v \<and> encodable a)"
proof (cases rule: print_result [of "ExtractingVideo v" w])
  case refused
  then show ?thesis
    by (simp add: run_extraction_def)
next
  case p1: printed
  let ?w1 = "emit (ExtractingVideo v) w"
  obtain r2 w2 where v: "subprocess_run_check env (video_cmd f v) ?w1 = (r2, w2)"
    by (cases "subprocess_run_check env (video_cmd f v) ?w1")
  then have c2: "cwd w2 = cwd w" and s2: "stdout w2 = stdout w @ [ExtractingVideo v]"
    using subprocess_run_check_frame(2,3) [of env "video_cmd f v" ?w1] by simp_all
  have e2: "extends (fs w) (fs w2)" if "demux_keeps_files env"
    using that v by (auto simp: subprocess_run_check_def demux_keeps_files_def Let_def
        split: sum.splits if_splits)
  show ?thesis
  proof (cases r2)
    case (Inl e)
    with v have "exn_text e = [] \<or> (\<exists>cmd wd t. fst (run_process env cmd wd t) = Inl e)"
      using subprocess_run_check_error [of env "video_cmd f v" ?w1 e] by auto
    with p1 v Inl c2 s2 e2 show ?thesis
      by (simp add: run_extraction_def)
  next
    case r2: (Inr u2)
    show ?thesis
    proof (cases rule: print_result [of "ExtractingAudio a" w2])
      case refused
      with p1 v r2 c2 s2 e2 show ?thesis
        by (simp add: run_extraction_def)
    next
      case p2: printed
      let ?w3 = "emit (ExtractingAudio a) w2"
      obtain r4 w4 where a: "subprocess_run_check env (audio_cmd f a) ?w3 = (r4, w4)"
        by (cases "subprocess_run_check env (audio_cmd f a) ?w3")
      then have c4: "cwd w4 = cwd w"
        and s4: "stdout w4 = stdout w @ [ExtractingVideo v, ExtractingAudio a]"
        using subprocess_run_check_frame(2,3) [of env "audio_cmd f a" ?w3] c2 s2 by simp_all
      have e4: "extends (fs w) (fs w4)" if k: "demux_keeps_files env"
      proof -
        from k a have "extends (fs w2) (fs w4)"
          by (auto simp: subprocess_run_check_def demux_keeps_files_def Let_def
              split: sum.splits if_splits)
        with e2 [OF k] show ?thesis
          by (rule extends_trans)
      qed
      show ?thesis
      proof (cases r4)
        case (Inl e)
        with a have "exn_text e = [] \<or> (\<exists>cmd wd t. fst (run_process env cmd wd t) = Inl e)"
          using subprocess_run_check_error [of env "audio_cmd f a" ?w3 e] by auto
        with p1 v r2 p2 a Inl c4 s4 e4 show ?thesis
          by (simp add: run_extraction_def)
      next
        case (Inr u4)
        with p1 v r2 p2 a c4 s4 e4 show ?thesis
          by (simp add: run_extraction_def print_ok)
      qed
    qed
  qed
qed

lemma split_video_audio_summary:
  "\<exists>r w' ms. split_video_audio env f od w = (r, w') \<and> cwd w' = cwd w \<and>
     stdout w' = stdout w @ ms \<and> no_report ms \<and>
     (demux_keeps_files env \<longrightarrow> extends (fs w) (fs w')) \<and>
     (case r of
        Inl e \<Rightarrow> e = FileNotFoundError (''Input file not found: '' @ f) \<or> exn_text e = [] \<or>
                 (\<exists>cmd wd t. fst (run_process env cmd wd t) = Inl e)
      | Inr outputs \<Rightarrow>
          demux_keeps_files env \<longrightarrow> os_path_exists w' (output_dir_or_default f od))"
proof (cases "os_path_exists w f")
  case False
  then show ?thesis by (simp add: split_video_audio_def)
next
  case True
  let ?od = "output_dir_or_default f od"
  let ?v = "path_join ?od (fst (splitext (snd (path_split f))) @ ''_video.mp4'')"
  let ?a = "path_join ?od (fst (splitext (snd (path_split f))) @ ''_audio.wav'')"
  obtain r1 w1 where mk: "makedirs_if_missing ?od w = (r1, w1)"
    by (cases "makedirs_if_missing ?od w")
  then have c1: "cwd w1 = cwd w" and s1: "stdout w1 = stdout w"
    and e1: "extends (fs w) (fs w1)"
    using makedirs_if_missing_frame(2,3) [of ?od w] makedirs_if_missing_extends [of w ?od]
    by simp_all
  show ?thesis
  proof (cases r1)
    case (Inl e)
    with mk have "exn_text e = []"
      using makedirs_if_missing_error [of ?od w e] by simp
    with True mk Inl c1 s1 e1 show ?thesis
      by (simp add: split_video_audio_def Let_def)
  next
    case r1: (Inr u)
    with mk have d1: "os_path_exists w1 ?od"
      by (auto intro: makedirs_if_missing_exists)
    from run_extraction_summary [of env f ?v ?a w1]
    obtain r w' ms where x: "run_extraction env f ?v ?a w1 = (r, w')"
      and c: "cwd w' = cwd w1" and s: "stdout w' = stdout w1 @ ms" and q: "no_report ms"
      and e: "demux_keeps_files env \<longrightarrow> extends (fs w1) (fs w')"
      and k: "case r of
        Inl e \<Rightarrow> exn_text e = [] \<or> (\<exists>cmd wd t. fst (run_process env cmd wd t) = Inl e)
      | Inr outputs \<Rightarrow> outputs = (?v, ?a) \<and> encodable ?v \<and> encodable ?a"
      by blast
    have sva: "split_video_audio env f od w = (r, w')"
      using True mk r1 x by (simp add: split_video_audio_def Let_def)
    have ext: "demux_keeps_files env \<longrightarrow> extends (fs w) (fs w')"
      using e e1 by (auto intro: extends_trans)
    have d: "demux_keeps_files env \<longrightarrow> os_path_exists w' ?od"
      using e c d1 by (auto intro: os_path_exists_mono)
    show ?thesis
    proof (cases r)
      case (Inl e')
      with sva c c1 s s1 q ext k show ?thesis
        by auto
    next
      case (Inr outputs)
      with sva c c1 s s1 q ext d show ?thesis
        by auto
    qed
  qed
qed

lemma encodable_not_found [simp]:
  "encodable (exn_text (FileNotFoundError (''Input file not found: '' @ f))) = encodable f"
  by simp

lemma split_try_summary:
  "\<exists>r w' ms. split_try env f cod n w = (r, w') \<and> cwd w' = cwd w \<and>
     stdout w' = stdout w @ ms @ (case r of Inr n' \<Rightarrow> [Processed f] | Inl e \<Rightarrow> []) \<and>
     no_report ms \<and>
     (demux_keeps_files env \<longrightarrow> extends (fs w) (fs w')) \<and>
     (case r of
        Inr n' \<Rightarrow> n' = n + 1 \<and> encodable f \<and>
          (demux_keeps_files env \<and> cod \<noteq> [] \<longrightarrow> os_path_exists w' cod)
      | Inl e \<Rightarrow> encodable f \<and> demux_errors_printable env \<longrightarrow> encodable (exn_text e))"
proof -
  from split_video_audio_summary [of env f "Some cod" w]
  obtain r1 w1 ms where sv: "split_video_audio env f (Some cod) w = (r1, w1)"
    and c1: "cwd w1 = cwd w" and s1: "stdout w1 = stdout w @ ms" and q: "no_report ms"
    and e1: "demux_keeps_files env \<longrightarrow> extends (fs w) (fs w1)"
    and k1: "case r1 of
        Inl e \<Rightarrow> e = FileNotFoundError (''Input file not found: '' @ f) \<or> exn_text e = [] \<or>
                 (\<exists>cmd wd t. fst (run_process env cmd wd t) = Inl e)
      | Inr outputs \<Rightarrow>
          demux_keeps_files env \<longrightarrow> os_path_exists w1 (output_dir_or_default f (Some cod))"
    by blast
  show ?thesis
  proof (cases r1)
    case (Inl e)
    with k1 have "encodable f \<and> demux_errors_printable env \<longrightarrow> encodable (exn_text e)"
      by (auto simp: demux_errors_printable_def)
    with sv Inl c1 s1 q e1 show ?thesis
      by (simp add: split_try_def)
  next
    case (Inr outputs)
    with k1 have d: "demux_keeps_files env \<and> cod \<noteq> [] \<longrightarrow> os_path_exists w1 cod"
      by (auto simp: output_dir_or_default_def)
    show ?thesis
    proof (cases rule: print_result [of "Processed f" w1])
      case printed
      with sv Inr c1 s1 q e1 d show ?thesis
        by (simp add: split_try_def)
    next
      case refused
      with sv Inr c1 s1 q e1 show ?thesis
        by (simp add: split_try_def)
    qed
  qed
qed

lemma split_files_reports:
  "(fst (split_files env root cod files n w) = Inr n' \<longrightarrow>
       attempted (stdout (snd (split_files env root cod files n w))) =
         attempted (stdout w) @ map (path_join root) (filter is_video_name files) \<and>
       n' + successes (stdout w) = n + successes (stdout (snd (split_files env root cod files n w))) \<and>
       successes (stdout (snd (split_files env root cod files n w))) +
         failures (stdout (snd (split_files env root cod files n w))) =
         successes (stdout w) + failures (stdout w) + length (filter is_video_name files)) \<and>
   (fst (split_files env root cod files n w) = Inl e \<longrightarrow>
       \<not> (list_all encodable (map (path_join root) (filter is_video_name files)) \<and>
          demux_errors_printable env))"
proof (induction files arbitrary: n w)
  case Nil
  then show ?case by simp
next
  case (Cons fl files)
  show ?case
  proof (cases "is_video_name fl")
    case False
    then have u: "split_files env root cod (fl # files) n w = split_files env root cod files n w"
      and f: "filter is_video_name (fl # files) = filter is_video_name files"
      by (simp_all add: is_video_name_def)
    show ?thesis
      unfolding u f by (rule Cons.IH)
  next
    case True
    let ?f = "path_join root fl"
    have f: "map (path_join root) (filter is_video_name (fl # files)) =
        ?f # map (path_join root) (filter is_video_name files)"
      using True by simp
    from split_try_summary [of env ?f cod n w]
    obtain r1 w1 ms where st: "split_try env ?f cod n w = (r1, w1)"
      and s1: "stdout w1 = stdout w @ ms @ (case r1 of Inr n' \<Rightarrow> [Processed ?f] | Inl e \<Rightarrow> [])"
      and q: "no_report ms"
      and k1: "case r1 of
        Inr n' \<Rightarrow> n' = n + 1 \<and> encodable ?f \<and>
          (demux_keeps_files env \<and> cod \<noteq> [] \<longrightarrow> os_path_exists w1 cod)
      | Inl e \<Rightarrow> encodable ?f \<and> demux_errors_printable env \<longrightarrow> encodable (exn_text e)"
      by blast
    note q' = no_report_D [OF q]
    show ?thesis
    proof (cases r1)
      case (Inr n1)
      with k1 have n1: "n1 = n + 1" and enc: "encodable ?f"
        by simp_all
      have u: "split_files env root cod (fl # files) n w = split_files env root cod files n1 w1"
        using True st Inr by (simp add: is_video_name_def)
      from s1 Inr q' have rep: "attempted (stdout w1) = attempted (stdout w) @ [?f]"
        "successes (stdout w1) = successes (stdout w) + 1"
        "failures (stdout w1) = failures (stdout w)"
        by simp_all
      show ?thesis
        unfolding u f using Cons.IH [of n1 w1] rep n1 enc True by auto
    next
      case (Inl e1)
      from s1 Inl q' have rep: "attempted (stdout w1) = attempted (stdout w)"
        "successes (stdout w1) = successes (stdout w)"
        "failures (stdout w1) = failures (stdout w)"
        by simp_all
      show ?thesis
      proof (cases rule: print_result [of "ErrorProcessing ?f e1" w1])
        case printed
        let ?w2 = "emit (ErrorProcessing ?f e1) w1"
        have u: "split_files env root cod (fl # files) n w = split_files env root cod files n ?w2"
          using True st Inl printed by (simp add: is_video_name_def)
        from rep have rep2: "attempted (stdout ?w2) = attempted (stdout w) @ [?f]"
          "successes (stdout ?w2) = successes (stdout w)"
          "failures (stdout ?w2) = failures (stdout w) + 1"
          by simp_all
        from printed(1) have enc: "encodable ?f"
          by simp
        show ?thesis
          unfolding u f using Cons.IH [of n ?w2] rep2 enc True by auto
      next
        case refused
        have u: "split_files env root cod (fl # files) n w =
            (Inl (UnicodeEncodeError (msg_text (ErrorProcessing ?f e1))), w1)"
          using True st Inl refused by (simp add: is_video_name_def)
        from refused(1) k1 Inl
        have "\<not> (encodable ?f \<and> demux_errors_printable env)"
          by auto
        then show ?thesis
          unfolding u f using True by auto
      qed
    qed
  qed
qed


lemma relpath_total: "path \<noteq> [] \<Longrightarrow> \<exists>rel. relpath wd path start = Inr rel"
  by (simp add: relpath_def Let_def)

lemma relpath_error: "relpath wd path start = Inl e \<Longrightarrow> path = [] \<and> e = ValueError ''no path specified''"
  by (auto simp: relpath_def Let_def split: if_splits)


lemma selected_videos_Cons:
  "selected_videos ((root, dirs, files) # rest) =
     map (path_join root) (filter is_video_name files) @ selected_videos rest"
  by (simp add: selected_videos_def)

lemma split_walk_reports:
  "(fst (split_walk env input_dir output_base_dir os_walk n w) = Inr n' \<longrightarrow>
     attempted (stdout (snd (split_walk env input_dir output_base_dir os_walk n w))) =
       attempted (stdout w) @ selected_videos os_walk \<and>
     n' + successes (stdout w) =
       n + successes (stdout (snd (split_walk env input_dir output_base_dir os_walk n w))) \<and>
     successes (stdout (snd (split_walk env input_dir output_base_dir os_walk n w))) +
       failures (stdout (snd (split_walk env input_dir output_base_dir os_walk n w))) =
       successes (stdout w) + failures (stdout w) + length (selected_videos os_walk)) \<and>
   (fst (split_walk env input_dir output_base_dir os_walk n w) = Inl e \<longrightarrow>
     \<not> (list_all (\<lambda>triple. fst triple \<noteq> []) os_walk \<and>
        list_all encodable (selected_videos os_walk) \<and> demux_errors_printable env))"
proof (induction os_walk arbitrary: n w)
  case Nil
  then show ?case by (simp add: selected_videos_def)
next
  case (Cons triple rest)
  obtain root dirs files where tr: "triple = (root, dirs, files)"
    by (cases triple)
  note sel = selected_videos_Cons [of root dirs files rest]
  show ?case
  proof (cases "relpath (cwd w) root input_dir")
    case (Inl e')
    then have "root = []"
      by (auto dest: relpath_error)
    with Inl show ?thesis
      unfolding tr by simp
  next
    case (Inr rel)
    let ?cod = "mirror_dir output_base_dir rel"
    obtain r1 w1 where sf: "split_files env root ?cod files n w = (r1, w1)"
      by (cases "split_files env root ?cod files n w")
    show ?thesis
    proof (cases r1)
      case (Inl e1)
      with split_files_reports [of env root ?cod files n w _ e1] sf
      have "\<not> (list_all encodable (map (path_join root) (filter is_video_name files)) \<and>
          demux_errors_printable env)"
        by simp
      moreover have "split_walk env input_dir output_base_dir (triple # rest) n w = (Inl e1, w1)"
        using tr Inr sf Inl by simp
      ultimately show ?thesis
        unfolding tr sel by auto
    next
      case r1: (Inr n1)
      with split_files_reports [of env root ?cod files n w n1] sf
      have a1: "attempted (stdout w1) =
          attempted (stdout w) @ map (path_join root) (filter is_video_name files)"
        and c1: "n1 + successes (stdout w) = n + successes (stdout w1)"
        and t1: "successes (stdout w1) + failures (stdout w1) =
          successes (stdout w) + failures (stdout w) + length (filter is_video_name files)"
        by simp_all
      have u: "split_walk env input_dir output_base_dir (triple # rest) n w =
          split_walk env input_dir output_base_dir rest n1 w1"
        using tr Inr sf r1 by simp
      show ?thesis
        unfolding u unfolding tr sel using Cons.IH [of n1 w1] a1 c1 t1 by auto
    qed
  qed
qed


subsection \<open>What the transcribe job reports\<close>

lemma transcribe_try_summary:
  assumes enc: "encodable f"
  shows "\<exists>r w1 ms. transcribe_try env f l w = (r, w1) \<and> fs w1 = fs w \<and> cwd w1 = cwd w \<and>
     stdout w1 = stdout w @ ms \<and> visited ms = [] \<and>
     (case r of
        Inr t \<Rightarrow> failures ms = (if t = [] then 1 else 0)
      | Inl e \<Rightarrow> failures ms = 0 \<and>
          (exn_text e = [] \<or> load_model env ''tiny'' = Some e \<or>
           load_model env ''tiny'' = None \<and> transcribe env f l = Inl e))"
proof (cases "os_path_exists w f")
  case False
  with enc show ?thesis
    by (simp add: transcribe_try_def print_ok)
next
  case True
  let ?w1 = "emit LoadingModel w"
  show ?thesis
  proof (cases "load_model env ''tiny''")
    case (Some e)
    with True show ?thesis
      by (simp add: transcribe_try_def print_ok whisper_load_model_def)
  next
    case None
    let ?w3 = "emit (Transcribing f) (?w1\<lparr>calls := calls ?w1 @ [LoadModel ''tiny'']\<rparr>)"
    show ?thesis
    proof (cases "transcribe env f l")
      case (Inl e)
      with True None enc show ?thesis
        by (simp add: transcribe_try_def print_ok whisper_load_model_def model_transcribe_def)
    next
      case (Inr t)
      show ?thesis
      proof (cases "encodable (take 50 t)")
        case ok: True
        with True None enc Inr show ?thesis
          by (simp add: transcribe_try_def print_ok whisper_load_model_def model_transcribe_def)
      next
        case False
        with True None enc Inr show ?thesis
          by (simp add: transcribe_try_def print_ok print_fails whisper_load_model_def
                model_transcribe_def)
      qed
    qed
  qed
qed

lemma transcribe_result:
  obtains (unprintable) "\<not> encodable f"
      "transcribe_audio_with_whisper env f l w = (Inl (UnicodeEncodeError f), w)"
  | (returned) t w1 where "encodable f"
      "transcribe_audio_with_whisper env f l w = (Inr t, w1)"
      "fs w1 = fs w" "cwd w1 = cwd w"
      "visited (stdout w1) = visited (stdout w) @ [f]"
      "failures (stdout w1) = failures (stdout w) + (if t = [] then 1 else 0)"
  | (raised) e w1 where "encodable f"
      "transcribe_audio_with_whisper env f l w = (Inl e, w1)" "exn_text e = []"
      "fs w1 = fs w" "cwd w1 = cwd w"
      "visited (stdout w1) = visited (stdout w) @ [f]"
      "failures (stdout w1) = failures (stdout w)"
proof (cases "encodable f")
  case False
  then have "transcribe_audio_with_whisper env f l w = (Inl (UnicodeEncodeError f), w)"
    by (simp add: transcribe_audio_with_whisper_def print_fails)
  with False show ?thesis
    by (rule unprintable)
next
  case True
  let ?w0 = "emit (Processing f) w"
  from transcribe_try_summary [OF True, of env l ?w0]
  obtain r w1 ms where t: "transcribe_try env f l ?w0 = (r, w1)"
    and f1: "fs w1 = fs w" and c1: "cwd w1 = cwd w"
    and s1: "stdout w1 = stdout w @ [Processing f] @ ms" and v: "visited ms = []"
    and k: "case r of
        Inr t \<Rightarrow> failures ms = (if t = [] then 1 else 0)
      | Inl e \<Rightarrow> failures ms = 0 \<and>
          (exn_text e = [] \<or> load_model env ''tiny'' = Some e \<or>
           load_model env ''tiny'' = None \<and> transcribe env f l = Inl e)"
    by auto
  from s1 v have v1: "visited (stdout w1) = visited (stdout w) @ [f]"
    by simp
  show ?thesis
  proof (cases r)
    case (Inr t')
    with True t have "transcribe_audio_with_whisper env f l w = (Inr t', w1)"
      by (simp add: transcribe_audio_with_whisper_def print_ok)
    moreover from s1 k Inr
    have "failures (stdout w1) = failures (stdout w) + (if t' = [] then 1 else 0)"
      by simp
    ultimately show ?thesis
      using True f1 c1 v1 by (blast intro: returned)
  next
    case (Inl e)
    with s1 k have x1: "failures (stdout w1) = failures (stdout w)"
      by simp
    show ?thesis
    proof (cases rule: print_result [of "UnexpectedError e" w1])
      case printed
      let ?w2 = "emit (UnexpectedError e) w1"
      from True t Inl printed
      have "transcribe_audio_with_whisper env f l w = (Inr [], ?w2)"
        by (simp add: transcribe_audio_with_whisper_def print_ok)
      moreover have "failures (stdout ?w2) = failures (stdout w) + (if [] = ([]::string) then 1 else 0)"
        using x1 by simp
      moreover have "visited (stdout ?w2) = visited (stdout w) @ [f]"
        using v1 by simp
      moreover have "fs ?w2 = fs w" "cwd ?w2 = cwd w"
        using f1 c1 by simp_all
      ultimately show ?thesis
        using True by (blast intro: returned)
    next
      case refused
      from True t Inl refused
      have m1: "transcribe_audio_with_whisper env f l w =
          (Inl (UnicodeEncodeError (msg_text (UnexpectedError e))), w1)"
        by (simp add: transcribe_audio_with_whisper_def print_ok)
      have m2: "exn_text (UnicodeEncodeError (msg_text (UnexpectedError e))) = []"
        by simp
      show ?thesis
        by (rule raised [OF True m1 m2 f1 c1 v1 x1])
    qed
  qed
qed

lemma transcribe_frame [simp]:
  "fs (snd (transcribe_audio_with_whisper env f l w)) = fs w"
  "cwd (snd (transcribe_audio_with_whisper env f l w)) = cwd w"
  by (cases rule: transcribe_result [of f env l w]; simp)+

lemma transcribe_Inr_encodable:
  "transcribe_audio_with_whisper env f l w = (Inr t, w1) \<Longrightarrow> encodable f"
  by (cases rule: transcribe_result [of f env l w]) simp_all

lemma transcribe_raises_cause:
  assumes enc: "encodable f"
    and r: "fst (transcribe_audio_with_whisper env f l w) = Inl e"
  shows "\<exists>e0. (load_model env ''tiny'' = Some e0 \<or>
               load_model env ''tiny'' = None \<and> transcribe env f l = Inl e0) \<and>
              \<not> encodable (exn_text e0) \<and> e = UnicodeEncodeError (exn_text e0)"
proof -
  let ?w0 = "emit (Processing f) w"
  from transcribe_try_summary [OF enc, of env l ?w0]
  obtain r0 w1 where t: "transcribe_try env f l ?w0 = (r0, w1)"
    and k: "case r0 of
        Inr t \<Rightarrow> True
      | Inl e \<Rightarrow> exn_text e = [] \<or> load_model env ''tiny'' = Some e \<or>
           load_model env ''tiny'' = None \<and> transcribe env f l = Inl e"
    by (auto split: sum.splits)
  show ?thesis
  proof (cases r0)
    case (Inr t')
    with enc t r show ?thesis
      by (simp add: transcribe_audio_with_whisper_def print_ok)
  next
    case (Inl e0)
    show ?thesis
    proof (cases rule: print_result [of "UnexpectedError e0" w1])
      case printed
      with enc t r Inl show ?thesis
        by (simp add: transcribe_audio_with_whisper_def print_ok)
    next
      case refused
      with enc t r Inl have e: "e = UnicodeEncodeError (exn_text e0)"
        by (simp add: transcribe_audio_with_whisper_def print_ok)
      from refused(1) have n: "\<not> encodable (exn_text e0)"
        by simp
      then have "exn_text e0 \<noteq> []"
        by auto
      with k Inl have "load_model env ''tiny'' = Some e0 \<or>
          load_model env ''tiny'' = None \<and> transcribe env f l = Inl e0"
        by simp
      with n e show ?thesis
        by blast
    qed
  qed
qed


text \<open>What one pass of the \<open>try\<close> block does, case by case.\<close>

lemma transcribe_persist_summary:
  "\<exists>r w'. transcribe_persist env f cod base out n w = (r, w') \<and>
     cwd w' = cwd w \<and> extends (fs w) (fs w') \<and>
     (case r of
        Inr n' \<Rightarrow> encodable f \<and> visited (stdout w') = visited (stdout w) @ [f] \<and>
          n' + failures (stdout w') = n + failures (stdout w) + 1
      | Inl e \<Rightarrow> exn_text e = [] \<and>
          (if encodable f
           then visited (stdout w') = visited (stdout w) @ [f] \<and>
                failures (stdout w') = failures (stdout w)
           else stdout w' = stdout w))"
proof (cases "os_path_exists w out")
  case True
  show ?thesis
  proof (cases rule: print_result [of "Skipping f" w])
    case printed
    with True show ?thesis
      by (simp add: transcribe_persist_def)
  next
    case refused
    with True show ?thesis
      by (simp add: transcribe_persist_def)
  qed
next
  case False
  show ?thesis
  proof (cases rule: transcribe_result [of f env "''en''" w])
    case unprintable
    with False show ?thesis
      by (simp add: transcribe_persist_def)
  next
    case (raised e w1)
    with False show ?thesis
      by (simp add: transcribe_persist_def)
  next
    case (returned t w1)
    note T = returned
    show ?thesis
    proof (cases "t = []")
      case True
      with False T show ?thesis
        by (simp add: transcribe_persist_def)
    next
      case ne: False
      let ?json = "path_join cod (base @ ''.json'')"
      let ?obj = "Json [(''audio_file'', f), (''transcription'', t), (''language'', ''en'')]"
      show ?thesis
      proof (cases rule: open_write_result [of out "Text t" w1])
        case (failed e w2)
        with False T ne show ?thesis
          by (simp add: transcribe_persist_def)
      next
        case (written w2)
        show ?thesis
        proof (cases rule: open_write_result [of ?json ?obj w2])
          case (failed e w3)
          from written(5) failed(6) T(3) have "extends (fs w) (fs w3)"
            by (auto intro: extends_trans)
          with False T ne written failed show ?thesis
            by (simp add: transcribe_persist_def)
        next
          case w3: (written w3)
          from written(5) w3(5) T(3) have "extends (fs w) (fs w3)"
            by (auto intro: extends_trans)
          with False T ne written w3 show ?thesis
            by (simp add: transcribe_persist_def)
        qed
      qed
    qed
  qed
qed

lemma has_mirror_mono:
  "extends (fs w) (fs w') \<Longrightarrow> cwd w' = cwd w \<Longrightarrow> has_mirror input_dir output_dir w root \<Longrightarrow>
   has_mirror input_dir output_dir w' root"
  by (auto simp: has_mirror_def split: sum.splits intro: os_path_exists_mono)

lemma transcribe_body_summary:
  "\<exists>r w'. transcribe_body env input_dir output_dir rf n w = (r, w') \<and>
     cwd w' = cwd w \<and> extends (fs w) (fs w') \<and>
     (case r of
        Inr n' \<Rightarrow>
          encodable (path_join (fst rf) (snd rf)) \<and>
          visited (stdout w') = visited (stdout w) @ [path_join (fst rf) (snd rf)] \<and>
          n' + failures (stdout w') = n + failures (stdout w) + 1 \<and>
          has_mirror input_dir output_dir w' (fst rf)
      | Inl e \<Rightarrow>
          (\<not> has_mirror input_dir output_dir w (fst rf) \<or>
           \<not> encodable (path_join (fst rf) (snd rf))) \<and>
          ((\<exists>d v. fst (os_makedirs d v) = Inl e) \<or> e = ValueError ''no path specified'' \<or>
           \<not> encodable (path_join (fst rf) (snd rf)) \<and>
           e = UnicodeEncodeError (path_join (fst rf) (snd rf))))"
proof (cases "relpath (cwd w) (fst rf) input_dir")
  case (Inl e)
  then have "e = ValueError ''no path specified''"
    by (auto dest: relpath_error)
  with Inl show ?thesis
    by (simp add: transcribe_body_def has_mirror_def)
next
  case (Inr rel)
  let ?cod = "mirror_dir output_dir rel"
  let ?f = "path_join (fst rf) (snd rf)"
  let ?base = "fst (splitext (snd rf))"
  let ?out = "path_join ?cod (?base @ ''.txt'')"
  obtain r1 w1 where mk: "makedirs_if_missing ?cod w = (r1, w1)"
    by (cases "makedirs_if_missing ?cod w")
  then have c1: "cwd w1 = cwd w" and s1: "stdout w1 = stdout w"
    and e1: "extends (fs w) (fs w1)"
    using makedirs_if_missing_frame [of ?cod w] makedirs_if_missing_extends [of w ?cod]
    by simp_all
  show ?thesis
  proof (cases r1)
    case r1: (Inl e)
    have missing: "\<not> os_path_exists w ?cod"
    proof
      assume "os_path_exists w ?cod"
      then have "makedirs_if_missing ?cod w = (Inr (), w)"
        by (rule makedirs_if_missing_present)
      with mk r1 show False by simp
    qed
    with mk r1 have "fst (os_makedirs ?cod w) = Inl e"
      by (simp add: makedirs_if_missing_def)
    then have "\<exists>d v. fst (os_makedirs d v) = Inl e"
      by blast
    with Inr mk r1 c1 e1 missing show ?thesis
      by (simp add: transcribe_body_def has_mirror_def)
  next
    case r1: (Inr u)
    with mk have d1: "os_path_exists w1 ?cod"
      by (auto intro: makedirs_if_missing_exists)
    from transcribe_persist_summary [of env ?f ?cod ?base ?out n w1]
    obtain r2 w2 where p: "transcribe_persist env ?f ?cod ?base ?out n w1 = (r2, w2)"
      and c2: "cwd w2 = cwd w1" and e2: "extends (fs w1) (fs w2)"
      and k2: "case r2 of
        Inr n' \<Rightarrow> encodable ?f \<and> visited (stdout w2) = visited (stdout w1) @ [?f] \<and>
          n' + failures (stdout w2) = n + failures (stdout w1) + 1
      | Inl e \<Rightarrow> exn_text e = [] \<and>
          (if encodable ?f
           then visited (stdout w2) = visited (stdout w1) @ [?f] \<and>
                failures (stdout w2) = failures (stdout w1)
           else stdout w2 = stdout w1)"
      by blast
    from e1 e2 have e: "extends (fs w) (fs w2)"
      by (rule extends_trans)
    from e2 c2 d1 have d2: "os_path_exists w2 ?cod"
      by (rule os_path_exists_mono)
    have m2: "has_mirror input_dir output_dir w' (fst rf)"
      if "fs w' = fs w2" "cwd w' = cwd w2" for w'
      using that d2 Inr c1 c2 os_path_exists_cong [of w' w2 ?cod]
      by (simp add: has_mirror_def)
    show ?thesis
    proof (cases r2)
      case (Inr n')
      with \<open>relpath (cwd w) (fst rf) input_dir = Inr rel\<close> mk r1 p
      have b: "transcribe_body env input_dir output_dir rf n w = (Inr n', w2)"
        by (simp add: transcribe_body_def Let_def)
      from k2 Inr s1 m2 [of w2] c1 c2 e show ?thesis
        unfolding b by simp
    next
      case (Inl e')
      with k2 have t': "exn_text e' = []"
        by simp
      show ?thesis
      proof (cases rule: print_result [of "ErrorProcessing ?f e'" w2])
        case printed
        let ?w3 = "emit (ErrorProcessing ?f e') w2"
        from \<open>relpath (cwd w) (fst rf) input_dir = Inr rel\<close> mk r1 p Inl printed
        have b: "transcribe_body env input_dir output_dir rf n w = (Inr n, ?w3)"
          by (simp add: transcribe_body_def Let_def)
        from printed(1) have enc: "encodable ?f"
          by simp
        with k2 Inl s1 have "visited (stdout ?w3) = visited (stdout w) @ [?f]"
          and "n + failures (stdout ?w3) = n + failures (stdout w) + 1"
          by simp_all
        with enc m2 [of ?w3] c1 c2 e show ?thesis
          unfolding b by simp
      next
        case refused
        from \<open>relpath (cwd w) (fst rf) input_dir = Inr rel\<close> mk r1 p Inl refused
        have b: "transcribe_body env input_dir output_dir rf n w =
            (Inl (UnicodeEncodeError (msg_text (ErrorProcessing ?f e'))), w2)"
          by (simp add: transcribe_body_def Let_def)
        from refused(1) t' have enc: "\<not> encodable ?f"
          by simp
        with t' c1 c2 e show ?thesis
          unfolding b by simp
      qed
    qed
  qed
qed

lemma transcribe_loop_summary:
  "\<exists>r w'. transcribe_loop env input_dir output_dir files n w = (r, w') \<and>
     cwd w' = cwd w \<and> extends (fs w) (fs w') \<and>
     (case r of
        Inr n' \<Rightarrow>
          list_all encodable (map (\<lambda>rf. path_join (fst rf) (snd rf)) files) \<and>
          visited (stdout w') =
            visited (stdout w) @ map (\<lambda>rf. path_join (fst rf) (snd rf)) files \<and>
          n' + failures (stdout w') = n + failures (stdout w) + length files \<and>
          list_all (\<lambda>rf. has_mirror input_dir output_dir w' (fst rf)) files
      | Inl e \<Rightarrow>
          \<not> (list_all (\<lambda>rf. has_mirror input_dir output_dir w (fst rf)) files \<and>
             list_all encodable (map (\<lambda>rf. path_join (fst rf) (snd rf)) files)) \<and>
          ((\<exists>d v. fst (os_makedirs d v) = Inl e) \<or> e = ValueError ''no path specified'' \<or>
           (\<exists>f \<in> set (map (\<lambda>rf. path_join (fst rf) (snd rf)) files).
              \<not> encodable f \<and> e = UnicodeEncodeError f)))"
proof (induction files arbitrary: n w)
  case Nil
  then show ?case by simp
next
  case (Cons rf rest)
  let ?F = "\<lambda>rf. path_join (fst rf) (snd rf)"
  from transcribe_body_summary [of env input_dir output_dir rf n w]
  obtain r1 w1 where b: "transcribe_body env input_dir output_dir rf n w = (r1, w1)"
    and c1: "cwd w1 = cwd w" and e1: "extends (fs w) (fs w1)"
    and k1: "case r1 of
        Inr n' \<Rightarrow>
          encodable (?F rf) \<and>
          visited (stdout w1) = visited (stdout w) @ [?F rf] \<and>
          n' + failures (stdout w1) = n + failures (stdout w) + 1 \<and>
          has_mirror input_dir output_dir w1 (fst rf)
      | Inl e \<Rightarrow>
          (\<not> has_mirror input_dir output_dir w (fst rf) \<or> \<not> encodable (?F rf)) \<and>
          ((\<exists>d v. fst (os_makedirs d v) = Inl e) \<or> e = ValueError ''no path specified'' \<or>
           \<not> encodable (?F rf) \<and> e = UnicodeEncodeError (?F rf))"
    by blast
  show ?case
  proof (cases r1)
    case (Inl e)
    have u: "transcribe_loop env input_dir output_dir (rf # rest) n w = (Inl e, w1)"
      using b Inl by simp
    from k1 Inl c1 e1 show ?thesis
      unfolding u by auto
  next
    case (Inr n1)
    with k1 have enc: "encodable (?F rf)"
      and v1: "visited (stdout w1) = visited (stdout w) @ [?F rf]"
      and x1: "n1 + failures (stdout w1) = n + failures (stdout w) + 1"
      and m1: "has_mirror input_dir output_dir w1 (fst rf)"
      by simp_all
    from Cons.IH [of n1 w1]
    obtain r2 w2 where l: "transcribe_loop env input_dir output_dir rest n1 w1 = (r2, w2)"
      and c2: "cwd w2 = cwd w1" and e2: "extends (fs w1) (fs w2)"
      and k2: "case r2 of
        Inr n' \<Rightarrow>
          list_all encodable (map ?F rest) \<and>
          visited (stdout w2) = visited (stdout w1) @ map ?F rest \<and>
          n' + failures (stdout w2) = n1 + failures (stdout w1) + length rest \<and>
          list_all (\<lambda>rf. has_mirror input_dir output_dir w2 (fst rf)) rest
      | Inl e \<Rightarrow>
          \<not> (list_all (\<lambda>rf. has_mirror input_dir output_dir w1 (fst rf)) rest \<and>
             list_all encodable (map ?F rest)) \<and>
          ((\<exists>d v. fst (os_makedirs d v) = Inl e) \<or> e = ValueError ''no path specified'' \<or>
           (\<exists>f \<in> set (map ?F rest). \<not> encodable f \<and> e = UnicodeEncodeError f))"
      by blast
    from e1 e2 have e: "extends (fs w) (fs w2)"
      by (rule extends_trans)
    have u: "transcribe_loop env input_dir output_dir (rf # rest) n w = (r2, w2)"
      using b Inr l by simp
    show ?thesis
    proof (cases r2)
      case (Inl e')
      with k2 have a: "\<not> (list_all (\<lambda>rf. has_mirror input_dir output_dir w1 (fst rf)) rest \<and>
             list_all encodable (map ?F rest))"
        and o: "(\<exists>d v. fst (os_makedirs d v) = Inl e') \<or> e' = ValueError ''no path specified'' \<or>
           (\<exists>f \<in> set (map ?F rest). \<not> encodable f \<and> e' = UnicodeEncodeError f)"
        by simp_all
      from a have "\<not> (list_all (\<lambda>rf. has_mirror input_dir output_dir w (fst rf)) rest \<and>
             list_all encodable (map ?F rest))"
        using has_mirror_mono [OF e1 c1] by (auto simp: list_all_iff)
      with o Inl c1 c2 e show ?thesis
        unfolding u by auto
    next
      case r2: (Inr n2)
      from m1 e2 c2 have "has_mirror input_dir output_dir w2 (fst rf)"
        by (blast intro: has_mirror_mono)
      with r2 k2 v1 x1 c1 c2 e enc show ?thesis
        unfolding u by simp
    qed
  qed
qed

lemma find_audio_files_selected:
  "map (\<lambda>rf. path_join (fst rf) (snd rf)) (find_audio_files os_walk) = selected_audio os_walk"
proof -
  have "\<And>file. endswith_any (lower file) audio_suffixes = is_audio_name file"
    by (simp add: endswith_any_def audio_suffixes_def is_audio_name_def)
  then show ?thesis
    by (induction os_walk)
      (auto simp: find_audio_files_def selected_audio_def comp_def)
qed

lemma process_audio_directory_summary:
  "\<exists>r w'. process_audio_directory env os_walk input_dir output_dir w = (r, w') \<and>
     cwd w' = cwd w \<and> extends (fs w) (fs w') \<and>
     (case r of
        Inr n' \<Rightarrow>
          list_all encodable (selected_audio os_walk) \<and>
          visited (stdout w') = visited (stdout w) @ selected_audio os_walk \<and>
          n' + failures (stdout w') = failures (stdout w) + length (selected_audio os_walk) \<and>
          os_path_exists w' output_dir \<and>
          list_all (\<lambda>rf. has_mirror input_dir output_dir w' (fst rf))
            (find_audio_files os_walk)
      | Inl e \<Rightarrow>
          \<not> (os_path_exists w output_dir \<and>
             list_all (\<lambda>rf. has_mirror input_dir output_dir w (fst rf))
               (find_audio_files os_walk) \<and>
             list_all encodable (selected_audio os_walk)) \<and>
          ((\<exists>d v. fst (os_makedirs d v) = Inl e) \<or> e = ValueError ''no path specified'' \<or>
           (\<exists>f \<in> set (selected_audio os_walk). \<not> encodable f \<and> e = UnicodeEncodeError f)))"
proof -
  let ?files = "find_audio_files os_walk"
  let ?F = "\<lambda>rf. path_join (fst rf) (snd rf)"
  note sel = find_audio_files_selected [of os_walk]
  obtain r1 w1 where mk: "makedirs_if_missing output_dir w = (r1, w1)"
    by (cases "makedirs_if_missing output_dir w")
  then have c1: "cwd w1 = cwd w" and s1: "stdout w1 = stdout w"
    and e1: "extends (fs w) (fs w1)"
    using makedirs_if_missing_frame [of output_dir w] makedirs_if_missing_extends [of w output_dir]
    by simp_all
  show ?thesis
  proof (cases r1)
    case (Inl e)
    have missing: "\<not> os_path_exists w output_dir"
    proof
      assume "os_path_exists w output_dir"
      then have "makedirs_if_missing output_dir w = (Inr (), w)"
        by (rule makedirs_if_missing_present)
      with mk Inl show False by simp
    qed
    with mk Inl have "fst (os_makedirs output_dir w) = Inl e"
      by (simp add: makedirs_if_missing_def)
    then have "\<exists>d v. fst (os_makedirs d v) = Inl e"
      by blast
    with mk Inl c1 e1 missing show ?thesis
      by (simp add: process_audio_directory_def)
  next
    case (Inr u)
    with mk have d1: "os_path_exists w1 output_dir"
      by (auto intro: makedirs_if_missing_exists)
    let ?w2 = "emit (FoundAudioFiles (length ?files)) w1"
    from transcribe_loop_summary [of env input_dir output_dir ?files 0 ?w2]
    obtain r w' where l: "transcribe_loop env input_dir output_dir ?files 0 ?w2 = (r, w')"
      and c: "cwd w' = cwd ?w2" and e: "extends (fs ?w2) (fs w')"
      and k: "case r of
        Inr n' \<Rightarrow>
          list_all encodable (map ?F ?files) \<and>
          visited (stdout w') = visited (stdout ?w2) @ map ?F ?files \<and>
          n' + failures (stdout w') = 0 + failures (stdout ?w2) + length ?files \<and>
          list_all (\<lambda>rf. has_mirror input_dir output_dir w' (fst rf)) ?files
      | Inl e \<Rightarrow>
          \<not> (list_all (\<lambda>rf. has_mirror input_dir output_dir ?w2 (fst rf)) ?files \<and>
             list_all encodable (map ?F ?files)) \<and>
          ((\<exists>d v. fst (os_makedirs d v) = Inl e) \<or> e = ValueError ''no path specified'' \<or>
           (\<exists>f \<in> set (map ?F ?files). \<not> encodable f \<and> e = UnicodeEncodeError f))"
      by blast
    have pad: "process_audio_directory env os_walk input_dir output_dir w = (r, w')"
      using mk Inr l by (simp add: process_audio_directory_def print_ok)
    from e1 e have ext: "extends (fs w) (fs w')"
      by (auto intro: extends_trans)
    from e c d1 have d: "os_path_exists w' output_dir"
      by (auto intro: os_path_exists_mono)
    have len: "length (selected_audio os_walk) = length ?files"
      using sel [symmetric] by simp
    show ?thesis
    proof (cases r)
      case (Inl e')
      with k have a: "\<not> (list_all (\<lambda>rf. has_mirror input_dir output_dir ?w2 (fst rf)) ?files \<and>
             list_all encodable (map ?F ?files))"
        and o: "(\<exists>d v. fst (os_makedirs d v) = Inl e') \<or> e' = ValueError ''no path specified'' \<or>
           (\<exists>f \<in> set (map ?F ?files). \<not> encodable f \<and> e' = UnicodeEncodeError f)"
        by simp_all
      have "has_mirror input_dir output_dir w root \<Longrightarrow>
          has_mirror input_dir output_dir ?w2 root" for root
        using has_mirror_mono [of w ?w2 input_dir output_dir root] e1 c1 by simp
      with a have "\<not> (list_all (\<lambda>rf. has_mirror input_dir output_dir w (fst rf)) ?files \<and>
             list_all encodable (map ?F ?files))"
        by (auto simp: list_all_iff)
      with o Inl c c1 ext show ?thesis
        unfolding pad sel by simp
    next
      case (Inr n')
      with k c c1 ext d s1 len show ?thesis
        unfolding pad sel by simp
    qed
  qed
qed

lemma find_audio_files_iff:
  "(root, name) \<in> set (find_audio_files os_walk) \<longleftrightarrow>
   (\<exists>dirs files. (root, dirs, files) \<in> set os_walk \<and> name \<in> set files \<and> is_audio_name name)"
proof -
  have "\<And>f. endswith_any (lower f) audio_suffixes = is_audio_name f"
    by (simp add: endswith_any_def audio_suffixes_def is_audio_name_def)
  then show ?thesis
    by (induction os_walk) (auto simp: find_audio_files_def)
qed


subsection \<open>A sidecar reads back as what was written\<close>

lemma hex_value_table:
  "list_all (\<lambda>k. hex_value (hex_digit k) = Some k) [0 ..< 16]"
  by (simp add: hex_value_def hex_digit_def upt_conv_Cons)

lemma hex_value_digit: "k < 16 \<Longrightarrow> hex_value (hex_digit k) = Some k"
  using hex_value_table by (simp add: list_all_iff del: upt_Suc)

lemma code_point_low:
  "\<not> digit7 c \<Longrightarrow> json_code_point (CHR ''0'') (CHR ''0'') (hex_digit (of_char c div 16))
     (hex_digit (of_char c mod 16)) = Some c"
proof -
  assume a: "\<not> digit7 c"
  have lt: "(of_char c :: nat) < 128"
    using a by (cases c) simp
  then have d: "(of_char c :: nat) div 16 < 16"
    by arith
  have z: "hex_value (CHR ''0'') = Some 0"
    by (simp add: hex_value_def upt_conv_Cons)
  show ?thesis
    using lt by (simp add: json_code_point_def z hex_value_digit d)
qed

lemma code_point_high:
  "digit7 c \<Longrightarrow> json_code_point (CHR ''d'') (CHR ''c'') (hex_digit (of_char c div 16))
     (hex_digit (of_char c mod 16)) = Some c"
proof -
  assume a: "digit7 c"
  have ge: "(of_char c :: nat) \<ge> 128"
    using a by (cases c) simp
  have lt: "(of_char c :: nat) < 256"
    by (cases c) simp
  then have d: "(of_char c :: nat) div 16 < 16"
    by arith
  have z: "hex_value (CHR ''d'') = Some 13" "hex_value (CHR ''c'') = Some 12"
    by (simp_all add: hex_value_def upt_conv_Cons)
  have "((13 * 16 + 12) * 16 + of_char c div 16) * 16 + of_char c mod 16 = 56320 + (of_char c :: nat)"
    by simp
  moreover have "(of_char c :: nat) \<le> 255"
    using lt by arith
  ultimately show ?thesis
    using ge by (simp add: json_code_point_def z hex_value_digit d)
qed

lemma json_chars_escape:
  "json_chars (json_escape c @ rest) =
     (case json_chars rest of None \<Rightarrow> None | Some (s, r) \<Rightarrow> Some (c # s, r))"
proof (cases "digit7 c")
  case True
  then have "c \<noteq> CHR 0x22" "c \<noteq> CHR 0x5C" "c \<noteq> CHR 0x0A" "c \<noteq> CHR 0x0D" "c \<noteq> CHR 0x09"
    "c \<noteq> CHR 0x08" "c \<noteq> CHR 0x0C"
    by auto
  with True show ?thesis
    by (simp add: json_escape_def hex2_def code_point_high)
next
  case False
  show ?thesis
  proof (cases "c \<in> {CHR 0x22, CHR 0x5C, CHR 0x0A, CHR 0x0D, CHR 0x09, CHR 0x08, CHR 0x0C}")
    case True
    then show ?thesis
      by (auto simp: json_escape_def json_simple_escape_def)
  next
    case n: False
    show ?thesis
    proof (cases "of_char c < (32::nat) \<or> c = CHR 0x7F")
      case True
      with n False show ?thesis
        by (simp add: json_escape_def hex2_def code_point_low)
    next
      case False
      with n \<open>\<not> digit7 c\<close> show ?thesis
        by (simp add: json_escape_def)
    qed
  qed
qed

lemma json_chars_string:
  "json_chars (concat (map json_escape s) @ CHR 0x22 # rest) = Some (s, rest)"
proof (induction s)
  case Nil
  show ?case
    by simp
next
  case (Cons c s)
  have "json_chars (concat (map json_escape (c # s)) @ CHR 0x22 # rest) =
        json_chars (json_escape c @ (concat (map json_escape s) @ CHR 0x22 # rest))"
    by simp
  also have "\<dots> = Some (c # s, rest)"
    unfolding json_chars_escape Cons.IH by simp
  finally show ?case .
qed


lemma set_item_fresh: "k \<notin> fst ` set acc \<Longrightarrow> set_item k v acc = acc @ [(k, v)]"
  by (induction acc) auto

lemma json_ws_simps:
  "json_ws [] = []"
  "json_ws (CHR '' '' # s) = json_ws s"
  "json_ws (CHR 0x0A # s) = json_ws s"
  "json_ws (CHR 0x22 # s) = CHR 0x22 # s"
  "json_ws (CHR '':'' # s) = CHR '':'' # s"
  "json_ws (CHR '','' # s) = CHR '','' # s"
  "json_ws (CHR ''{'' # s) = CHR ''{'' # s"
  "json_ws (CHR ''}'' # s) = CHR ''}'' # s"
  by (simp_all add: json_ws_def json_space_def)

lemma json_member_text:
  "json_ws r = c # r' \<Longrightarrow>
   json_members (Suc n) acc (json_string k @ '': '' @ json_string v @ r) =
     (if c = CHR ''}'' then Some (set_item k v acc, r')
      else if c = CHR '','' then json_members n (set_item k v acc) (json_ws r')
      else None)"
  by (simp add: json_string_def json_chars_string json_ws_simps del: json_chars.simps)

lemma json_items_hd: "obj \<noteq> [] \<Longrightarrow> \<exists>t. json_items obj = CHR 0x22 # t"
  by (induction obj rule: json_items.induct) (simp_all add: json_string_def)

lemma json_items_length: "length obj \<le> length (json_items obj)"
  by (induction obj rule: json_items.induct) (simp_all add: json_string_def)

lemma json_members_items:
  "obj \<noteq> [] \<Longrightarrow> distinct (map fst obj) \<Longrightarrow> fst ` set acc \<inter> fst ` set obj = {} \<Longrightarrow>
   length obj \<le> n \<Longrightarrow>
   json_members n acc (json_items obj @ CHR 0x0A # CHR ''}'' # rest) = Some (acc @ obj, rest)"
proof (induction obj arbitrary: n acc rule: json_items.induct)
  case 1
  then show ?case
    by simp
next
  case (2 k v)
  then obtain m where n: "n = Suc m"
    by (cases n) auto
  have "json_ws (CHR 0x0A # CHR ''}'' # rest) = CHR ''}'' # rest"
    by (simp add: json_ws_simps)
  from json_member_text [OF this, of m acc k v] 2 show ?case
    by (simp add: n set_item_fresh)
next
  case (3 k v kv kvs)
  then obtain m where n: "n = Suc m"
    by (cases n) auto
  obtain t where t: "json_items (kv # kvs) = CHR 0x22 # t"
    using json_items_hd [of "kv # kvs"] by auto
  let ?r = "CHR '','' # CHR 0x0A # ''  '' @ json_items (kv # kvs) @ CHR 0x0A # CHR ''}'' # rest"
  have w: "json_ws ?r = CHR '','' # CHR 0x0A # ''  '' @ json_items (kv # kvs) @ CHR 0x0A # CHR ''}'' # rest"
    by (simp add: json_ws_simps)
  have w2: "json_ws (CHR 0x0A # ''  '' @ json_items (kv # kvs) @ CHR 0x0A # CHR ''}'' # rest) =
            json_items (kv # kvs) @ CHR 0x0A # CHR ''}'' # rest"
    by (simp add: json_ws_simps t)
  have fresh: "k \<notin> fst ` set acc"
    using 3(4) by auto
  have ih: "json_members m (acc @ [(k, v)]) (json_items (kv # kvs) @ CHR 0x0A # CHR ''}'' # rest) =
        Some ((acc @ [(k, v)]) @ kv # kvs, rest)"
  proof (rule 3(1))
    show "kv # kvs \<noteq> []"
      by simp
    show "distinct (map fst (kv # kvs))"
      using 3(3) by simp
    show "fst ` set (acc @ [(k, v)]) \<inter> fst ` set (kv # kvs) = {}"
      using 3(3) 3(4) by auto
    show "length (kv # kvs) \<le> m"
      using 3(5) n by simp
  qed
  have step: "json_members (Suc m) acc (json_string k @ '': '' @ json_string v @ ?r) =
        json_members m (acc @ [(k, v)]) (json_items (kv # kvs) @ CHR 0x0A # CHR ''}'' # rest)"
    unfolding json_member_text [OF w] set_item_fresh [OF fresh] w2 by simp
  have shape: "json_items ((k, v) # kv # kvs) @ CHR 0x0A # CHR ''}'' # rest =
        json_string k @ '': '' @ json_string v @ ?r"
    by simp
  show ?case
    unfolding n shape step ih by simp
qed

lemma json_round_trip:
  "distinct (map fst obj) \<Longrightarrow> json_loads (json_dumps obj) = Some obj"
proof (cases "obj = []")
  case True
  then show ?thesis
    by (simp add: json_loads_def json_dumps_def json_ws_simps)
next
  case False
  assume d: "distinct (map fst obj)"
  obtain t where t: "json_items obj = CHR 0x22 # t"
    using json_items_hd [OF False] by auto
  let ?s = "json_dumps obj"
  have len: "length obj \<le> length ?s"
    using json_items_length [of obj] False by (simp add: json_dumps_def)
  have "json_members (length ?s) [] (json_items obj @ CHR 0x0A # CHR ''}'' # []) = Some ([] @ obj, [])"
    by (rule json_members_items [OF False d _ len]) simp
  then show ?thesis
    using False by (simp add: json_loads_def json_dumps_def json_ws_simps t del: json_members.simps)
qed

lemma json_load_written:
  "read_file w p = Some (Json obj) \<Longrightarrow> distinct (map fst obj) \<Longrightarrow> json_load w p = Some obj"
  by (simp add: json_load_def json_round_trip)

subsection \<open>The examples, evaluated\<close>

lemmas path_eval =
  path_join_def path_split_def splitext_def rfind_def rstrip_def sep_def extsep_def
  output_dir_or_default_def video_cmd_def audio_cmd_def mirror_dir_def

lemmas model_eval =
  process_audio_directory_def find_audio_files_def audio_suffixes_def endswith_any_def
  endswith_def lower_def lower_char_def transcribe_body_def transcribe_persist_def
  transcribe_audio_with_whisper_def transcribe_try_def whisper_load_model_def
  model_transcribe_def makedirs_if_missing_def os_makedirs_def last_name_def open_write_def
  relpath_def abspath_def read_file_def print_def emit_def Let_def
  process_directory_recursively_def split_video_audio_def run_extraction_def split_try_def
  subprocess_run_check_def
  ex_walk_def ex_env_def ex_env_bad_def ex_env_noload_def ex_env_silent_def ex_env_down_def
  ex_ffmpeg_def
  path_join_def path_split_def splitext_def rfind_def rstrip_def extsep_def
  output_dir_or_default_def video_cmd_def audio_cmd_def mirror_dir_def
  os_path_exists_def resolve_def start_dir_def sep_def is_dir_def ex_world_def ex_fs_def

lemma ex_derived:
  "output_dir_or_default ''in/VIDEO.MP4'' (Some ''out'') = ''out''"
  "output_dir_or_default ''in/VIDEO.MP4'' None = ''in''"
  "fst (splitext (snd (path_split ''in/VIDEO.MP4''))) = ''VIDEO''"
  "path_join ''out'' ''VIDEO_video.mp4'' = ''out/VIDEO_video.mp4''"
  "path_join ''out'' ''VIDEO_audio.wav'' = ''out/VIDEO_audio.wav''"
  by (simp_all add: path_eval)

lemma ex_makedirs_out:
  "makedirs_if_missing ''out'' ex_world = (Inr (), ex_world\<lparr>fs := ex_fs([''out''] \<mapsto> Dir)\<rparr>)"
  by (simp add: makedirs_if_missing_def os_makedirs_def last_name_def fs_eval)

lemma ex_video_exists: "os_path_exists ex_world ''in/VIDEO.MP4''"
  by (simp add: fs_eval)

lemma ex_bad_video_run:
  "subprocess_run_check ex_env_bad (video_cmd ''in/VIDEO.MP4'' ''out/VIDEO_video.mp4'') w =
     (Inl (CalledProcessError 1 (video_cmd ''in/VIDEO.MP4'' ''out/VIDEO_video.mp4'')),
      w\<lparr>fs := fs w,
        calls := calls w @ [Run (video_cmd ''in/VIDEO.MP4'' ''out/VIDEO_video.mp4'')]\<rparr>)"
  by (simp add: subprocess_run_check_def ex_env_bad_def video_cmd_def)

lemma ex_paths_a:
  "path_join ''in'' ''a.mp3'' = ''in/a.mp3''"
  "mirror_dir ''out'' ''.'' = ''out''"
  "path_join ''out'' (fst (splitext ''a.mp3'') @ ''.txt'') = ''out/a.txt''"
  "path_join ''out'' (fst (splitext ''a.mp3'') @ ''.json'') = ''out/a.json''"
  by (simp_all add: path_eval)

lemma ex_bad_run:
  "process_audio_directory ex_env_bad ex_walk ''in'' ''out'' ex_world = (Inr 2, ex_bad_final)"
  by (simp add: model_eval ex_bad_final_def)

lemma ex_bad_split_run:
  "process_directory_recursively ex_env_bad ex_walk ''in'' ''out'' ex_world =
     (Inr 1, ex_bad_split_final)"
  by (simp add: model_eval is_video_name_def ex_bad_split_final_def)


lemma ex_demux_errors_printable: "demux_errors_printable ex_env_bad"
  by (simp add: demux_errors_printable_def ex_env_bad_def ex_ffmpeg_def)

lemma ex_selected:
  "selected_videos ex_walk = [''in/VIDEO.MP4'', ''in/sub/talk.mp4'']"
  "selected_audio ex_walk = [''in/a.mp3'', ''in/b.mp3'', ''in/sub/clip_audio.wav'']"
  "find_audio_files ex_walk =
     [(''in'', ''a.mp3''), (''in'', ''b.mp3''), (''in/sub'', ''clip_audio.wav'')]"
  "list_all (\<lambda>triple. fst triple \<noteq> []) ex_walk"
  by (simp_all add: selected_videos_def selected_audio_def is_video_name_def is_audio_name_def
        model_eval)




section \<open>The transcribe operation and its caller\<close>

text \<open>
  C7 (as stated): \<open>transcribe_audio_with_whisper\<close> never raises to its caller, for every
  audio path. The first \<open>print\<close> of the function, which shows the path, is before the
  \<open>try\<close>. For the audio file whose name is the byte \<open>0xFF\<close> followed by \<open>.mp3\<close>, a name
  the batch selects, that \<open>print\<close> raises \<open>UnicodeEncodeError\<close>, which leaves the function;
  nothing has been printed and no collaborator has been called.
\<close>

theorem unprintable_path_raises_counterexample:
  "is_audio_name ([CHR 0xFF] @ ''.mp3'') \<and>
   \<not> encodable ex_raw_audio \<and>
   transcribe_audio_with_whisper ex_env ex_raw_audio ''en'' ex_world =
     (Inl (UnicodeEncodeError ex_raw_audio), ex_world)"
proof -
  have "is_audio_name ([CHR 0xFF] @ ''.mp3'')"
    by (simp add: is_audio_name_def endswith_def lower_def lower_char_def)
  moreover have n: "\<not> encodable ex_raw_audio"
    by (simp add: ex_raw_audio_def)
  moreover from n have "transcribe_audio_with_whisper ex_env ex_raw_audio ''en'' ex_world =
     (Inl (UnicodeEncodeError ex_raw_audio), ex_world)"
    by (simp add: transcribe_audio_with_whisper_def print_fails)
  ultimately show ?thesis
    by (intro conjI)
qed

text \<open>
  C7 (amended): for an audio path that standard output can encode,
  \<open>transcribe_audio_with_whisper\<close> returns a string whenever the text of the exception that
  loading the model or the inference raises, if any, can be encoded too. If the file does
  not exist it prints the not-found message and returns the empty string, without any call
  of the collaborator. If loading the model or the inference raises, the exception is
  caught and printed, and the empty string is returned. For a path that cannot be encoded
  the function raises \<open>UnicodeEncodeError\<close> at once.
\<close>

theorem transcribe_returns_when_printable:
  "(encodable audio_file \<and>
    (\<forall>e. load_model env ''tiny'' = Some e \<or>
         load_model env ''tiny'' = None \<and> transcribe env audio_file language = Inl e \<longrightarrow>
         encodable (exn_text e)) \<longrightarrow>
      (\<exists>t. fst (transcribe_audio_with_whisper env audio_file language w) = Inr t)) \<and>
   (encodable audio_file \<and> \<not> os_path_exists w audio_file \<longrightarrow>
      transcribe_audio_with_whisper env audio_file language w =
        (Inr [], emit (AudioNotFound audio_file) (emit (Processing audio_file) w))) \<and>
   (encodable audio_file \<and> os_path_exists w audio_file \<and>
    load_model env ''tiny'' = Some e \<and> encodable (exn_text e) \<longrightarrow>
      fst (transcribe_audio_with_whisper env audio_file language w) = Inr [] \<and>
      stdout (snd (transcribe_audio_with_whisper env audio_file language w)) =
        stdout w @ [Processing audio_file, LoadingModel, UnexpectedError e]) \<and>
   (encodable audio_file \<and> os_path_exists w audio_file \<and>
    load_model env ''tiny'' = None \<and> transcribe env audio_file language = Inl e \<and>
    encodable (exn_text e) \<longrightarrow>
      fst (transcribe_audio_with_whisper env audio_file language w) = Inr [] \<and>
      stdout (snd (transcribe_audio_with_whisper env audio_file language w)) =
        stdout w @ [Processing audio_file, LoadingModel, Transcribing audio_file,
                    UnexpectedError e]) \<and>
   (\<not> encodable audio_file \<longrightarrow>
      transcribe_audio_with_whisper env audio_file language w =
        (Inl (UnicodeEncodeError audio_file), w))"
proof (intro conjI impI)
  assume h: "encodable audio_file \<and>
    (\<forall>e. load_model env ''tiny'' = Some e \<or>
         load_model env ''tiny'' = None \<and> transcribe env audio_file language = Inl e \<longrightarrow>
         encodable (exn_text e))"
  show "\<exists>t. fst (transcribe_audio_with_whisper env audio_file language w) = Inr t"
  proof (cases "fst (transcribe_audio_with_whisper env audio_file language w)")
    case (Inl e)
    with h transcribe_raises_cause [of audio_file env language w e] show ?thesis
      by blast
  next
    case (Inr t)
    then show ?thesis
      by simp
  qed
next
  assume "encodable audio_file \<and> \<not> os_path_exists w audio_file"
  then show "transcribe_audio_with_whisper env audio_file language w =
        (Inr [], emit (AudioNotFound audio_file) (emit (Processing audio_file) w))"
    by (simp add: transcribe_audio_with_whisper_def transcribe_try_def print_ok)
next
  assume h: "encodable audio_file \<and> os_path_exists w audio_file \<and>
    load_model env ''tiny'' = Some e \<and> encodable (exn_text e)"
  then have "transcribe_audio_with_whisper env audio_file language w =
      (Inr [], emit (UnexpectedError e)
         ((emit LoadingModel (emit (Processing audio_file) w))
            \<lparr>calls := calls w @ [LoadModel ''tiny'']\<rparr>))"
    by (simp add: transcribe_audio_with_whisper_def transcribe_try_def print_ok
          whisper_load_model_def)
  then show "fst (transcribe_audio_with_whisper env audio_file language w) = Inr []"
    and "stdout (snd (transcribe_audio_with_whisper env audio_file language w)) =
        stdout w @ [Processing audio_file, LoadingModel, UnexpectedError e]"
    by simp_all
next
  assume h: "encodable audio_file \<and> os_path_exists w audio_file \<and>
    load_model env ''tiny'' = None \<and> transcribe env audio_file language = Inl e \<and>
    encodable (exn_text e)"
  then have "transcribe_audio_with_whisper env audio_file language w =
      (Inr [], emit (UnexpectedError e)
         ((emit (Transcribing audio_file)
            ((emit LoadingModel (emit (Processing audio_file) w))
               \<lparr>calls := calls w @ [LoadModel ''tiny'']\<rparr>))
            \<lparr>calls := calls w @ [LoadModel ''tiny'', Transcribe audio_file language]\<rparr>))"
    by (simp add: transcribe_audio_with_whisper_def transcribe_try_def print_ok
          whisper_load_model_def model_transcribe_def)
  then show "fst (transcribe_audio_with_whisper env audio_file language w) = Inr []"
    and "stdout (snd (transcribe_audio_with_whisper env audio_file language w)) =
        stdout w @ [Processing audio_file, LoadingModel, Transcribing audio_file,
                    UnexpectedError e]"
    by simp_all
next
  assume "\<not> encodable audio_file"
  then show "transcribe_audio_with_whisper env audio_file language w =
        (Inl (UnicodeEncodeError audio_file), w)"
    by (simp add: transcribe_audio_with_whisper_def print_fails)
qed

theorem transcribe_returns_when_printable_witness:
  "encodable ''in/missing.mp3'' \<and> \<not> os_path_exists ex_world ''in/missing.mp3'' \<and>
   transcribe_audio_with_whisper ex_env ''in/missing.mp3'' ''en'' ex_world =
     (Inr [], emit (AudioNotFound ''in/missing.mp3'')
                (emit (Processing ''in/missing.mp3'') ex_world)) \<and>
   encodable ''in/a.mp3'' \<and> os_path_exists ex_world ''in/a.mp3'' \<and>
   load_model ex_env_noload ''tiny'' = Some (OtherException ''download failed'') \<and>
   fst (transcribe_audio_with_whisper ex_env_noload ''in/a.mp3'' ''en'' ex_world) = Inr [] \<and>
   encodable ''in/b.mp3'' \<and> os_path_exists ex_world ''in/b.mp3'' \<and>
   load_model ex_env_bad ''tiny'' = None \<and>
   transcribe ex_env_bad ''in/b.mp3'' ''en'' = Inl (OtherException ''cannot decode'') \<and>
   fst (transcribe_audio_with_whisper ex_env_bad ''in/b.mp3'' ''en'' ex_world) = Inr [] \<and>
   stdout (snd (transcribe_audio_with_whisper ex_env_bad ''in/b.mp3'' ''en'' ex_world)) =
     [Processing ''in/b.mp3'', LoadingModel, Transcribing ''in/b.mp3'',
      UnexpectedError (OtherException ''cannot decode'')] \<and>
   fst (transcribe_audio_with_whisper ex_env ''in/a.mp3'' ''en'' ex_world) =
     Inr ''hello world'' \<and>
   \<not> encodable ex_raw_audio \<and>
   fst (transcribe_audio_with_whisper ex_env_bad ex_raw_audio ''en'' ex_world) =
     Inl (UnicodeEncodeError ex_raw_audio)"
proof -
  let ?x = "OtherException ''download failed''"
  let ?y = "OtherException ''cannot decode''"
  note t = transcribe_returns_when_printable [where language = "''en''" and w = ex_world]
  have missing: "\<not> os_path_exists ex_world ''in/missing.mp3''"
    by (simp add: fs_eval)
  have a: "os_path_exists ex_world ''in/a.mp3''"
    by (simp add: fs_eval)
  have b: "os_path_exists ex_world ''in/b.mp3''"
    by (simp add: fs_eval)
  have noload: "load_model ex_env_noload ''tiny'' = Some ?x"
    by (simp add: ex_env_noload_def)
  have bad: "load_model ex_env_bad ''tiny'' = None"
    "transcribe ex_env_bad ''in/b.mp3'' ''en'' = Inl ?y"
    by (simp_all add: ex_env_bad_def)
  have out: "stdout ex_world = []"
    by (simp add: ex_world_def)
  have e1: "encodable ''in/missing.mp3''" and e2: "encodable ''in/a.mp3''"
    and e3: "encodable ''in/b.mp3''" and e4: "encodable (exn_text ?x)"
    and e5: "encodable (exn_text ?y)" and e6: "\<not> encodable ex_raw_audio"
    by (simp_all add: ex_raw_audio_def)
  have h1: "encodable ''in/missing.mp3'' \<and> \<not> os_path_exists ex_world ''in/missing.mp3''"
    using e1 missing by simp
  have r1: "transcribe_audio_with_whisper ex_env ''in/missing.mp3'' ''en'' ex_world =
     (Inr [], emit (AudioNotFound ''in/missing.mp3'')
                (emit (Processing ''in/missing.mp3'') ex_world))"
    using t [where env = ex_env and audio_file = "''in/missing.mp3''" and e = ?x,
        THEN conjunct2, THEN conjunct1] h1
    by (rule mp)
  have h2: "encodable ''in/a.mp3'' \<and> os_path_exists ex_world ''in/a.mp3'' \<and>
      load_model ex_env_noload ''tiny'' = Some ?x \<and> encodable (exn_text ?x)"
    using e2 a noload e4 by simp
  have r2: "fst (transcribe_audio_with_whisper ex_env_noload ''in/a.mp3'' ''en'' ex_world) =
        Inr [] \<and>
      stdout (snd (transcribe_audio_with_whisper ex_env_noload ''in/a.mp3'' ''en'' ex_world)) =
        stdout ex_world @ [Processing ''in/a.mp3'', LoadingModel, UnexpectedError ?x]"
    using t [where env = ex_env_noload and audio_file = "''in/a.mp3''" and e = ?x,
        THEN conjunct2, THEN conjunct2, THEN conjunct1] h2
    by (rule mp)
  have h3: "encodable ''in/b.mp3'' \<and> os_path_exists ex_world ''in/b.mp3'' \<and>
      load_model ex_env_bad ''tiny'' = None \<and>
      transcribe ex_env_bad ''in/b.mp3'' ''en'' = Inl ?y \<and> encodable (exn_text ?y)"
    using e3 b bad e5 by simp
  have r3: "fst (transcribe_audio_with_whisper ex_env_bad ''in/b.mp3'' ''en'' ex_world) =
        Inr [] \<and>
      stdout (snd (transcribe_audio_with_whisper ex_env_bad ''in/b.mp3'' ''en'' ex_world)) =
        stdout ex_world @ [Processing ''in/b.mp3'', LoadingModel, Transcribing ''in/b.mp3'',
                    UnexpectedError ?y]"
    using t [where env = ex_env_bad and audio_file = "''in/b.mp3''" and e = ?y,
        THEN conjunct2, THEN conjunct2, THEN conjunct2, THEN conjunct1] h3
    by (rule mp)
  have h4: "encodable ''in/a.mp3'' \<and>
    (\<forall>e. load_model ex_env ''tiny'' = Some e \<or>
         load_model ex_env ''tiny'' = None \<and> transcribe ex_env ''in/a.mp3'' ''en'' = Inl e \<longrightarrow>
         encodable (exn_text e))"
    using e2 by (simp add: ex_env_def)
  have "\<exists>t. fst (transcribe_audio_with_whisper ex_env ''in/a.mp3'' ''en'' ex_world) = Inr t"
    using t [where env = ex_env and audio_file = "''in/a.mp3''" and e = ?x, THEN conjunct1] h4
    by (rule mp)
  then have r4: "fst (transcribe_audio_with_whisper ex_env ''in/a.mp3'' ''en'' ex_world) =
      Inr ''hello world''"
    by (simp add: model_eval)
  have r5: "transcribe_audio_with_whisper ex_env_bad ex_raw_audio ''en'' ex_world =
        (Inl (UnicodeEncodeError ex_raw_audio), ex_world)"
    using t [where env = ex_env_bad and audio_file = ex_raw_audio and e = ?x,
        THEN conjunct2, THEN conjunct2, THEN conjunct2, THEN conjunct2] e6
    by (rule mp)
  from r2 have r2': "fst (transcribe_audio_with_whisper ex_env_noload ''in/a.mp3'' ''en''
      ex_world) = Inr []"
    by (rule conjunct1)
  from r3 out have r3a: "fst (transcribe_audio_with_whisper ex_env_bad ''in/b.mp3'' ''en''
      ex_world) = Inr []"
    and r3b: "stdout (snd (transcribe_audio_with_whisper ex_env_bad ''in/b.mp3'' ''en''
      ex_world)) = [Processing ''in/b.mp3'', LoadingModel, Transcribing ''in/b.mp3'',
        UnexpectedError ?y]"
    by simp_all
  from r5 have r5': "fst (transcribe_audio_with_whisper ex_env_bad ex_raw_audio ''en''
      ex_world) = Inl (UnicodeEncodeError ex_raw_audio)"
    by simp
  from e1 missing r1 e2 a noload r2' e3 b bad r3a r3b r4 e6 r5' show ?thesis
    by (intro conjI)
qed


section \<open>The split operation\<close>

text \<open>
  C6: \<open>split_video_audio\<close> raises \<open>FileNotFoundError\<close> when the input file does not
  exist, and it does so first: the world is left as it was, so no process has been run
  and nothing has been created. When the first run of the demux tool (the video
  extraction) fails, the function raises that exception at once: the only process run is
  the video command, the audio command is never attempted. The tool is run once the line
  that announces the video extraction is printed; when that line cannot be encoded the
  function raises before any process is run.
\<close>

theorem split_fails_without_partial_success:
  "(\<not> os_path_exists w input_file \<longrightarrow>
      split_video_audio env input_file output_dir w =
        (Inl (FileNotFoundError (''Input file not found: '' @ input_file)), w)) \<and>
   (os_path_exists w input_file \<and>
    makedirs_if_missing (output_dir_or_default input_file output_dir) w = (Inr (), w1) \<and>
    encodable
      (path_join (output_dir_or_default input_file output_dir)
         (fst (splitext (snd (path_split input_file))) @ ''_video.mp4'')) \<and>
    subprocess_run_check env
      (video_cmd input_file
         (path_join (output_dir_or_default input_file output_dir)
            (fst (splitext (snd (path_split input_file))) @ ''_video.mp4'')))
      (emit (ExtractingVideo
         (path_join (output_dir_or_default input_file output_dir)
            (fst (splitext (snd (path_split input_file))) @ ''_video.mp4''))) w1) =
      (Inl e, w2) \<longrightarrow>
      split_video_audio env input_file output_dir w = (Inl e, w2) \<and>
      calls w2 = calls w @
        [Run (video_cmd input_file
           (path_join (output_dir_or_default input_file output_dir)
              (fst (splitext (snd (path_split input_file))) @ ''_video.mp4'')))]) \<and>
   (os_path_exists w input_file \<and>
    makedirs_if_missing (output_dir_or_default input_file output_dir) w = (Inr (), w1) \<and>
    \<not> encodable
      (path_join (output_dir_or_default input_file output_dir)
         (fst (splitext (snd (path_split input_file))) @ ''_video.mp4'')) \<longrightarrow>
      split_video_audio env input_file output_dir w =
        (Inl (UnicodeEncodeError
           (path_join (output_dir_or_default input_file output_dir)
              (fst (splitext (snd (path_split input_file))) @ ''_video.mp4''))), w1) \<and>
      calls w1 = calls w)"
proof (intro conjI impI)
  assume "\<not> os_path_exists w input_file"
  then show "split_video_audio env input_file output_dir w =
        (Inl (FileNotFoundError (''Input file not found: '' @ input_file)), w)"
    by (simp add: split_video_audio_def)
next
  let ?od = "output_dir_or_default input_file output_dir"
  let ?v = "path_join ?od (fst (splitext (snd (path_split input_file))) @ ''_video.mp4'')"
  assume h: "os_path_exists w input_file \<and> makedirs_if_missing ?od w = (Inr (), w1) \<and>
    encodable ?v \<and>
    subprocess_run_check env (video_cmd input_file ?v) (emit (ExtractingVideo ?v) w1) =
      (Inl e, w2)"
  then show "split_video_audio env input_file output_dir w = (Inl e, w2)"
    by (simp add: split_video_audio_def run_extraction_def Let_def print_ok)
  from h have "calls w1 = calls w"
    using makedirs_if_missing_frame(1) [of ?od w] by simp
  moreover from h have
    "calls w2 = calls (emit (ExtractingVideo ?v) w1) @ [Run (video_cmd input_file ?v)]"
    using subprocess_run_check_frame(1)
      [of env "video_cmd input_file ?v" "emit (ExtractingVideo ?v) w1"]
    by simp
  ultimately show "calls w2 = calls w @ [Run (video_cmd input_file ?v)]"
    by simp
next
  let ?od = "output_dir_or_default input_file output_dir"
  let ?v = "path_join ?od (fst (splitext (snd (path_split input_file))) @ ''_video.mp4'')"
  assume h: "os_path_exists w input_file \<and> makedirs_if_missing ?od w = (Inr (), w1) \<and>
    \<not> encodable ?v"
  then show "split_video_audio env input_file output_dir w =
      (Inl (UnicodeEncodeError ?v), w1)"
    by (simp add: split_video_audio_def run_extraction_def Let_def print_fails)
  from h show "calls w1 = calls w"
    using makedirs_if_missing_frame(1) [of ?od w] by simp
qed

theorem split_fails_without_partial_success_witness:
  "\<not> os_path_exists ex_world ''in/missing.mp4'' \<and>
   split_video_audio ex_env ''in/missing.mp4'' None ex_world =
     (Inl (FileNotFoundError ''Input file not found: in/missing.mp4''), ex_world) \<and>
   os_path_exists ex_world ''in/VIDEO.MP4'' \<and>
   encodable ''out/VIDEO_video.mp4'' \<and>
   fst (split_video_audio ex_env_bad ''in/VIDEO.MP4'' (Some ''out'') ex_world) =
     Inl (CalledProcessError 1
            [''ffmpeg'', ''-i'', ''in/VIDEO.MP4'', ''-c:v'', ''copy'', ''-an'',
             ''out/VIDEO_video.mp4'']) \<and>
   calls (snd (split_video_audio ex_env_bad ''in/VIDEO.MP4'' (Some ''out'') ex_world)) =
     [Run [''ffmpeg'', ''-i'', ''in/VIDEO.MP4'', ''-c:v'', ''copy'', ''-an'',
           ''out/VIDEO_video.mp4'']] \<and>
   os_path_exists ex_world_raw (ex_raw_dir @ ''/v.mp4'') \<and>
   \<not> encodable (ex_raw_dir @ ''/v_video.mp4'') \<and>
   split_video_audio ex_env (ex_raw_dir @ ''/v.mp4'') None ex_world_raw =
     (Inl (UnicodeEncodeError (ex_raw_dir @ ''/v_video.mp4'')), ex_world_raw)"
proof -
  let ?cmd = "video_cmd ''in/VIDEO.MP4'' ''out/VIDEO_video.mp4''"
  let ?w1 = "ex_world\<lparr>fs := ex_fs([''out''] \<mapsto> Dir)\<rparr>"
  let ?w2 = "snd (subprocess_run_check ex_env_bad ?cmd
                (emit (ExtractingVideo ''out/VIDEO_video.mp4'') ?w1))"
  let ?raw = "ex_raw_dir @ ''/v.mp4''"
  have missing: "\<not> os_path_exists ex_world ''in/missing.mp4''"
    by (simp add: fs_eval)
  have none: "calls ex_world = []"
    by (simp add: ex_world_def)
  have enc: "encodable ''out/VIDEO_video.mp4''"
    by simp
  have run: "subprocess_run_check ex_env_bad ?cmd
      (emit (ExtractingVideo ''out/VIDEO_video.mp4'') ?w1) =
        (Inl (CalledProcessError 1 ?cmd), ?w2)"
    by (simp add: ex_bad_video_run)
  have a: "split_video_audio ex_env ''in/missing.mp4'' None ex_world =
     (Inl (FileNotFoundError (''Input file not found: '' @ ''in/missing.mp4'')), ex_world)"
    using split_fails_without_partial_success
        [where w = ex_world and input_file = "''in/missing.mp4''" and env = ex_env
           and output_dir = None, THEN conjunct1] missing
    by (rule mp)
  have h: "os_path_exists ex_world ''in/VIDEO.MP4'' \<and>
    makedirs_if_missing (output_dir_or_default ''in/VIDEO.MP4'' (Some ''out'')) ex_world =
      (Inr (), ?w1) \<and>
    encodable
      (path_join (output_dir_or_default ''in/VIDEO.MP4'' (Some ''out''))
         (fst (splitext (snd (path_split ''in/VIDEO.MP4''))) @ ''_video.mp4'')) \<and>
    subprocess_run_check ex_env_bad
      (video_cmd ''in/VIDEO.MP4''
         (path_join (output_dir_or_default ''in/VIDEO.MP4'' (Some ''out''))
            (fst (splitext (snd (path_split ''in/VIDEO.MP4''))) @ ''_video.mp4'')))
      (emit (ExtractingVideo
         (path_join (output_dir_or_default ''in/VIDEO.MP4'' (Some ''out''))
            (fst (splitext (snd (path_split ''in/VIDEO.MP4''))) @ ''_video.mp4''))) ?w1) =
      (Inl (CalledProcessError 1 ?cmd), ?w2)"
    using run by (simp add: ex_derived ex_makedirs_out ex_video_exists)
  have b: "split_video_audio ex_env_bad ''in/VIDEO.MP4'' (Some ''out'') ex_world =
        (Inl (CalledProcessError 1 ?cmd), ?w2) \<and>
      calls ?w2 = calls ex_world @
        [Run (video_cmd ''in/VIDEO.MP4''
           (path_join (output_dir_or_default ''in/VIDEO.MP4'' (Some ''out''))
              (fst (splitext (snd (path_split ''in/VIDEO.MP4''))) @ ''_video.mp4'')))]"
    using split_fails_without_partial_success
        [where w = ex_world and input_file = "''in/VIDEO.MP4''" and env = ex_env_bad
           and output_dir = "Some ''out''" and ?w1.0 = ?w1 and ?w2.0 = ?w2
           and e = "CalledProcessError 1 ?cmd", THEN conjunct2, THEN conjunct1] h
    by (rule mp)
  from b have
    b1: "fst (split_video_audio ex_env_bad ''in/VIDEO.MP4'' (Some ''out'') ex_world) =
      Inl (CalledProcessError 1 ?cmd)"
    and b2: "calls (snd (split_video_audio ex_env_bad ''in/VIDEO.MP4'' (Some ''out'')
        ex_world)) = calls ex_world @ [Run ?cmd]"
    by (simp_all add: ex_derived)
  have raw_exists: "os_path_exists ex_world_raw ?raw"
    by (simp add: ex_world_raw_def ex_raw_dir_def os_path_exists_def resolve_def start_dir_def
          sep_def is_dir_def)
  have raw_od: "output_dir_or_default ?raw None = ex_raw_dir"
    by (simp add: ex_raw_dir_def path_eval)
  have raw_v: "path_join ex_raw_dir (fst (splitext (snd (path_split ?raw))) @ ''_video.mp4'') =
      ex_raw_dir @ ''/v_video.mp4''"
    by (simp add: ex_raw_dir_def path_eval)
  have raw_dir: "os_path_exists ex_world_raw ex_raw_dir"
    by (simp add: ex_world_raw_def ex_raw_dir_def os_path_exists_def resolve_def start_dir_def
          sep_def is_dir_def)
  have raw_enc: "\<not> encodable (ex_raw_dir @ ''/v_video.mp4'')"
    by (simp add: ex_raw_dir_def)
  have h3: "os_path_exists ex_world_raw ?raw \<and>
    makedirs_if_missing (output_dir_or_default ?raw None) ex_world_raw =
      (Inr (), ex_world_raw) \<and>
    \<not> encodable
      (path_join (output_dir_or_default ?raw None)
         (fst (splitext (snd (path_split ?raw))) @ ''_video.mp4''))"
    using raw_exists raw_dir raw_enc
    by (simp add: raw_od raw_v makedirs_if_missing_present)
  have c: "split_video_audio ex_env ?raw None ex_world_raw =
        (Inl (UnicodeEncodeError
           (path_join (output_dir_or_default ?raw None)
              (fst (splitext (snd (path_split ?raw))) @ ''_video.mp4''))), ex_world_raw) \<and>
      calls ex_world_raw = calls ex_world_raw"
    using split_fails_without_partial_success
        [where w = ex_world_raw and input_file = ?raw and env = ex_env
           and output_dir = None and ?w1.0 = ex_world_raw and ?w2.0 = ex_world_raw
           and e = "CalledProcessError 1 ?cmd", THEN conjunct2, THEN conjunct2] h3
    by (rule mp)
  then have c1: "split_video_audio ex_env ?raw None ex_world_raw =
      (Inl (UnicodeEncodeError (ex_raw_dir @ ''/v_video.mp4'')), ex_world_raw)"
    by (simp add: raw_od raw_v)
  have a': "split_video_audio ex_env ''in/missing.mp4'' None ex_world =
     (Inl (FileNotFoundError ''Input file not found: in/missing.mp4''), ex_world)"
    using a by simp
  have b1': "fst (split_video_audio ex_env_bad ''in/VIDEO.MP4'' (Some ''out'') ex_world) =
     Inl (CalledProcessError 1
            [''ffmpeg'', ''-i'', ''in/VIDEO.MP4'', ''-c:v'', ''copy'', ''-an'',
             ''out/VIDEO_video.mp4''])"
    using b1 by (simp add: video_cmd_def)
  have b2': "calls (snd (split_video_audio ex_env_bad ''in/VIDEO.MP4'' (Some ''out'')
      ex_world)) =
     [Run [''ffmpeg'', ''-i'', ''in/VIDEO.MP4'', ''-c:v'', ''copy'', ''-an'',
           ''out/VIDEO_video.mp4'']]"
    using b2 none by (simp add: video_cmd_def)
  from missing a' ex_video_exists enc b1' b2' raw_exists raw_enc c1 show ?thesis
    by (intro conjI)
qed

text \<open>
  C8: when \<open>split_video_audio\<close> returns, the input file exists and the result is exactly
  the pair of \<open>os.path.join(output_dir, base + "_video.mp4")\<close> and
  \<open>os.path.join(output_dir, base + "_audio.wav")\<close>, where \<open>base\<close> is the file name of the
  input without its extension and \<open>output_dir\<close> is the argument, or the directory of the
  input file when the argument is absent. That directory is never the empty string on
  success, and unless it ends with a separator the two paths are literally
  \<open>output_dir/base_video.mp4\<close> and \<open>output_dir/base_audio.wav\<close>.
\<close>

theorem split_returns_derived_paths:
  assumes "split_video_audio env input_file output_dir w = (Inr (video_file, audio_file), w')"
  shows "os_path_exists w input_file \<and>
    video_file = path_join (output_dir_or_default input_file output_dir)
                   (fst (splitext (snd (path_split input_file))) @ ''_video.mp4'') \<and>
    audio_file = path_join (output_dir_or_default input_file output_dir)
                   (fst (splitext (snd (path_split input_file))) @ ''_audio.wav'') \<and>
    output_dir_or_default input_file None = fst (path_split input_file) \<and>
    output_dir_or_default input_file output_dir \<noteq> [] \<and>
    (last (output_dir_or_default input_file output_dir) \<noteq> sep \<longrightarrow>
       video_file = output_dir_or_default input_file output_dir @ ''/'' @
                      fst (splitext (snd (path_split input_file))) @ ''_video.mp4'' \<and>
       audio_file = output_dir_or_default input_file output_dir @ ''/'' @
                      fst (splitext (snd (path_split input_file))) @ ''_audio.wav'')"
proof -
  let ?od = "output_dir_or_default input_file output_dir"
  let ?base = "fst (splitext (snd (path_split input_file)))"
  let ?v = "path_join ?od (?base @ ''_video.mp4'')"
  let ?a = "path_join ?od (?base @ ''_audio.wav'')"
  from assms have ex: "os_path_exists w input_file"
    by (auto simp: split_video_audio_def split: if_splits)
  obtain r1 w1 where m: "makedirs_if_missing ?od w = (r1, w1)"
    by (cases "makedirs_if_missing ?od w")
  with assms ex have r1: "r1 = Inr ()"
    by (cases r1) (simp_all add: split_video_audio_def Let_def)
  with assms ex m have x: "run_extraction env input_file ?v ?a w1 =
      (Inr (video_file, audio_file), w')"
    by (simp add: split_video_audio_def Let_def)
  with run_extraction_summary [of env input_file ?v ?a w1]
  have v: "video_file = ?v" and a: "audio_file = ?a"
    by auto
  from m r1 have ne: "?od \<noteq> []"
    using makedirs_if_missing_empty [of w] by auto
  have "sep \<notin> set ?base"
    using splitext_fst_subset [of "snd (path_split input_file)"]
      sep_notin_filename [of input_file]
    by auto
  then have nv: "sep \<notin> set (?base @ ''_video.mp4'')"
    and na: "sep \<notin> set (?base @ ''_audio.wav'')"
    by (simp_all add: sep_def)
  have lit: "last ?od \<noteq> sep \<longrightarrow>
      video_file = ?od @ ''/'' @ ?base @ ''_video.mp4'' \<and>
      audio_file = ?od @ ''/'' @ ?base @ ''_audio.wav''"
    using v a ne path_join_plain [OF nv ne] path_join_plain [OF na ne]
    by (simp add: sep_def)
  show ?thesis
    using ex v a ne lit by (simp add: output_dir_or_default_def)
qed

theorem split_returns_derived_paths_witness:
  "fst (split_video_audio ex_env ''in/VIDEO.MP4'' (Some ''out'') ex_world) =
     Inr (''out/VIDEO_video.mp4'', ''out/VIDEO_audio.wav'') \<and>
   os_path_exists ex_world ''in/VIDEO.MP4'' \<and>
   output_dir_or_default ''in/VIDEO.MP4'' None = ''in'' \<and>
   fst (path_split ''in/VIDEO.MP4'') = ''in''"
proof -
  let ?r = "split_video_audio ex_env ''in/VIDEO.MP4'' (Some ''out'') ex_world"
  have r1: "fst ?r = Inr (''out/VIDEO_video.mp4'', ''out/VIDEO_audio.wav'')"
    by (simp add: model_eval)
  have r: "?r = (Inr (''out/VIDEO_video.mp4'', ''out/VIDEO_audio.wav''), snd ?r)"
    by (simp only: prod_eq_iff fst_conv snd_conv r1 simp_thms)
  note t = split_returns_derived_paths [OF r]
  from t have "os_path_exists ex_world ''in/VIDEO.MP4''"
    and "output_dir_or_default ''in/VIDEO.MP4'' None = fst (path_split ''in/VIDEO.MP4'')"
    by blast+
  with r1 show ?thesis
    by (simp add: ex_derived)
qed


section \<open>Persisting a transcription\<close>

text \<open>
  C1 (as stated): whenever the transcription of a file returns, the empty string of a bad
  file included, the batch writes the \<open>.txt\<close> file, then the \<open>.json\<close> sidecar, and
  counts the file. The code guards the writes and the count with \<open>if transcription:\<close>.
  In the example run inference fails on \<open>in/b.mp3\<close>: the transcription returns the empty
  string, the run counts 2 of the 3 audio files, and neither \<open>out/b.txt\<close> nor
  \<open>out/b.json\<close> exists afterwards.
\<close>

theorem empty_sentinel_blocks_outputs_counterexample:
  "fst (transcribe_audio_with_whisper ex_env_bad ''in/b.mp3'' ''en'' ex_world_out) = Inr [] \<and>
   fst (process_audio_directory ex_env_bad ex_walk ''in'' ''out'' ex_world) = Inr 2 \<and>
   length (find_audio_files ex_walk) = 3 \<and>
   \<not> os_path_exists
       (snd (process_audio_directory ex_env_bad ex_walk ''in'' ''out'' ex_world)) ''out/b.txt'' \<and>
   \<not> os_path_exists
       (snd (process_audio_directory ex_env_bad ex_walk ''in'' ''out'' ex_world)) ''out/b.json''"
proof -
  have "fst (transcribe_audio_with_whisper ex_env_bad ''in/b.mp3'' ''en'' ex_world_out) = Inr []"
    by (simp add: model_eval ex_world_out_def)
  moreover have "length (find_audio_files ex_walk) = 3"
    by (simp add: model_eval)
  moreover have "\<not> os_path_exists ex_bad_final ''out/b.txt''"
    "\<not> os_path_exists ex_bad_final ''out/b.json''"
    by (simp_all add: model_eval ex_bad_final_def)
  ultimately show ?thesis
    by (simp add: ex_bad_run)
qed

text \<open>
  C1 (amended): for a file whose \<open>.txt\<close> does not exist yet, when the transcription
  returns the empty string nothing is written and the count stays as it was; when it
  returns a non-empty text and neither write raises, the \<open>.txt\<close> file is written first
  and holds the text, the \<open>.json\<close> sidecar is written after it, and the count is
  incremented.
\<close>

theorem persist_needs_text:
  assumes "\<not> os_path_exists w output_file"
    and "transcribe_audio_with_whisper env input_file ''en'' w = (Inr t, w1)"
  shows "(t = [] \<longrightarrow>
            transcribe_persist env input_file current_output_dir filename_without_ext
              output_file processed_count w = (Inr processed_count, w1) \<and>
            fs w1 = fs w) \<and>
         (t \<noteq> [] \<and>
          open_write output_file (Text t) w1 = (Inr (), w2) \<and>
          open_write (path_join current_output_dir (filename_without_ext @ ''.json''))
            (Json [(''audio_file'', input_file), (''transcription'', t), (''language'', ''en'')])
            w2 = (Inr (), w3) \<longrightarrow>
            transcribe_persist env input_file current_output_dir filename_without_ext
              output_file processed_count w = (Inr (processed_count + 1), w3) \<and>
            read_file w2 output_file = Some (Text t) \<and>
            read_file w3 (path_join current_output_dir (filename_without_ext @ ''.json'')) =
              Some (Json [(''audio_file'', input_file), (''transcription'', t),
                          (''language'', ''en'')]))"
proof (intro conjI impI)
  assume "t = []"
  with assms show "transcribe_persist env input_file current_output_dir filename_without_ext
      output_file processed_count w = (Inr processed_count, w1)"
    by (simp add: transcribe_persist_def)
  from assms(2) show "fs w1 = fs w"
    using transcribe_frame(1) [of env input_file "''en''" w] by simp
next
  let ?json = "path_join current_output_dir (filename_without_ext @ ''.json'')"
  let ?obj = "Json [(''audio_file'', input_file), (''transcription'', t), (''language'', ''en'')]"
  assume h: "t \<noteq> [] \<and> open_write output_file (Text t) w1 = (Inr (), w2) \<and>
    open_write ?json ?obj w2 = (Inr (), w3)"
  with assms show "transcribe_persist env input_file current_output_dir filename_without_ext
      output_file processed_count w = (Inr (processed_count + 1), w3)"
    by (simp add: transcribe_persist_def)
  from h show "read_file w2 output_file = Some (Text t)"
    by (blast intro: open_write_read)
  from h show "read_file w3 ?json = Some ?obj"
    by (blast intro: open_write_read)
qed

theorem persist_needs_text_witness:
  "\<not> os_path_exists ex_world_out ''out/b.txt'' \<and>
   fst (transcribe_audio_with_whisper ex_env_bad ''in/b.mp3'' ''en'' ex_world_out) = Inr [] \<and>
   fst (transcribe_persist ex_env_bad ''in/b.mp3'' ''out'' ''b'' ''out/b.txt'' 0 ex_world_out) =
     Inr 0 \<and>
   \<not> os_path_exists ex_world_out ''out/a.txt'' \<and>
   fst (transcribe_audio_with_whisper ex_env ''in/a.mp3'' ''en'' ex_world_out) =
     Inr ''hello world'' \<and>
   fst (transcribe_persist ex_env ''in/a.mp3'' ''out'' ''a'' ''out/a.txt'' 0 ex_world_out) =
     Inr 1 \<and>
   read_file (snd (transcribe_persist ex_env ''in/a.mp3'' ''out'' ''a'' ''out/a.txt'' 0
                     ex_world_out)) ''out/a.json'' =
     Some (Json [(''audio_file'', ''in/a.mp3''), (''transcription'', ''hello world''),
                 (''language'', ''en'')])"
proof -
  let ?tb = "transcribe_audio_with_whisper ex_env_bad ''in/b.mp3'' ''en'' ex_world_out"
  let ?ta = "transcribe_audio_with_whisper ex_env ''in/a.mp3'' ''en'' ex_world_out"
  let ?obj = "Json [(''audio_file'', ''in/a.mp3''), (''transcription'', ''hello world''),
                    (''language'', ''en'')]"
  let ?w2 = "snd (open_write ''out/a.txt'' (Text ''hello world'') (snd ?ta))"
  let ?w3 = "snd (open_write (path_join ''out'' (''a'' @ ''.json'')) ?obj ?w2)"
  have nb: "\<not> os_path_exists ex_world_out ''out/b.txt''"
    and na: "\<not> os_path_exists ex_world_out ''out/a.txt''"
    by (simp_all add: model_eval ex_world_out_def)
  have tb: "fst ?tb = Inr []"
    by (simp add: model_eval ex_world_out_def)
  have ta: "fst ?ta = Inr ''hello world''"
    by (simp add: model_eval ex_world_out_def)
  have w2: "fst (open_write ''out/a.txt'' (Text ''hello world'') (snd ?ta)) = Inr ()"
    by (simp add: model_eval ex_world_out_def)
  have w3: "fst (open_write (path_join ''out'' (''a'' @ ''.json'')) ?obj ?w2) = Inr ()"
    by (simp add: model_eval ex_world_out_def)
  have b: "transcribe_persist ex_env_bad ''in/b.mp3'' ''out'' ''b'' ''out/b.txt'' 0 ex_world_out =
      (Inr 0, snd ?tb) \<and> fs (snd ?tb) = fs ex_world_out"
    using persist_needs_text [OF nb pair_fst [OF tb], THEN conjunct1] by (rule mp) simp
  have h: "''hello world'' \<noteq> [] \<and>
      open_write ''out/a.txt'' (Text ''hello world'') (snd ?ta) = (Inr (), ?w2) \<and>
      open_write (path_join ''out'' (''a'' @ ''.json'')) ?obj ?w2 = (Inr (), ?w3)"
    using pair_fst [OF w2] pair_fst [OF w3] by simp
  have a: "transcribe_persist ex_env ''in/a.mp3'' ''out'' ''a'' ''out/a.txt'' 0 ex_world_out =
      (Inr (0 + 1), ?w3) \<and>
      read_file ?w2 ''out/a.txt'' = Some (Text ''hello world'') \<and>
      read_file ?w3 (path_join ''out'' (''a'' @ ''.json'')) = Some ?obj"
    using persist_needs_text [OF na pair_fst [OF ta], THEN conjunct2] h by (rule mp)
  have j: "path_join ''out'' ''a.json'' = ''out/a.json''"
    by (simp add: path_eval)
  from a have a1: "fst (transcribe_persist ex_env ''in/a.mp3'' ''out'' ''a'' ''out/a.txt'' 0
      ex_world_out) = Inr 1"
    and a2: "read_file (snd (transcribe_persist ex_env ''in/a.mp3'' ''out'' ''a'' ''out/a.txt'' 0
      ex_world_out)) ''out/a.json'' = Some ?obj"
    by (simp_all add: j)
  from b have b1: "fst (transcribe_persist ex_env_bad ''in/b.mp3'' ''out'' ''b'' ''out/b.txt'' 0
      ex_world_out) = Inr 0"
    by simp
  show ?thesis
    using nb tb b1 na ta a1 a2 by simp
qed

text \<open>
  C5 (as stated): for every successful transcription producing a text \<open>T\<close> from a file
  \<open>F\<close>, the sidecar written next to the \<open>.txt\<close> holds \<open>F\<close>, \<open>T\<close> and \<open>"en"\<close>. A
  transcription can succeed with the empty text: the collaborator returns \<open>""\<close> for
  \<open>in/a.mp3\<close>, the operation prints \<open>Transcription successful\<close> and returns it, and the
  guard \<open>if transcription:\<close> then skips both writes. The file is not counted and there is
  no sidecar to read, and no \<open>.txt\<close>, afterwards.
\<close>

theorem silent_transcription_has_no_sidecar_counterexample:
  "transcribe ex_env_silent ''in/a.mp3'' ''en'' = Inr [] \<and>
   fst (transcribe_audio_with_whisper ex_env_silent ''in/a.mp3'' ''en'' ex_world_out) = Inr [] \<and>
   stdout (snd (transcribe_audio_with_whisper ex_env_silent ''in/a.mp3'' ''en'' ex_world_out)) =
     [Processing ''in/a.mp3'', LoadingModel, Transcribing ''in/a.mp3'',
      TranscriptionSuccessful []] \<and>
   fst (transcribe_body ex_env_silent ''in'' ''out'' (''in'', ''a.mp3'') 0 ex_world) = Inr 0 \<and>
   read_file (snd (transcribe_body ex_env_silent ''in'' ''out'' (''in'', ''a.mp3'') 0 ex_world))
     ''out/a.json'' = None \<and>
   json_load (snd (transcribe_body ex_env_silent ''in'' ''out'' (''in'', ''a.mp3'') 0 ex_world))
     ''out/a.json'' = None \<and>
   \<not> os_path_exists
       (snd (transcribe_body ex_env_silent ''in'' ''out'' (''in'', ''a.mp3'') 0 ex_world))
       ''out/a.json'' \<and>
   \<not> os_path_exists
       (snd (transcribe_body ex_env_silent ''in'' ''out'' (''in'', ''a.mp3'') 0 ex_world))
       ''out/a.txt''"
proof -
  let ?t = "transcribe_audio_with_whisper ex_env_silent ''in/a.mp3'' ''en'' ex_world_out"
  let ?b = "transcribe_body ex_env_silent ''in'' ''out'' (''in'', ''a.mp3'') 0 ex_world"
  have b: "?b = (Inr 0,
      ex_world\<lparr>fs := ex_fs([''out''] \<mapsto> Dir),
        stdout := [Processing ''in/a.mp3'', LoadingModel, Transcribing ''in/a.mp3'',
                   TranscriptionSuccessful []],
        calls := [LoadModel ''tiny'', Transcribe ''in/a.mp3'' ''en'']\<rparr>)"
    by (simp add: model_eval)
  have "transcribe ex_env_silent ''in/a.mp3'' ''en'' = Inr []"
    by (simp add: ex_env_silent_def)
  moreover have "fst ?t = Inr []"
    by (simp add: model_eval ex_world_out_def)
  moreover have "stdout (snd ?t) =
     [Processing ''in/a.mp3'', LoadingModel, Transcribing ''in/a.mp3'',
      TranscriptionSuccessful []]"
    by (simp add: model_eval ex_world_out_def)
  moreover have "fst ?b = Inr 0"
    unfolding b by simp
  moreover have r: "read_file (snd ?b) ''out/a.json'' = None"
    unfolding b by (simp add: model_eval)
  moreover have "json_load (snd ?b) ''out/a.json'' = None"
    by (simp add: json_load_def r)
  moreover have "\<not> os_path_exists (snd ?b) ''out/a.json''"
    unfolding b by (simp add: model_eval)
  moreover have "\<not> os_path_exists (snd ?b) ''out/a.txt''"
    unfolding b by (simp add: model_eval)
  ultimately show ?thesis
    by (intro conjI)
qed

text \<open>
  C5 (amended): when the loop body transcribes a file \<open>F = os.path.join(root, file)\<close>
  whose \<open>.txt\<close> did not exist and gets the text \<open>T\<close>: if \<open>T\<close> is not empty and the file
  is counted, so that both writes succeeded, the sidecar \<open>base.json\<close> in the mirrored
  output directory holds what \<open>json.dump\<close> wrote for the object
  \<open>{"audio_file": F, "transcription": T, "language": "en"}\<close>, and \<open>json.load\<close> reads that
  text back as exactly this object, whatever characters \<open>F\<close> and \<open>T\<close> are made of; the
  language field is the constant \<open>"en"\<close> whatever the collaborator does with the language
  it is given. If \<open>T\<close> is empty nothing is written, so there is no sidecar, and the file
  is not counted.
\<close>

theorem sidecar_holds_transcript:
  assumes rel: "relpath (cwd w) root input_dir = Inr rel"
    and mk: "makedirs_if_missing (mirror_dir output_dir rel) w = (Inr (), w0)"
    and new: "\<not> os_path_exists w0
                (path_join (mirror_dir output_dir rel) (fst (splitext file) @ ''.txt''))"
    and tr: "transcribe_audio_with_whisper env (path_join root file) ''en'' w0 = (Inr t, w1)"
  shows "(t \<noteq> [] \<and>
          transcribe_body env input_dir output_dir (root, file) n w = (Inr (n + 1), w') \<longrightarrow>
            read_file w'
              (path_join (mirror_dir output_dir rel) (fst (splitext file) @ ''.json'')) =
            Some (Json [(''audio_file'', path_join root file), (''transcription'', t),
                        (''language'', ''en'')]) \<and>
            json_load w'
              (path_join (mirror_dir output_dir rel) (fst (splitext file) @ ''.json'')) =
            Some [(''audio_file'', path_join root file), (''transcription'', t),
                  (''language'', ''en'')]) \<and>
         (t = [] \<longrightarrow>
            transcribe_body env input_dir output_dir (root, file) n w = (Inr n, w1) \<and>
            fs w1 = fs w0)"
proof (intro conjI impI)
  let ?cod = "mirror_dir output_dir rel"
  let ?txt = "path_join ?cod (fst (splitext file) @ ''.txt'')"
  let ?json = "path_join ?cod (fst (splitext file) @ ''.json'')"
  let ?obj = "Json [(''audio_file'', path_join root file), (''transcription'', t),
                    (''language'', ''en'')]"
  assume h: "t \<noteq> [] \<and>
    transcribe_body env input_dir output_dir (root, file) n w = (Inr (n + 1), w')"
  obtain r2 w2 where o2: "open_write ?txt (Text t) w1 = (r2, w2)"
    by (cases "open_write ?txt (Text t) w1")
  obtain r3 w3 where o3: "open_write ?json ?obj w2 = (r3, w3)"
    by (cases "open_write ?json ?obj w2")
  from h rel mk new tr o2 o3 have "r2 = Inr ()" and "r3 = Inr ()" and "w' = w3"
    by (auto simp: transcribe_body_def transcribe_persist_def Let_def print_def
        split: sum.splits if_splits)
  with o3 show r: "read_file w' ?json = Some ?obj"
    by (simp add: open_write_read)
  show "json_load w' ?json =
      Some [(''audio_file'', path_join root file), (''transcription'', t), (''language'', ''en'')]"
    by (rule json_load_written [OF r]) simp
next
  assume "t = []"
  with rel mk new tr
  show "transcribe_body env input_dir output_dir (root, file) n w = (Inr n, w1)"
    by (simp add: transcribe_body_def transcribe_persist_def Let_def)
  from tr show "fs w1 = fs w0"
    using transcribe_frame(1) [of env "path_join root file" "''en''" w0] by simp
qed

theorem sidecar_holds_transcript_witness:
  "relpath (cwd ex_world) ''in'' ''in'' = Inr ''.'' \<and>
   makedirs_if_missing ''out'' ex_world = (Inr (), ex_world_out) \<and>
   \<not> os_path_exists ex_world_out ''out/a.txt'' \<and>
   fst (transcribe_audio_with_whisper ex_env ''in/a.mp3'' ''en'' ex_world_out) =
     Inr ''hello world'' \<and>
   fst (transcribe_body ex_env ''in'' ''out'' (''in'', ''a.mp3'') 0 ex_world) = Inr 1 \<and>
   read_file (snd (transcribe_body ex_env ''in'' ''out'' (''in'', ''a.mp3'') 0 ex_world))
     ''out/a.json'' =
     Some (Json [(''audio_file'', ''in/a.mp3''), (''transcription'', ''hello world''),
                 (''language'', ''en'')]) \<and>
   json_load (snd (transcribe_body ex_env ''in'' ''out'' (''in'', ''a.mp3'') 0 ex_world))
     ''out/a.json'' =
     Some [(''audio_file'', ''in/a.mp3''), (''transcription'', ''hello world''),
           (''language'', ''en'')] \<and>
   fst (transcribe_audio_with_whisper ex_env_silent ''in/a.mp3'' ''en'' ex_world_out) = Inr [] \<and>
   fst (transcribe_body ex_env_silent ''in'' ''out'' (''in'', ''a.mp3'') 0 ex_world) = Inr 0"
proof -
  let ?b = "transcribe_body ex_env ''in'' ''out'' (''in'', ''a.mp3'') 0 ex_world"
  let ?t = "transcribe_audio_with_whisper ex_env (path_join ''in'' ''a.mp3'') ''en'' ex_world_out"
  let ?s = "transcribe_audio_with_whisper ex_env_silent (path_join ''in'' ''a.mp3'') ''en''
              ex_world_out"
  have rel: "relpath (cwd ex_world) ''in'' ''in'' = Inr ''.''"
    by (simp add: model_eval)
  have mk: "makedirs_if_missing (mirror_dir ''out'' ''.'') ex_world = (Inr (), ex_world_out)"
    by (simp add: ex_paths_a ex_makedirs_out ex_world_out_def)
  have new: "\<not> os_path_exists ex_world_out
      (path_join (mirror_dir ''out'' ''.'') (fst (splitext ''a.mp3'') @ ''.txt''))"
    by (simp add: ex_paths_a) (simp add: model_eval ex_world_out_def)
  have tr: "fst ?t = Inr ''hello world''"
    by (simp add: model_eval ex_world_out_def)
  have ts: "fst ?s = Inr []"
    by (simp add: model_eval ex_world_out_def)
  have ok: "fst ?b = Inr (0 + 1)"
    by (simp add: model_eval)
  have h: "''hello world'' \<noteq> [] \<and> ?b = (Inr (0 + 1), snd ?b)"
    using pair_fst [OF ok] by simp
  have r: "read_file (snd ?b)
      (path_join (mirror_dir ''out'' ''.'') (fst (splitext ''a.mp3'') @ ''.json'')) =
      Some (Json [(''audio_file'', path_join ''in'' ''a.mp3''),
                  (''transcription'', ''hello world''), (''language'', ''en'')]) \<and>
      json_load (snd ?b)
      (path_join (mirror_dir ''out'' ''.'') (fst (splitext ''a.mp3'') @ ''.json'')) =
      Some [(''audio_file'', path_join ''in'' ''a.mp3''),
            (''transcription'', ''hello world''), (''language'', ''en'')]"
    using sidecar_holds_transcript [OF rel mk new pair_fst [OF tr], where n = 0
        and w' = "snd ?b", THEN conjunct1] h
    by (rule mp)
  have e: "([]::string) = []"
    by simp
  have s: "transcribe_body ex_env_silent ''in'' ''out'' (''in'', ''a.mp3'') 0 ex_world =
      (Inr 0, snd ?s) \<and> fs (snd ?s) = fs ex_world_out"
    using sidecar_holds_transcript [OF rel mk new pair_fst [OF ts], where n = 0
        and w' = "snd ?b", THEN conjunct2] e
    by (rule mp)
  have p: "?t = transcribe_audio_with_whisper ex_env ''in/a.mp3'' ''en'' ex_world_out"
    "?s = transcribe_audio_with_whisper ex_env_silent ''in/a.mp3'' ''en'' ex_world_out"
    by (simp_all add: ex_paths_a)
  from new have new': "\<not> os_path_exists ex_world_out ''out/a.txt''"
    by (simp add: ex_paths_a)
  from r have r': "read_file (snd ?b) ''out/a.json'' =
      Some (Json [(''audio_file'', ''in/a.mp3''), (''transcription'', ''hello world''),
                  (''language'', ''en'')])"
    by (simp add: ex_paths_a)
  from r have j': "json_load (snd ?b) ''out/a.json'' =
      Some [(''audio_file'', ''in/a.mp3''), (''transcription'', ''hello world''),
            (''language'', ''en'')]"
    by (simp add: ex_paths_a)
  from mk have mk': "makedirs_if_missing ''out'' ex_world = (Inr (), ex_world_out)"
    by (simp add: ex_paths_a)
  from tr p have tr': "fst (transcribe_audio_with_whisper ex_env ''in/a.mp3'' ''en''
      ex_world_out) = Inr ''hello world''"
    by simp
  from ts p have ts': "fst (transcribe_audio_with_whisper ex_env_silent ''in/a.mp3'' ''en''
      ex_world_out) = Inr []"
    by simp
  from ok have ok': "fst ?b = Inr 1"
    by simp
  from s have s': "fst (transcribe_body ex_env_silent ''in'' ''out'' (''in'', ''a.mp3'') 0
      ex_world) = Inr 0"
    by simp
  from rel mk' new' tr' ok' r' j' ts' s' show ?thesis
    by (intro conjI)
qed


text \<open>
  C10: the two writes are not atomic. When the \<open>.txt\<close> write succeeds and the sidecar
  write then raises, the loop body catches the exception, prints it and leaves the count
  as it was, and the \<open>.txt\<close> file stays, holding the text. From then on, in every world
  that extends that one (nothing deleted) the body only skips the file: it counts it and
  changes nothing but the printed output, so no collaborator is called and the sidecar is
  never written.
\<close>

theorem sidecar_failure_is_permanent:
  assumes rel: "relpath (cwd w) root input_dir = Inr rel"
    and mk: "makedirs_if_missing (mirror_dir output_dir rel) w = (Inr (), w0)"
    and new: "\<not> os_path_exists w0
                (path_join (mirror_dir output_dir rel) (fst (splitext file) @ ''.txt''))"
    and tr: "transcribe_audio_with_whisper env (path_join root file) ''en'' w0 = (Inr t, w1)"
    and t: "t \<noteq> []"
    and wtxt: "open_write (path_join (mirror_dir output_dir rel) (fst (splitext file) @ ''.txt''))
                (Text t) w1 = (Inr (), w2)"
    and json: "open_write
                 (path_join (mirror_dir output_dir rel) (fst (splitext file) @ ''.json''))
                 (Json [(''audio_file'', path_join root file), (''transcription'', t),
                        (''language'', ''en'')]) w2 = (Inl e, w3)"
  shows "transcribe_body env input_dir output_dir (root, file) n w =
           (Inr n, emit (ErrorProcessing (path_join root file) e) w3) \<and>
         read_file w3
           (path_join (mirror_dir output_dir rel) (fst (splitext file) @ ''.txt'')) =
           Some (Text t) \<and>
         fs w3 = fs w2 \<and>
         (extends (fs w3) (fs v) \<and> cwd v = cwd w \<longrightarrow>
            transcribe_body env' input_dir output_dir (root, file) m v =
              (Inr (m + 1), emit (Skipping (path_join root file)) v))"
proof -
  let ?cod = "mirror_dir output_dir rel"
  let ?txt = "path_join ?cod (fst (splitext file) @ ''.txt'')"
  have enc: "encodable (path_join root file)"
    using tr by (rule transcribe_Inr_encodable)
  let ?json = "path_join ?cod (fst (splitext file) @ ''.json'')"
  let ?obj = "Json [(''audio_file'', path_join root file), (''transcription'', t),
                    (''language'', ''en'')]"
  from json have j1: "fst (open_write ?json ?obj w2) = Inl e"
    and j2: "snd (open_write ?json ?obj w2) = w3"
    by simp_all
  from j1 have txe: "exn_text e = []"
    by (rule open_write_error)
  have first: "transcribe_body env input_dir output_dir (root, file) n w =
      (Inr n, emit (ErrorProcessing (path_join root file) e) w3)"
    using rel mk new tr t wtxt json enc txe
    by (simp add: transcribe_body_def transcribe_persist_def Let_def print_ok)
  have "writable ?obj"
    by simp
  from this j1 have "snd (open_write ?json ?obj w2) = w2"
    by (rule open_write_failed)
  with j2 have w3: "w3 = w2"
    by simp
  from wtxt have rd: "read_file w2 ?txt = Some (Text t)"
    by (rule open_write_read)
  have c0: "cwd w0 = cwd w"
    using mk makedirs_if_missing_frame(3) [of ?cod w] by simp
  have c1: "cwd w1 = cwd w0" and f1: "fs w1 = fs w0"
    using tr transcribe_frame [of env "path_join root file" "''en''" w0] by simp_all
  have c2: "cwd w2 = cwd w1" and e2: "extends (fs w1) (fs w2)"
    using wtxt open_write_frame(3) [of ?txt "Text t" w1] open_write_extends [of w1 ?txt "Text t"]
    by simp_all
  have d0: "os_path_exists w0 ?cod"
    using mk by (rule makedirs_if_missing_exists)
  have later: "transcribe_body env' input_dir output_dir (root, file) m v =
      (Inr (m + 1), emit (Skipping (path_join root file)) v)"
    if v: "extends (fs w3) (fs v) \<and> cwd v = cwd w"
  proof -
    from v e2 f1 w3 have ev: "extends (fs w0) (fs v)"
      by (auto intro: extends_trans)
    from v c0 have cv: "cwd v = cwd w0"
      by simp
    from ev cv d0 have dv: "os_path_exists v ?cod"
      by (rule os_path_exists_mono)
    from rd have "os_path_exists w2 ?txt"
      by (rule read_file_exists)
    moreover from v w3 have "extends (fs w2) (fs v)"
      by simp
    moreover from cv c1 c2 have "cwd v = cwd w2"
      by simp
    ultimately have tv: "os_path_exists v ?txt"
      by (blast intro: os_path_exists_mono)
    from v rel have "relpath (cwd v) root input_dir = Inr rel"
      by simp
    with dv tv enc show ?thesis
      by (simp add: transcribe_body_def transcribe_persist_def Let_def
            makedirs_if_missing_present print_ok)
  qed
  from first rd w3 later show ?thesis
    by simp
qed

theorem sidecar_failure_is_permanent_witness:
  "\<not> os_path_exists ex_world_blocked ''out/a.txt'' \<and>
   fst (transcribe_audio_with_whisper ex_env ''in/a.mp3'' ''en'' ex_world_blocked) =
     Inr ''hello world'' \<and>
   fst (transcribe_body ex_env ''in'' ''out'' (''in'', ''a.mp3'') 0 ex_world_blocked) = Inr 0 \<and>
   read_file (snd (transcribe_body ex_env ''in'' ''out'' (''in'', ''a.mp3'') 0 ex_world_blocked))
     ''out/a.txt'' = Some (Text ''hello world'') \<and>
   read_file (snd (transcribe_body ex_env ''in'' ''out'' (''in'', ''a.mp3'') 0 ex_world_blocked))
     ''out/a.json'' = None \<and>
   transcribe_body ex_env ''in'' ''out'' (''in'', ''a.mp3'') 0
     (snd (transcribe_body ex_env ''in'' ''out'' (''in'', ''a.mp3'') 0 ex_world_blocked)) =
     (Inr 1, emit (Skipping ''in/a.mp3'')
        (snd (transcribe_body ex_env ''in'' ''out'' (''in'', ''a.mp3'') 0 ex_world_blocked)))"
proof -
  let ?F = "path_join ''in'' ''a.mp3''"
  let ?txt = "path_join (mirror_dir ''out'' ''.'') (fst (splitext ''a.mp3'') @ ''.txt'')"
  let ?json = "path_join (mirror_dir ''out'' ''.'') (fst (splitext ''a.mp3'') @ ''.json'')"
  let ?obj = "Json [(''audio_file'', ?F), (''transcription'', ''hello world''),
                    (''language'', ''en'')]"
  let ?t = "transcribe_audio_with_whisper ex_env ?F ''en'' ex_world_blocked"
  let ?w2 = "snd (open_write ?txt (Text ''hello world'') (snd ?t))"
  let ?e = "IsADirectoryError ''out/a.json''"
  let ?b = "transcribe_body ex_env ''in'' ''out'' (''in'', ''a.mp3'') 0 ex_world_blocked"
  have rel: "relpath (cwd ex_world_blocked) ''in'' ''in'' = Inr ''.''"
    by (simp add: model_eval ex_world_blocked_def)
  have mk: "makedirs_if_missing (mirror_dir ''out'' ''.'') ex_world_blocked =
      (Inr (), ex_world_blocked)"
    by (simp add: ex_paths_a) (simp add: model_eval ex_world_blocked_def)
  have new: "\<not> os_path_exists ex_world_blocked ?txt"
    by (simp add: ex_paths_a) (simp add: model_eval ex_world_blocked_def)
  have tr: "fst ?t = Inr ''hello world''"
    by (simp add: model_eval ex_world_blocked_def)
  have ne: "''hello world'' \<noteq> []"
    by simp
  have o2: "fst (open_write ?txt (Text ''hello world'') (snd ?t)) = Inr ()"
    by (simp add: ex_paths_a) (simp add: model_eval ex_world_blocked_def)
  have o3: "fst (open_write ?json ?obj ?w2) = Inl ?e"
    by (simp add: ex_paths_a) (simp add: model_eval ex_world_blocked_def)
  let ?w3 = "snd (open_write ?json ?obj ?w2)"
  let ?v = "emit (ErrorProcessing ?F ?e) ?w3"
  note r = sidecar_failure_is_permanent
    [OF rel mk new pair_fst [OF tr] ne pair_fst [OF o2] pair_fst [OF o3],
     where n = 0 and m = 0 and env' = ex_env and v = ?v]
  from r have first: "?b = (Inr 0, ?v)"
    by (rule conjunct1)
  from r have rd: "read_file ?w3 ?txt = Some (Text ''hello world'')"
    by (rule conjunct2 [THEN conjunct1])
  from r have imp: "extends (fs ?w3) (fs ?v) \<and> cwd ?v = cwd ex_world_blocked \<longrightarrow>
      transcribe_body ex_env ''in'' ''out'' (''in'', ''a.mp3'') 0 ?v =
        (Inr (0 + 1), emit (Skipping ?F) ?v)"
    by (rule conjunct2 [THEN conjunct2, THEN conjunct2])
  have hyp: "extends (fs ?w3) (fs ?v) \<and> cwd ?v = cwd ex_world_blocked"
    by simp
  from imp hyp have again: "transcribe_body ex_env ''in'' ''out'' (''in'', ''a.mp3'') 0 ?v =
        (Inr (0 + 1), emit (Skipping ?F) ?v)"
    by (rule mp)
  have c1: "\<not> os_path_exists ex_world_blocked ''out/a.txt''"
    using new by (simp add: ex_paths_a)
  have c2: "fst (transcribe_audio_with_whisper ex_env ''in/a.mp3'' ''en'' ex_world_blocked) =
      Inr ''hello world''"
    using tr by (simp add: ex_paths_a)
  have c3: "fst ?b = Inr 0"
    by (simp only: first fst_conv)
  have c4: "read_file (snd ?b) ''out/a.txt'' = Some (Text ''hello world'')"
    by (simp add: model_eval ex_world_blocked_def)
  have c5: "read_file (snd ?b) ''out/a.json'' = None"
    by (simp add: model_eval ex_world_blocked_def)
  have c6: "transcribe_body ex_env ''in'' ''out'' (''in'', ''a.mp3'') 0 (snd ?b) =
      (Inr 1, emit (Skipping ''in/a.mp3'') (snd ?b))"
    unfolding first snd_conv using again unfolding ex_paths_a by simp
  from c1 c2 c3 c4 c5 c6 show ?thesis
    by (intro conjI)
qed

section \<open>Selection of files\<close>

text \<open>
  C9: both jobs select files by a suffix of the lowered name. The split job passes over a
  file whose lowered name does not end with \<open>.mp4\<close>, and the files it attends to (those it
  reports as processed or failed) are, in the order of the walk, exactly the files whose
  lowered name ends with \<open>.mp4\<close>: whenever the job returns, and it does return when no
  root of the walk is empty and the selected paths and the texts of the exceptions of the
  demux tool can be printed. \<open>VIDEO.MP4\<close> and \<open>video.mp4\<close> are both selected. The files
  the transcribe job collects, and visits when it returns, are exactly those whose lowered
  name ends with one of \<open>_audio.wav\<close>, \<open>.mp3\<close>, \<open>.aac\<close>, \<open>.flac\<close>.
\<close>

theorem selection_by_lowered_suffix:
  "(\<not> is_video_name name \<longrightarrow>
      split_files env root current_output_dir (name # names) k w =
        split_files env root current_output_dir names k w) \<and>
   (fst (process_directory_recursively env os_walk input_dir output_dir w) = Inr n \<longrightarrow>
      attempted (stdout (snd (process_directory_recursively env os_walk input_dir output_dir w))) =
        attempted (stdout w) @ selected_videos os_walk) \<and>
   (list_all (\<lambda>triple. fst triple \<noteq> []) os_walk \<and>
    list_all encodable (selected_videos os_walk) \<and> demux_errors_printable env \<longrightarrow>
      attempted (stdout (snd (process_directory_recursively env os_walk input_dir output_dir w))) =
        attempted (stdout w) @ selected_videos os_walk) \<and>
   map (\<lambda>rf. path_join (fst rf) (snd rf)) (find_audio_files os_walk) = selected_audio os_walk \<and>
   ((root, name) \<in> set (find_audio_files os_walk) \<longleftrightarrow>
      (\<exists>dirs files. (root, dirs, files) \<in> set os_walk \<and> name \<in> set files \<and>
         is_audio_name name)) \<and>
   (fst (process_audio_directory env os_walk input_dir output_dir w) = Inr n \<longrightarrow>
      visited (stdout (snd (process_audio_directory env os_walk input_dir output_dir w))) =
        visited (stdout w) @ selected_audio os_walk) \<and>
   is_video_name ''VIDEO.MP4'' \<and> is_video_name ''video.mp4''"
proof (intro conjI impI)
  assume "\<not> is_video_name name"
  then show "split_files env root current_output_dir (name # names) k w =
        split_files env root current_output_dir names k w"
    by (simp add: is_video_name_def)
next
  assume "fst (process_directory_recursively env os_walk input_dir output_dir w) = Inr n"
  with split_walk_reports [of env input_dir output_dir os_walk 0 w n]
  show "attempted (stdout (snd (process_directory_recursively env os_walk input_dir output_dir w))) =
        attempted (stdout w) @ selected_videos os_walk"
    by (simp add: process_directory_recursively_def)
next
  assume h: "list_all (\<lambda>triple. fst triple \<noteq> []) os_walk \<and>
    list_all encodable (selected_videos os_walk) \<and> demux_errors_printable env"
  show "attempted (stdout (snd (process_directory_recursively env os_walk input_dir output_dir w))) =
        attempted (stdout w) @ selected_videos os_walk"
  proof (cases "fst (split_walk env input_dir output_dir os_walk 0 w)")
    case (Inl e)
    with h split_walk_reports [of env input_dir output_dir os_walk 0 w _ e] show ?thesis
      by simp
  next
    case (Inr m)
    with split_walk_reports [of env input_dir output_dir os_walk 0 w m] show ?thesis
      by (simp add: process_directory_recursively_def)
  qed
next
  show "map (\<lambda>rf. path_join (fst rf) (snd rf)) (find_audio_files os_walk) =
      selected_audio os_walk"
    by (rule find_audio_files_selected)
next
  show "(root, name) \<in> set (find_audio_files os_walk) \<longleftrightarrow>
      (\<exists>dirs files. (root, dirs, files) \<in> set os_walk \<and> name \<in> set files \<and>
         is_audio_name name)"
    by (rule find_audio_files_iff)
next
  assume r: "fst (process_audio_directory env os_walk input_dir output_dir w) = Inr n"
  from process_audio_directory_summary [of env os_walk input_dir output_dir w] r
  show "visited (stdout (snd (process_audio_directory env os_walk input_dir output_dir w))) =
        visited (stdout w) @ selected_audio os_walk"
    by auto
next
  show "is_video_name ''VIDEO.MP4''" "is_video_name ''video.mp4''"
    by (simp_all add: is_video_name_def endswith_def lower_def lower_char_def)
qed

theorem selection_by_lowered_suffix_witness:
  "\<not> is_video_name ''notes.doc'' \<and>
   split_files ex_env_bad ''in'' ''out'' [''notes.doc''] 0 ex_world = (Inr 0, ex_world) \<and>
   list_all (\<lambda>triple. fst triple \<noteq> []) ex_walk \<and>
   list_all encodable (selected_videos ex_walk) \<and> demux_errors_printable ex_env_bad \<and>
   fst (process_directory_recursively ex_env_bad ex_walk ''in'' ''out'' ex_world) = Inr 1 \<and>
   attempted (stdout (snd (process_directory_recursively ex_env_bad ex_walk ''in'' ''out''
     ex_world))) = [''in/VIDEO.MP4'', ''in/sub/talk.mp4''] \<and>
   fst (process_audio_directory ex_env_bad ex_walk ''in'' ''out'' ex_world) = Inr 2 \<and>
   visited (stdout (snd (process_audio_directory ex_env_bad ex_walk ''in'' ''out'' ex_world))) =
     [''in/a.mp3'', ''in/b.mp3'', ''in/sub/clip_audio.wav''] \<and>
   (''in'', ''a.mp3'') \<in> set (find_audio_files ex_walk) \<and>
   is_audio_name ''a.mp3''"
proof -
  let ?pdr = "process_directory_recursively ex_env_bad ex_walk ''in'' ''out'' ex_world"
  note t = selection_by_lowered_suffix
    [where env = ex_env_bad and os_walk = ex_walk and input_dir = "''in''"
       and output_dir = "''out''" and w = ex_world and root = "''in''"
       and current_output_dir = "''out''" and names = "[]" and k = 0]
  have out: "stdout ex_world = []"
    by (simp add: ex_world_def)
  have nv: "\<not> is_video_name ''notes.doc''"
    by (simp add: is_video_name_def endswith_def lower_def lower_char_def)
  have "split_files ex_env_bad ''in'' ''out'' [''notes.doc''] 0 ex_world =
      split_files ex_env_bad ''in'' ''out'' [] 0 ex_world"
    using t [where name = "''notes.doc''" and n = 1, THEN conjunct1] nv by (rule mp)
  then have skip: "split_files ex_env_bad ''in'' ''out'' [''notes.doc''] 0 ex_world =
      (Inr 0, ex_world)"
    by simp
  have srun: "fst ?pdr = Inr 1"
    by (simp add: ex_bad_split_run)
  have "attempted (stdout (snd ?pdr)) = attempted (stdout ex_world) @ selected_videos ex_walk"
    using t [where name = "''a.mp3''" and n = 1, THEN conjunct2, THEN conjunct1] srun
    by (rule mp)
  then have a: "attempted (stdout (snd ?pdr)) = [''in/VIDEO.MP4'', ''in/sub/talk.mp4'']"
    by (simp add: out ex_selected)
  have enc: "list_all encodable (selected_videos ex_walk)"
    by (simp add: ex_selected)
  have h3: "list_all (\<lambda>triple. fst triple \<noteq> []) ex_walk \<and>
      list_all encodable (selected_videos ex_walk) \<and> demux_errors_printable ex_env_bad"
    using ex_selected(4) enc ex_demux_errors_printable by simp
  have a': "attempted (stdout (snd ?pdr)) = attempted (stdout ex_world) @ selected_videos ex_walk"
    using t [where name = "''a.mp3''" and n = 1, THEN conjunct2, THEN conjunct2, THEN conjunct1]
      h3
    by (rule mp)
  have run: "fst (process_audio_directory ex_env_bad ex_walk ''in'' ''out'' ex_world) = Inr 2"
    by (simp add: ex_bad_run)
  have "visited (stdout (snd (process_audio_directory ex_env_bad ex_walk ''in'' ''out''
      ex_world))) = visited (stdout ex_world) @ selected_audio ex_walk"
    using t [where name = "''a.mp3''" and n = 2, THEN conjunct2, THEN conjunct2, THEN conjunct2,
        THEN conjunct2, THEN conjunct2, THEN conjunct1] run
    by (rule mp)
  then have v: "visited (stdout (snd (process_audio_directory ex_env_bad ex_walk ''in'' ''out''
      ex_world))) = [''in/a.mp3'', ''in/b.mp3'', ''in/sub/clip_audio.wav'']"
    by (simp add: out ex_selected)
  have m: "(''in'', ''a.mp3'') \<in> set (find_audio_files ex_walk)"
    by (simp add: ex_selected)
  have "\<exists>dirs files. (''in'', dirs, files) \<in> set ex_walk \<and> ''a.mp3'' \<in> set files \<and>
      is_audio_name ''a.mp3''"
    using t [where name = "''a.mp3''" and n = 2, THEN conjunct2, THEN conjunct2, THEN conjunct2,
        THEN conjunct2, THEN conjunct1] m
    by (rule iffD1)
  then have i: "is_audio_name ''a.mp3''"
    by blast
  from nv skip ex_selected(4) enc ex_demux_errors_printable srun a run v m i show ?thesis
    by (intro conjI)
qed


section \<open>Fault isolation\<close>






section \<open>Mirroring of directories\<close>



end
